theory Spec2Isabelle
  imports Main "HOL-Library.Word" "HOL-Library.List_Lexorder"
begin

section \<open>Strings\<close>

text \<open>
  A JavaScript string is a sequence of UTF-16 code units and \<^verbatim>\<open>length\<close> counts them, so a
  string is modelled as a list of 16-bit words. \<open>lit\<close> embeds a literal written with
  characters below 256.
\<close>

type_synonym jstring = "16 word list"

definition lit :: "string \<Rightarrow> jstring" where
  "lit s = map of_char s"

text \<open>
  Decimal rendering of a number inside a template string: the digits of an integer, which
  is how JavaScript renders a number that is an integer of magnitude below ten to the power 21.
\<close>

fun show_nat :: "nat \<Rightarrow> jstring" where
  "show_nat n =
     (if n < 10 then [of_nat (48 + n)]
      else show_nat (n div 10) @ [of_nat (48 + n mod 10)])"

declare show_nat.simps [simp del]

definition show_int :: "int \<Rightarrow> jstring" where
  "show_int i = (if i < 0 then lit ''-'' @ show_nat (nat (- i)) else show_nat (nat i))"

text \<open>
  Text bound to a statement of the store is written as UTF-8, and comes back decoded from
  it. A high surrogate (\<open>D800\<close> to \<open>DBFF\<close>) followed by a low surrogate (\<open>DC00\<close> to \<open>DFFF\<close>) is
  one code point and comes back as the same two code units; a surrogate outside such a pair
  has no UTF-8 form and is written as the replacement character, so that it comes back as
  the code unit \<open>FFFD\<close>. Every other code unit comes back as it is. \<open>sqlite_text s\<close> is the
  text that the store holds, and returns, for the bound string \<open>s\<close>.
\<close>

definition is_high_surrogate :: "16 word \<Rightarrow> bool" where
  "is_high_surrogate c \<longleftrightarrow> 0xD800 \<le> c \<and> c \<le> 0xDBFF"

definition is_low_surrogate :: "16 word \<Rightarrow> bool" where
  "is_low_surrogate c \<longleftrightarrow> 0xDC00 \<le> c \<and> c \<le> 0xDFFF"

fun sqlite_text :: "jstring \<Rightarrow> jstring" where
  "sqlite_text [] = []"
| "sqlite_text [c] = [if is_high_surrogate c \<or> is_low_surrogate c then 0xFFFD else c]"
| "sqlite_text (c # c' # rest) =
     (if is_high_surrogate c \<and> is_low_surrogate c' then c # c' # sqlite_text rest
      else (if is_high_surrogate c \<or> is_low_surrogate c then 0xFFFD else c)
             # sqlite_text (c' # rest))"

declare sqlite_text.simps(2,3) [simp del]

text \<open>
  The code points of a text, a surrogate pair being one code point above \<open>FFFF\<close>. The order
  of the UTF-8 bytes of two texts, by which the store compares them, is the lexicographic
  order of their code points.
\<close>

fun code_points :: "jstring \<Rightarrow> nat list" where
  "code_points [] = []"
| "code_points [c] = [unat c]"
| "code_points (c # c' # rest) =
     (if is_high_surrogate c \<and> is_low_surrogate c'
      then (0x10000 + (unat c - 0xD800) * 0x400 + (unat c' - 0xDC00)) # code_points rest
      else unat c # code_points (c' # rest))"

section \<open>Schema (schema.ts)\<close>

text \<open>
  Field names carry a prefix for the interface they belong to, since the interfaces share
  their field names. An optional field is an \<open>option\<close>, \<open>None\<close> for \<^verbatim>\<open>undefined\<close>. A
  metadata object is represented by its JSON text, and a number (limit, version) by an
  integer, as the \<^verbatim>\<open>INTEGER\<close> columns hold them: limits and versions are taken to be
  integers of magnitude below 2 to the power 53, which a JavaScript number counts exactly.
\<close>

record MemoryBlock =
  b_id :: jstring
  b_label :: jstring
  b_value :: jstring
  b_description :: "jstring option"
  b_charLimit :: int
  b_readOnly :: bool
  b_hidden :: "bool option"
  b_createdAt :: jstring
  b_updatedAt :: jstring
  b_version :: int
  b_metadata :: "jstring option"

record CreateMemoryBlock =
  c_label :: jstring
  c_value :: "jstring option"
  c_description :: "jstring option"
  c_charLimit :: "int option"
  c_readOnly :: "bool option"
  c_hidden :: "bool option"
  c_metadata :: "jstring option"

record UpdateMemoryBlock =
  u_value :: "jstring option"
  u_description :: "jstring option"
  u_charLimit :: "int option"
  u_readOnly :: "bool option"
  u_hidden :: "bool option"
  u_metadata :: "jstring option"

record MemoryBlockHistory =
  h_id :: jstring
  h_blockId :: jstring
  h_label :: jstring
  h_value :: jstring
  h_version :: int
  h_createdAt :: jstring
  h_createdAtBy :: jstring

section \<open>Errors\<close>

text \<open>
  Every failure of the source is a thrown \<^verbatim>\<open>Error\<close> with a message. The constructors name
  the kind of failure and carry what the message is built from; \<open>message\<close> renders the
  message as the source's template string does.
\<close>

datatype error =
    DuplicateLabel jstring
  | CharLimitExceeded nat int jstring
  | ReadOnlyModified jstring
  | ReadOnlyDeleted jstring
  | ContentNotFound jstring
  | SqliteError jstring
  | TypeError jstring

fun message :: "error \<Rightarrow> jstring" where
  "message (DuplicateLabel l) = lit ''Block with label \"'' @ l @ lit ''\" already exists''"
| "message (CharLimitExceeded n limit l) =
     lit ''Value length ('' @ show_nat n @ lit '') exceeds charLimit ('' @ show_int limit
       @ lit '') for block \"'' @ l @ lit ''\"''"
| "message (ReadOnlyModified l) =
     lit ''Block \"'' @ l @ lit ''\" is read-only and cannot be modified''"
| "message (ReadOnlyDeleted l) =
     lit ''Block \"'' @ l @ lit ''\" is read-only and cannot be deleted''"
| "message (ContentNotFound l) = lit ''Old content not found in block \"'' @ l @ lit ''\"''"
| "message (SqliteError m) = m"
| "message (TypeError m) = m"

section \<open>The store (class MemoryDatabase)\<close>

subsection \<open>Tables\<close>

text \<open>
  The two tables of \<^verbatim>\<open>initSchema\<close>, each a list of rows in insertion order. The columns
  \<^verbatim>\<open>read_only\<close> and \<^verbatim>\<open>hidden\<close> are integers, \<^verbatim>\<open>description\<close> and \<^verbatim>\<open>metadata\<close> are nullable.
\<close>

record block_row =
  r_id :: jstring
  r_session_id :: jstring
  r_label :: jstring
  r_value :: jstring
  r_description :: "jstring option"
  r_char_limit :: int
  r_read_only :: int
  r_hidden :: int
  r_metadata :: "jstring option"
  r_created_at :: jstring
  r_updated_at :: jstring
  r_version :: int

record history_row =
  hr_id :: jstring
  hr_block_id :: jstring
  hr_label :: jstring
  hr_value :: jstring
  hr_version :: int
  hr_created_at :: jstring
  hr_created_by :: jstring

record database =
  memory_blocks :: "block_row list"
  memory_block_history :: "history_row list"

definition empty_db :: database where
  "empty_db = \<lparr>memory_blocks = [], memory_block_history = []\<rparr>"

subsection \<open>Reading rows\<close>

text \<open>
  The object built from a selected row: \<^verbatim>\<open>readOnly: row.readOnly === 1\<close>,
  \<^verbatim>\<open>hidden: row.hidden === 1\<close>, and the metadata parsed when the column is truthy.
\<close>

definition row_to_block :: "block_row \<Rightarrow> MemoryBlock" where
  "row_to_block r =
     \<lparr>b_id = r_id r, b_label = r_label r, b_value = r_value r,
      b_description = r_description r, b_charLimit = r_char_limit r,
      b_readOnly = (r_read_only r = 1), b_hidden = Some (r_hidden r = 1),
      b_createdAt = r_created_at r, b_updatedAt = r_updated_at r,
      b_version = r_version r,
      b_metadata = (case r_metadata r of None \<Rightarrow> None
                    | Some j \<Rightarrow> if j = [] then None else Some j)\<rparr>"

text \<open>
  The condition \<^verbatim>\<open>WHERE session_id = ? AND label = ?\<close>: the columns are compared with
  the bound strings as the store holds them.
\<close>

definition matches :: "jstring \<Rightarrow> jstring \<Rightarrow> block_row \<Rightarrow> bool" where
  "matches sessionId l r \<longleftrightarrow>
     r_session_id r = sqlite_text sessionId \<and> r_label r = sqlite_text l"

text \<open>\<^verbatim>\<open>ORDER BY label\<close> is the order of the UTF-8 bytes of the labels.\<close>

definition db_getBlocksForSession :: "jstring \<Rightarrow> database \<Rightarrow> MemoryBlock list" where
  "db_getBlocksForSession sessionId d =
     map row_to_block
       (sort_key (\<lambda>r. code_points (r_label r))
          (filter (\<lambda>r. r_session_id r = sqlite_text sessionId) (memory_blocks d)))"

definition db_getBlockByLabel :: "jstring \<Rightarrow> jstring \<Rightarrow> database \<Rightarrow> MemoryBlock option" where
  "db_getBlockByLabel sessionId l d =
     map_option row_to_block (find (matches sessionId l) (memory_blocks d))"

definition db_getBlock :: "jstring \<Rightarrow> database \<Rightarrow> MemoryBlock option" where
  "db_getBlock i d = map_option row_to_block (find (\<lambda>r. r_id r = i) (memory_blocks d))"

subsection \<open>Writing rows\<close>

text \<open>
  An \<^verbatim>\<open>INSERT\<close> fails on a primary key or \<^verbatim>\<open>UNIQUE\<close> collision, and a history row must
  reference an existing block. The identifiers of \<^verbatim>\<open>randomUUID()\<close> and the time of
  \<^verbatim>\<open>new Date().toISOString()\<close> are arguments of the operations; they are texts of ASCII
  characters, which the store holds as they are, as it does the constant \<^verbatim>\<open>"agent"\<close>.
  Every other string that a statement binds (session, label, value, description, metadata)
  is held as \<open>sqlite_text\<close> gives it; \<open>insert_block\<close> takes the row as the store holds it.
\<close>

definition insert_block :: "block_row \<Rightarrow> database \<Rightarrow> error + database" where
  "insert_block r d =
     (if r_id r \<in> set (map r_id (memory_blocks d))
      then Inl (SqliteError (lit ''UNIQUE constraint failed: memory_blocks.id''))
      else if list_ex (matches (r_session_id r) (r_label r)) (memory_blocks d)
      then Inl (SqliteError
        (lit ''UNIQUE constraint failed: memory_blocks.session_id, memory_blocks.label''))
      else Inr (d\<lparr>memory_blocks := memory_blocks d @ [r]\<rparr>))"

definition createHistoryEntry ::
  "jstring \<Rightarrow> jstring \<Rightarrow> jstring \<Rightarrow> int \<Rightarrow> jstring \<Rightarrow> jstring \<Rightarrow> jstring \<Rightarrow> database
     \<Rightarrow> error + database" where
  "createHistoryEntry blockId l v version createdAt createdBy hid d =
     (if hid \<in> set (map hr_id (memory_block_history d))
      then Inl (SqliteError (lit ''UNIQUE constraint failed: memory_block_history.id''))
      else if blockId \<notin> set (map r_id (memory_blocks d))
      then Inl (SqliteError (lit ''FOREIGN KEY constraint failed''))
      else Inr (d\<lparr>memory_block_history := memory_block_history d @
             [\<lparr>hr_id = hid, hr_block_id = blockId,
               hr_label = sqlite_text l, hr_value = sqlite_text v,
               hr_version = version, hr_created_at = createdAt,
               hr_created_by = createdBy\<rparr>]\<rparr>))"

definition new_row ::
  "jstring \<Rightarrow> jstring \<Rightarrow> CreateMemoryBlock \<Rightarrow> jstring \<Rightarrow> block_row" where
  "new_row i sessionId block now =
     \<lparr>r_id = i, r_session_id = sqlite_text sessionId,
      r_label = sqlite_text (c_label block),
      r_value = sqlite_text (case c_value block of None \<Rightarrow> [] | Some v \<Rightarrow> v),
      r_description =
        Some (sqlite_text (case c_description block of None \<Rightarrow> [] | Some x \<Rightarrow> x)),
      r_char_limit =
        (case c_charLimit block of None \<Rightarrow> 4000 | Some n \<Rightarrow> if n = 0 then 4000 else n),
      r_read_only = (if c_readOnly block = Some True then 1 else 0),
      r_hidden = (if c_hidden block = Some True then 1 else 0),
      r_metadata = map_option sqlite_text (c_metadata block),
      r_created_at = now, r_updated_at = now, r_version = 1\<rparr>"

definition db_createBlock ::
  "jstring \<Rightarrow> CreateMemoryBlock \<Rightarrow> jstring \<Rightarrow> jstring \<Rightarrow> jstring \<Rightarrow> database
     \<Rightarrow> (error + MemoryBlock option) \<times> database" where
  "db_createBlock sessionId block i hid now d =
     (case insert_block (new_row i sessionId block now) d of
        Inl e \<Rightarrow> (Inl e, d)
      | Inr d1 \<Rightarrow>
          (case createHistoryEntry i (c_label block)
                  (case c_value block of None \<Rightarrow> [] | Some v \<Rightarrow> v) 1 now (lit ''agent'') hid d1 of
             Inl e \<Rightarrow> (Inl e, d1)
           | Inr d2 \<Rightarrow> (Inr (db_getBlock i d2), d2)))"

text \<open>
  The \<^verbatim>\<open>UPDATE\<close> statement: a field that the update does not supply is bound as
  \<^verbatim>\<open>NULL\<close>, for which \<^verbatim>\<open>COALESCE(?, column)\<close> keeps the column; \<^verbatim>\<open>updated_at\<close> and
  \<^verbatim>\<open>version\<close> are always written. The statement changes every row of the session and
  label, and \<^verbatim>\<open>updateBlock\<close> then inserts the history row only when a value is supplied.
\<close>

definition update_row :: "UpdateMemoryBlock \<Rightarrow> jstring \<Rightarrow> int \<Rightarrow> block_row \<Rightarrow> block_row" where
  "update_row updates now newVersion r =
     r\<lparr>r_value := (case u_value updates of None \<Rightarrow> r_value r | Some v \<Rightarrow> sqlite_text v),
       r_description :=
         (case u_description updates of None \<Rightarrow> r_description r
          | Some x \<Rightarrow> Some (sqlite_text x)),
       r_char_limit := (case u_charLimit updates of None \<Rightarrow> r_char_limit r | Some n \<Rightarrow> n),
       r_read_only :=
         (case u_readOnly updates of None \<Rightarrow> r_read_only r
          | Some f \<Rightarrow> if f then 1 else 0),
       r_hidden :=
         (case u_hidden updates of None \<Rightarrow> r_hidden r | Some f \<Rightarrow> if f then 1 else 0),
       r_metadata :=
         (case u_metadata updates of None \<Rightarrow> r_metadata r | Some j \<Rightarrow> Some (sqlite_text j)),
       r_updated_at := now,
       r_version := newVersion\<rparr>"

definition db_updateBlock ::
  "jstring \<Rightarrow> jstring \<Rightarrow> UpdateMemoryBlock \<Rightarrow> jstring \<Rightarrow> jstring \<Rightarrow> database
     \<Rightarrow> (error + MemoryBlock option) \<times> database" where
  "db_updateBlock sessionId l updates hid now d =
     (case db_getBlockByLabel sessionId l d of
        None \<Rightarrow> (Inr None, d)
      | Some existing \<Rightarrow>
          (let newVersion = b_version existing + 1;
               d1 = d\<lparr>memory_blocks :=
                      map (\<lambda>r. if matches sessionId l r
                                then update_row updates now newVersion r else r)
                        (memory_blocks d)\<rparr>
           in case u_value updates of
                None \<Rightarrow> (Inr (db_getBlockByLabel sessionId l d1), d1)
              | Some v \<Rightarrow>
                  (case createHistoryEntry (b_id existing) l v newVersion now
                          (lit ''agent'') hid d1 of
                     Inl e \<Rightarrow> (Inl e, d1)
                   | Inr d2 \<Rightarrow> (Inr (db_getBlockByLabel sessionId l d2), d2))))"

text \<open>
  \<^verbatim>\<open>DELETE\<close> removes the matching rows and, by \<^verbatim>\<open>ON DELETE CASCADE\<close>, the history rows
  that reference them; the result is \<^verbatim>\<open>changes > 0\<close>.
\<close>

definition db_deleteBlock :: "jstring \<Rightarrow> jstring \<Rightarrow> database \<Rightarrow> bool \<times> database" where
  "db_deleteBlock sessionId l d =
     (let gone = map r_id (filter (matches sessionId l) (memory_blocks d))
      in (gone \<noteq> [],
          \<lparr>memory_blocks = filter (\<lambda>r. \<not> matches sessionId l r) (memory_blocks d),
           memory_block_history =
             filter (\<lambda>h. hr_block_id h \<notin> set gone) (memory_block_history d)\<rparr>))"

definition history_of_row :: "history_row \<Rightarrow> MemoryBlockHistory" where
  "history_of_row h =
     \<lparr>h_id = hr_id h, h_blockId = hr_block_id h, h_label = hr_label h, h_value = hr_value h,
      h_version = hr_version h, h_createdAt = hr_created_at h,
      h_createdAtBy = hr_created_by h\<rparr>"

definition db_getBlockHistory :: "jstring \<Rightarrow> jstring \<Rightarrow> database \<Rightarrow> MemoryBlockHistory list" where
  "db_getBlockHistory sessionId l d =
     (case db_getBlockByLabel sessionId l d of
        None \<Rightarrow> []
      | Some block \<Rightarrow>
          map history_of_row
            (rev (sort_key hr_version
               (filter (\<lambda>h. hr_block_id h = b_id block) (memory_block_history d)))))"

text \<open>
  \<^verbatim>\<open>deleteSessionMemory\<close>: the blocks of a session are removed, with their history rows.
\<close>

definition db_deleteSessionMemory :: "jstring \<Rightarrow> database \<Rightarrow> database" where
  "db_deleteSessionMemory sid d =
     (let gone = map r_id (filter (\<lambda>r. r_session_id r = sqlite_text sid) (memory_blocks d))
      in \<lparr>memory_blocks = filter (\<lambda>r. \<not> r_session_id r = sqlite_text sid) (memory_blocks d),
          memory_block_history =
            filter (\<lambda>h. hr_block_id h \<notin> set gone) (memory_block_history d)\<rparr>)"

section \<open>String operations of the JavaScript library\<close>

text \<open>
  \<^verbatim>\<open>indexOf\<close>: the position of the first occurrence of the search string, \<open>0\<close> for the
  empty search string. \<^verbatim>\<open>includes\<close> holds when there is such a position.
\<close>

fun indexOf :: "jstring \<Rightarrow> jstring \<Rightarrow> nat option" where
  "indexOf [] search = (if search = [] then Some 0 else None)"
| "indexOf (x # xs) search =
     (if take (length search) (x # xs) = search then Some 0
      else map_option Suc (indexOf xs search))"

definition includes_str :: "jstring \<Rightarrow> jstring \<Rightarrow> bool" where
  "includes_str s search \<longleftrightarrow> indexOf s search \<noteq> None"

text \<open>
  \<^verbatim>\<open>String.prototype.replace\<close> with a string pattern and a string replacement expands the
  replacement as a template (the standard's \<^verbatim>\<open>GetSubstitution\<close>): \<^verbatim>\<open>$$\<close> stands for one
  dollar sign, \<^verbatim>\<open>$&\<close> for the matched text, \<^verbatim>\<open>$`\<close> for the text before the match and
  \<^verbatim>\<open>$'\<close> for the text after it. With a string pattern there is no capture group, so
  \<^verbatim>\<open>$1\<close> to \<^verbatim>\<open>$99\<close> and \<^verbatim>\<open>$<\<close> are copied as they are, like every other code unit.
  The code units are \<open>36\<close> for the dollar sign, \<open>38\<close> for \<^verbatim>\<open>&\<close>, \<open>96\<close> for the backtick and
  \<open>39\<close> for the apostrophe.
\<close>

fun GetSubstitution :: "jstring \<Rightarrow> jstring \<Rightarrow> nat \<Rightarrow> jstring \<Rightarrow> jstring" where
  "GetSubstitution matched str position [] = []"
| "GetSubstitution matched str position [c] = [c]"
| "GetSubstitution matched str position (c # c' # rest) =
     (if c = 36 \<and> c' = 36 then [36] @ GetSubstitution matched str position rest
      else if c = 36 \<and> c' = 96
        then take position str @ GetSubstitution matched str position rest
      else if c = 36 \<and> c' = 38
        then matched @ GetSubstitution matched str position rest
      else if c = 36 \<and> c' = 39
        then drop (position + length matched) str @ GetSubstitution matched str position rest
      else c # GetSubstitution matched str position (c' # rest))"

definition replace_first :: "jstring \<Rightarrow> jstring \<Rightarrow> jstring \<Rightarrow> jstring" where
  "replace_first s searchValue replaceValue =
     (case indexOf s searchValue of
        None \<Rightarrow> s
      | Some position \<Rightarrow>
          take position s @ GetSubstitution searchValue s position replaceValue
            @ drop (position + length searchValue) s)"

text \<open>\<^verbatim>\<open>split("\n")\<close>: the pieces between the line feeds, one more than there are line feeds.\<close>

fun split_on :: "16 word \<Rightarrow> jstring \<Rightarrow> jstring \<Rightarrow> jstring list" where
  "split_on sep cur [] = [cur]"
| "split_on sep cur (c # cs) =
     (if c = sep then cur # split_on sep [] cs else split_on sep (cur @ [c]) cs)"

definition split_lines :: "jstring \<Rightarrow> jstring list" where
  "split_lines s = split_on 10 [] s"

fun join :: "jstring \<Rightarrow> jstring list \<Rightarrow> jstring" where
  "join sep [] = []"
| "join sep [x] = x"
| "join sep (x # y # ys) = x @ sep @ join sep (y # ys)"

fun findIndex :: "('a \<Rightarrow> bool) \<Rightarrow> 'a list \<Rightarrow> nat option" where
  "findIndex P [] = None"
| "findIndex P (x # xs) = (if P x then Some 0 else map_option Suc (findIndex P xs))"

section \<open>The manager (class MemoryManager)\<close>

text \<open>
  The state of a manager is its store and its cache (\<open>None\<close> for \<^verbatim>\<open>null\<close>). An operation
  returns its result, an error for a thrown exception, together with the state it leaves.
  The constructor sets the session identifier to \<^verbatim>\<open>"global"\<close>.
\<close>

record manager =
  db :: database
  memoryCache :: "MemoryBlock list option"

definition sessionId :: jstring where
  "sessionId = lit ''global''"

text \<open>
  \<^verbatim>\<open>load\<close> fills the cache from the store. The timestamps of the \<^verbatim>\<open>SessionMemory\<close> it
  returns are read by no operation of the manager; the blocks are returned.
\<close>

definition load :: "manager \<Rightarrow> MemoryBlock list \<times> manager" where
  "load m =
     (let blocks = db_getBlocksForSession sessionId (db m)
      in (blocks, m\<lparr>memoryCache := Some blocks\<rparr>))"

definition getBlock :: "jstring \<Rightarrow> manager \<Rightarrow> MemoryBlock option \<times> manager" where
  "getBlock l m =
     (let m1 = (if memoryCache m = None then snd (load m) else m)
      in (case memoryCache m1 of
            None \<Rightarrow> None
          | Some cache \<Rightarrow> find (\<lambda>b. b_label b = l) cache, m1))"

definition getBlocks :: "manager \<Rightarrow> MemoryBlock list \<times> manager" where
  "getBlocks m =
     (let m1 = (if memoryCache m = None then snd (load m) else m)
      in (case memoryCache m1 of None \<Rightarrow> [] | Some cache \<Rightarrow> cache, m1))"

definition cacheUpdate :: "MemoryBlock \<Rightarrow> manager \<Rightarrow> manager" where
  "cacheUpdate block m =
     (case memoryCache m of
        None \<Rightarrow> m
      | Some cache \<Rightarrow>
          (case findIndex (\<lambda>b. b_id b = b_id block) cache of
             Some index \<Rightarrow> m\<lparr>memoryCache := Some (cache[index := block])\<rparr>
           | None \<Rightarrow> m\<lparr>memoryCache := Some (cache @ [block])\<rparr>))"

definition clearCache :: "manager \<Rightarrow> manager" where
  "clearCache m = m\<lparr>memoryCache := None\<rparr>"

definition createBlock ::
  "CreateMemoryBlock \<Rightarrow> jstring \<Rightarrow> jstring \<Rightarrow> jstring \<Rightarrow> manager
     \<Rightarrow> (error + MemoryBlock) \<times> manager" where
  "createBlock block i hid now m =
     (case getBlock (c_label block) m of
        (Some existing, m1) \<Rightarrow> (Inl (DuplicateLabel (c_label block)), m1)
      | (None, m1) \<Rightarrow>
          (let v = (case c_value block of None \<Rightarrow> [] | Some x \<Rightarrow> x);
               charLimit = (case c_charLimit block of None \<Rightarrow> 4000
                            | Some n \<Rightarrow> if n = 0 then 4000 else n)
           in if int (length v) > charLimit
              then (Inl (CharLimitExceeded (length v) charLimit (c_label block)), m1)
              else (case db_createBlock sessionId block i hid now (db m1) of
                      (Inl e, d) \<Rightarrow> (Inl e, m1\<lparr>db := d\<rparr>)
                    | (Inr None, d) \<Rightarrow>
                        (Inl (TypeError
                           (lit ''Cannot read properties of undefined (reading 'id')'')),
                         m1\<lparr>db := d\<rparr>)
                    | (Inr (Some newBlock), d) \<Rightarrow>
                        (Inr newBlock, cacheUpdate newBlock (m1\<lparr>db := d\<rparr>)))))"

text \<open>
  The length validation of \<^verbatim>\<open>updateBlock\<close>: the first test needs both a value and a limit
  in the update, the second one a value only, and compares it with the existing limit.
\<close>

definition validate_length :: "jstring \<Rightarrow> UpdateMemoryBlock \<Rightarrow> MemoryBlock \<Rightarrow> error option" where
  "validate_length l updates existing =
     (case u_value updates of
        None \<Rightarrow> None
      | Some v \<Rightarrow>
          (if (case u_charLimit updates of None \<Rightarrow> False | Some n \<Rightarrow> int (length v) > n)
           then (case u_charLimit updates of
                   None \<Rightarrow> None
                 | Some n \<Rightarrow> Some (CharLimitExceeded (length v) n l))
           else if int (length v) > b_charLimit existing
           then Some (CharLimitExceeded (length v) (b_charLimit existing) l)
           else None))"

definition updateBlock ::
  "jstring \<Rightarrow> UpdateMemoryBlock \<Rightarrow> jstring \<Rightarrow> jstring \<Rightarrow> manager
     \<Rightarrow> (error + MemoryBlock option) \<times> manager" where
  "updateBlock l updates hid now m =
     (case getBlock l m of
        (None, m1) \<Rightarrow> (Inr None, m1)
      | (Some existing, m1) \<Rightarrow>
          (if b_readOnly existing then (Inl (ReadOnlyModified l), m1)
           else (case validate_length l updates existing of
                   Some e \<Rightarrow> (Inl e, m1)
                 | None \<Rightarrow>
                     (case db_updateBlock sessionId l updates hid now (db m1) of
                        (Inl e, d) \<Rightarrow> (Inl e, m1\<lparr>db := d\<rparr>)
                      | (Inr None, d) \<Rightarrow> (Inr None, m1\<lparr>db := d\<rparr>)
                      | (Inr (Some updatedBlock), d) \<Rightarrow>
                          (Inr (Some updatedBlock),
                           cacheUpdate updatedBlock (m1\<lparr>db := d\<rparr>))))))"

definition deleteBlock :: "jstring \<Rightarrow> manager \<Rightarrow> (error + bool) \<times> manager" where
  "deleteBlock l m =
     (case getBlock l m of
        (None, m1) \<Rightarrow> (Inr False, m1)
      | (Some block, m1) \<Rightarrow>
          (if b_readOnly block then (Inl (ReadOnlyDeleted l), m1)
           else (case db_deleteBlock sessionId l (db m1) of
                   (success, d) \<Rightarrow>
                     (Inr success,
                      (case memoryCache m1 of
                         None \<Rightarrow> m1\<lparr>db := d\<rparr>
                       | Some cache \<Rightarrow>
                           if success
                           then m1\<lparr>db := d,
                                  memoryCache := Some (filter (\<lambda>b. b_label b \<noteq> l) cache)\<rparr>
                           else m1\<lparr>db := d\<rparr>)))))"

definition only_value :: "jstring \<Rightarrow> UpdateMemoryBlock" where
  "only_value v =
     \<lparr>u_value = Some v, u_description = None, u_charLimit = None, u_readOnly = None,
      u_hidden = None, u_metadata = None\<rparr>"

definition appendBlock ::
  "jstring \<Rightarrow> jstring \<Rightarrow> jstring \<Rightarrow> jstring \<Rightarrow> manager
     \<Rightarrow> (error + MemoryBlock option) \<times> manager" where
  "appendBlock l content hid now m =
     (case getBlock l m of
        (None, m1) \<Rightarrow> (Inr None, m1)
      | (Some block, m1) \<Rightarrow>
          (if b_readOnly block then (Inl (ReadOnlyModified l), m1)
           else (let newValue =
                       b_value block @ (if b_value block \<noteq> [] then lit ''\<newline>'' else [])
                         @ content
                 in updateBlock l (only_value newValue) hid now m1)))"

definition replaceBlock ::
  "jstring \<Rightarrow> jstring \<Rightarrow> jstring \<Rightarrow> jstring \<Rightarrow> jstring \<Rightarrow> manager
     \<Rightarrow> (error + MemoryBlock option) \<times> manager" where
  "replaceBlock l oldContent newContent hid now m =
     (case getBlock l m of
        (None, m1) \<Rightarrow> (Inr None, m1)
      | (Some block, m1) \<Rightarrow>
          (if b_readOnly block then (Inl (ReadOnlyModified l), m1)
           else if oldContent \<noteq> [] \<and> \<not> includes_str (b_value block) oldContent
           then (Inl (ContentNotFound l), m1)
           else (let newValue =
                       (if oldContent \<noteq> []
                        then replace_first (b_value block) oldContent newContent
                        else newContent)
                 in updateBlock l (only_value newValue) hid now m1)))"

definition getBlockHistory :: "jstring \<Rightarrow> manager \<Rightarrow> MemoryBlockHistory list" where
  "getBlockHistory l m = db_getBlockHistory sessionId l (db m)"

section \<open>The compiler (compiler.ts)\<close>

record LlmConfig =
  modelEndpointType :: "jstring option"

record MemoryCompileOptions =
  llmConfig :: "LlmConfig option"



text \<open>The arrow glyph is the code unit \<open>0x2192\<close>; the apostrophe is \<open>39\<close>.\<close>

definition arrow :: jstring where
  "arrow = [0x2192]"

definition apostrophe :: jstring where
  "apostrophe = [39]"

definition CORE_MEMORY_LINE_NUMBER_WARNING :: jstring where
  "CORE_MEMORY_LINE_NUMBER_WARNING =
     lit ''IMPORTANT: The <value> field below contains a line-numbered memory block. When editing this block, you must preserve all line numbers exactly as they appear. Do not remove, renumber, or modify the line number prefixes (e.g., ''
     @ apostrophe @ lit ''1'' @ arrow @ lit '' '' @ apostrophe @ lit '', ''
     @ apostrophe @ lit ''2'' @ arrow @ lit '' '' @ apostrophe @ lit '', ''
     @ apostrophe @ lit ''3'' @ arrow @ lit '' '' @ apostrophe
     @ lit ''). Only modify the content after the arrow and space.''"

definition shouldUseLineNumbers :: "MemoryCompileOptions option \<Rightarrow> bool" where
  "shouldUseLineNumbers options =
     (case options of
        None \<Rightarrow> False
      | Some opts \<Rightarrow>
          (case llmConfig opts of
             None \<Rightarrow> False
           | Some config \<Rightarrow>
               if modelEndpointType config \<noteq> Some (lit ''anthropic'') then False else True))"

text \<open>The loop of \<^verbatim>\<open>renderWithLineNumbers\<close>, with its index \<open>i\<close>.\<close>

fun number_lines :: "nat \<Rightarrow> jstring list \<Rightarrow> jstring list" where
  "number_lines i [] = []"
| "number_lines i (line # lines) =
     (show_nat (i + 1) @ arrow @ lit '' '' @ line) # number_lines (i + 1) lines"

definition renderWithLineNumbers :: "jstring \<Rightarrow> jstring list" where
  "renderWithLineNumbers text = (if text = [] then [] else number_lines 0 (split_lines text))"

text \<open>
  What one iteration of the loop of \<^verbatim>\<open>compileMemory\<close> pushes for a block it does not skip:
  the lines down to the opening \<^verbatim>\<open><value>\<close>, the value, and the two closing tags.
\<close>

definition block_header :: "bool \<Rightarrow> MemoryBlock \<Rightarrow> jstring list" where
  "block_header useLineNumbers block =
     [lit ''<'' @ b_label block @ lit ''>'',
      lit ''<description>'',
      (case b_description block of None \<Rightarrow> [] | Some x \<Rightarrow> x),
      lit ''</description>'',
      lit ''<metadata>'']
     @ (if b_readOnly block then [lit ''- read_only=true''] else [])
     @ [lit ''- chars_current='' @ show_nat (length (b_value block)),
        lit ''- chars_limit='' @ show_int (b_charLimit block),
        lit ''</metadata>'']
     @ (if useLineNumbers
        then [lit ''<warning>\<newline>'' @ CORE_MEMORY_LINE_NUMBER_WARNING @ lit ''\<newline></warning>'']
        else [])
     @ [lit ''<value>'']"

definition block_lines :: "bool \<Rightarrow> MemoryBlock \<Rightarrow> jstring list" where
  "block_lines useLineNumbers block =
     block_header useLineNumbers block
     @ (if useLineNumbers then renderWithLineNumbers (b_value block) else [b_value block])
     @ [lit ''</value>'', lit ''</'' @ b_label block @ lit ''>'']"

text \<open>
  The loop of \<^verbatim>\<open>compileMemory\<close>: \<open>n\<close> is \<^verbatim>\<open>blocks.length\<close>, \<open>idx\<close> the index of the first
  block left and \<open>s\<close> the array of lines pushed so far.
\<close>

fun compile_loop ::
  "bool \<Rightarrow> nat \<Rightarrow> nat \<Rightarrow> MemoryBlock list \<Rightarrow> jstring list \<Rightarrow> jstring list" where
  "compile_loop useLineNumbers n idx [] s = s"
| "compile_loop useLineNumbers n idx (block # rest) s =
     (if b_hidden block = Some True then compile_loop useLineNumbers n (idx + 1) rest s
      else compile_loop useLineNumbers n (idx + 1) rest
             (s @ block_lines useLineNumbers block
                @ (if int idx < int n - 1 then [[]] else [])))"

definition compile_lines :: "MemoryBlock list \<Rightarrow> MemoryCompileOptions option \<Rightarrow> jstring list" where
  "compile_lines blocks options =
     compile_loop (shouldUseLineNumbers options) (length blocks) 0 blocks
       [lit ''<memory_blocks>'',
        lit ''The following memory blocks are currently engaged in your core memory unit:\<newline>'']
     @ [lit ''</memory_blocks>'']"

definition compileMemory :: "MemoryBlock list \<Rightarrow> MemoryCompileOptions option \<Rightarrow> jstring" where
  "compileMemory blocks options =
     (if length blocks = 0 then [] else join (lit ''\<newline>'') (compile_lines blocks options))"



definition compile :: "MemoryCompileOptions option \<Rightarrow> manager \<Rightarrow> jstring \<times> manager" where
  "compile options m = (case getBlocks m of (blocks, m1) \<Rightarrow> (compileMemory blocks options, m1))"

section \<open>The tools (tools.ts)\<close>

text \<open>
  The result of a tool: its content, one text item, and its details. \<open>try_catch\<close> is the
  \<^verbatim>\<open>try { ... } catch (error) { ... }\<close> around the body of an executor; the rendering of the
  caught error is \<^verbatim>\<open>error.message\<close>, every error of the model being an \<^verbatim>\<open>Error\<close>.
\<close>

datatype content_item = TextContent jstring

datatype details =
    DetailsError jstring
  | DetailsUpdated jstring nat int

record AgentToolResult =
  content :: "content_item list"
  details :: details

definition try_catch ::
  "(error + 'a) \<times> 's \<Rightarrow> (error \<Rightarrow> 's \<Rightarrow> (error + 'a) \<times> 's) \<Rightarrow> (error + 'a) \<times> 's" where
  "try_catch body handler =
     (case body of (Inl e, s) \<Rightarrow> handler e s | (Inr v, s) \<Rightarrow> (Inr v, s))"

definition not_found_result :: "jstring \<Rightarrow> AgentToolResult" where
  "not_found_result l =
     \<lparr>content = [TextContent (lit ''Error: Memory block '' @ apostrophe @ l @ apostrophe
          @ lit '' not found. Use memory_list to see available blocks.'')],
      details = DetailsError (lit ''Block not found'')\<rparr>"

definition memory_append_execute ::
  "jstring \<Rightarrow> jstring \<Rightarrow> jstring \<Rightarrow> jstring \<Rightarrow> manager
     \<Rightarrow> (error + AgentToolResult) \<times> manager" where
  "memory_append_execute l c hid now m =
     try_catch
       (case appendBlock l c hid now m of
          (Inl e, m1) \<Rightarrow> (Inl e, m1)
        | (Inr None, m1) \<Rightarrow> (Inr (not_found_result l), m1)
        | (Inr (Some block), m1) \<Rightarrow>
            (Inr \<lparr>content = [TextContent (lit ''Successfully appended to '' @ apostrophe @ l
                     @ apostrophe @ lit ''. Block now contains ''
                     @ show_nat (length (b_value block))
                     @ lit ''/'' @ show_int (b_charLimit block) @ lit '' characters.'')],
                  details = DetailsUpdated l (length (b_value block)) (b_charLimit block)\<rparr>,
             m1))
       (\<lambda>e m1.
          (Inr \<lparr>content = [TextContent (lit ''Error appending to memory: '' @ message e)],
                details = DetailsError (message e)\<rparr>, m1))"

definition memory_replace_execute ::
  "jstring \<Rightarrow> jstring option \<Rightarrow> jstring \<Rightarrow> jstring \<Rightarrow> jstring \<Rightarrow> manager
     \<Rightarrow> (error + AgentToolResult) \<times> manager" where
  "memory_replace_execute l old_content new_content hid now m =
     try_catch
       (case replaceBlock l (case old_content of None \<Rightarrow> [] | Some x \<Rightarrow> x) new_content
               hid now m of
          (Inl e, m1) \<Rightarrow> (Inl e, m1)
        | (Inr None, m1) \<Rightarrow> (Inr (not_found_result l), m1)
        | (Inr (Some block), m1) \<Rightarrow>
            (Inr \<lparr>content = [TextContent (lit ''Successfully updated '' @ apostrophe @ l
                     @ apostrophe @ lit ''. Block now contains ''
                     @ show_nat (length (b_value block))
                     @ lit ''/'' @ show_int (b_charLimit block) @ lit '' characters.'')],
                  details = DetailsUpdated l (length (b_value block)) (b_charLimit block)\<rparr>,
             m1))
       (\<lambda>e m1.
          (Inr \<lparr>content = [TextContent (lit ''Error updating memory: '' @ message e)],
                details = DetailsError (message e)\<rparr>, m1))"

section \<open>Sequences of operations\<close>

text \<open>
  The operations of the manager that other components call, as values, and what a sequence
  of them leaves. The identifiers and times that an operation draws are its arguments.
\<close>

datatype operation =
    OpCreateBlock CreateMemoryBlock jstring jstring jstring
  | OpUpdateBlock jstring UpdateMemoryBlock jstring jstring
  | OpDeleteBlock jstring
  | OpAppendBlock jstring jstring jstring jstring
  | OpReplaceBlock jstring jstring jstring jstring jstring
  | OpLoad
  | OpGetBlock jstring
  | OpGetBlocks
  | OpCompile "MemoryCompileOptions option"
  | OpClearCache

fun apply_op :: "operation \<Rightarrow> manager \<Rightarrow> manager" where
  "apply_op (OpCreateBlock block i hid now) m = snd (createBlock block i hid now m)"
| "apply_op (OpUpdateBlock l updates hid now) m = snd (updateBlock l updates hid now m)"
| "apply_op (OpDeleteBlock l) m = snd (deleteBlock l m)"
| "apply_op (OpAppendBlock l c hid now) m = snd (appendBlock l c hid now m)"
| "apply_op (OpReplaceBlock l oldContent newContent hid now) m =
     snd (replaceBlock l oldContent newContent hid now m)"
| "apply_op OpLoad m = snd (load m)"
| "apply_op (OpGetBlock l) m = snd (getBlock l m)"
| "apply_op OpGetBlocks m = snd (getBlocks m)"
| "apply_op (OpCompile options) m = snd (compile options m)"
| "apply_op OpClearCache m = clearCache m"

fun run :: "operation list \<Rightarrow> manager \<Rightarrow> manager" where
  "run [] m = m"
| "run (op # ops) m = run ops (apply_op op m)"

text \<open>
  \<^verbatim>\<open>randomUUID()\<close> gives an identifier that is not in use: the history identifier of an
  operation is fresh when no history row has it.
\<close>

definition fresh_history_id :: "jstring \<Rightarrow> database \<Rightarrow> bool" where
  "fresh_history_id hid d \<longleftrightarrow> hid \<notin> set (map hr_id (memory_block_history d))"

fun fresh_op :: "operation \<Rightarrow> manager \<Rightarrow> bool" where
  "fresh_op (OpCreateBlock block i hid now) m = fresh_history_id hid (db m)"
| "fresh_op (OpUpdateBlock l updates hid now) m = fresh_history_id hid (db m)"
| "fresh_op (OpAppendBlock l c hid now) m = fresh_history_id hid (db m)"
| "fresh_op (OpReplaceBlock l oldContent newContent hid now) m = fresh_history_id hid (db m)"
| "fresh_op _ m = True"

fun fresh_run :: "operation list \<Rightarrow> manager \<Rightarrow> bool" where
  "fresh_run [] m = True"
| "fresh_run (op # ops) m = (fresh_op op m \<and> fresh_run ops (apply_op op m))"

text \<open>
  The stores that the operations of the store reach from the empty one, each with the log of
  the versions that updates without a value have written: an update that supplies no value
  adds the identifier of the block it changes and the version it gives the block, an update
  that supplies a value adds nothing, and a delete drops the entries of the blocks that are
  gone.
\<close>

type_synonym skip_log = "(jstring \<times> int) list"

definition update_skips ::
  "jstring \<Rightarrow> jstring \<Rightarrow> UpdateMemoryBlock \<Rightarrow> database \<Rightarrow> skip_log" where
  "update_skips sid l u d =
     (case u_value u of
        Some v \<Rightarrow> []
      | None \<Rightarrow>
          (case db_getBlockByLabel sid l d of
             None \<Rightarrow> []
           | Some b \<Rightarrow> [(b_id b, b_version b + 1)]))"

definition live_skips :: "database \<Rightarrow> skip_log \<Rightarrow> skip_log" where
  "live_skips d S = filter (\<lambda>e. fst e \<in> set (map r_id (memory_blocks d))) S"

inductive reachable :: "database \<Rightarrow> skip_log \<Rightarrow> bool" where
  empty: "reachable empty_db []"
| create: "reachable d S \<Longrightarrow> fresh_history_id hid d \<Longrightarrow>
     reachable (snd (db_createBlock sid block i hid now d)) S"
| update: "reachable d S \<Longrightarrow> fresh_history_id hid d \<Longrightarrow>
     reachable (snd (db_updateBlock sid l u hid now d)) (update_skips sid l u d @ S)"
| delete: "reachable d S \<Longrightarrow>
     reachable (snd (db_deleteBlock sid l d)) (live_skips (snd (db_deleteBlock sid l d)) S)"
| deleteSession: "reachable d S \<Longrightarrow>
     reachable (db_deleteSessionMemory sid d) (live_skips (db_deleteSessionMemory sid d) S)"

section \<open>Invariants\<close>

text \<open>
  The constraints of the schema: the primary key of \<^verbatim>\<open>memory_blocks\<close> and its
  \<^verbatim>\<open>UNIQUE(session_id, label)\<close>. The label and the value of a row are texts as the
  store holds them.
\<close>

definition stored_row :: "block_row \<Rightarrow> bool" where
  "stored_row r \<longleftrightarrow>
     sqlite_text (r_label r) = r_label r \<and> sqlite_text (r_value r) = r_value r"

definition wf_db :: "database \<Rightarrow> bool" where
  "wf_db d \<longleftrightarrow>
     distinct (map r_id (memory_blocks d)) \<and>
     distinct (map (\<lambda>r. (r_session_id r, r_label r)) (memory_blocks d)) \<and>
     list_all stored_row (memory_blocks d)"

text \<open>
  A manager is consistent when its store satisfies the constraints and its cache, once
  loaded, holds the blocks of the session, one per label.
\<close>

definition consistent :: "manager \<Rightarrow> bool" where
  "consistent m \<longleftrightarrow>
     wf_db (db m) \<and>
     (case memoryCache m of
        None \<Rightarrow> True
      | Some cache \<Rightarrow>
          distinct (map b_label cache) \<and>
          set cache = set (db_getBlocksForSession sessionId (db m)))"

text \<open>The foreign key of \<^verbatim>\<open>memory_block_history\<close>: every history row references a block.\<close>

definition references_ok :: "database \<Rightarrow> bool" where
  "references_ok d \<longleftrightarrow>
     (\<forall>h \<in> set (memory_block_history d). hr_block_id h \<in> set (map r_id (memory_blocks d)))"

text \<open>The versions of the history rows of a block, in the order of the table.\<close>

definition versions_of :: "jstring \<Rightarrow> history_row list \<Rightarrow> int list" where
  "versions_of i hist = map hr_version (filter (\<lambda>h. hr_block_id h = i) hist)"

text \<open>
  The history of a block row, given the log \<open>S\<close> of the versions written without a value:
  the version of the block is at least 1; every history row of the block has a version
  between 1 and the version of the block; for every version in this range there is exactly
  one history row of the block, or none when the log holds the version; the log holds only
  versions of the block from 2 to its own; and a history row of greatest version holds the
  value of the block.
\<close>

definition row_history_ok :: "skip_log \<Rightarrow> history_row list \<Rightarrow> block_row \<Rightarrow> bool" where
  "row_history_ok S hist r \<longleftrightarrow>
     1 \<le> r_version r
     \<and> (\<forall>v \<in> set (versions_of (r_id r) hist). 1 \<le> v \<and> v \<le> r_version r)
     \<and> (\<forall>v. 1 \<le> v \<and> v \<le> r_version r \<longrightarrow>
          count_list (versions_of (r_id r) hist) v = (if (r_id r, v) \<in> set S then 0 else 1))
     \<and> (\<forall>v. (r_id r, v) \<in> set S \<longrightarrow> 2 \<le> v \<and> v \<le> r_version r)
     \<and> (\<exists>h \<in> set hist. hr_block_id h = r_id r \<and> hr_value h = r_value r
          \<and> (\<forall>h' \<in> set hist. hr_block_id h' = r_id r \<longrightarrow> hr_version h' \<le> hr_version h))"

definition history_inv :: "database \<Rightarrow> skip_log \<Rightarrow> bool" where
  "history_inv d S \<longleftrightarrow>
     (\<forall>r \<in> set (memory_blocks d). row_history_ok S (memory_block_history d) r)
     \<and> (\<forall>e \<in> set S. fst e \<in> set (map r_id (memory_blocks d)))"

definition store_inv :: "database \<Rightarrow> skip_log \<Rightarrow> bool" where
  "store_inv d S \<longleftrightarrow> wf_db d \<and> references_ok d \<and> history_inv d S"

section \<open>Notions of the specification\<close>

text \<open>
  The effective limit of an update: the limit it supplies, else the limit of the block.
\<close>

definition effective_limit :: "UpdateMemoryBlock \<Rightarrow> MemoryBlock \<Rightarrow> int" where
  "effective_limit u b = (case u_charLimit u of None \<Rightarrow> b_charLimit b | Some n \<Rightarrow> n)"

text \<open>
  The value after an append: the existing value, a line feed when it is not empty, and
  the content.
\<close>

definition appended :: "jstring \<Rightarrow> jstring \<Rightarrow> jstring" where
  "appended v cont = v @ (if v \<noteq> [] then lit ''\<newline>'' else []) @ cont"



text \<open>The block that an operation returns, if it returns one.\<close>

definition result_block :: "(error + MemoryBlock option) \<times> 's \<Rightarrow> MemoryBlock option" where
  "result_block r = (case fst r of Inl e \<Rightarrow> None | Inr b \<Rightarrow> b)"

section \<open>Example states\<close>

definition no_updates :: UpdateMemoryBlock where
  "no_updates =
     \<lparr>u_value = None, u_description = None, u_charLimit = None, u_readOnly = None,
      u_hidden = None, u_metadata = None\<rparr>"

text \<open>
  A store with one block, \<^verbatim>\<open>project\<close>, of value \<^verbatim>\<open>abc\<close> and limit 10, a manager on it that
  has not loaded its cache, the block as the store returns it, and the store after an
  update of the description of the block.
\<close>

definition ex_create :: CreateMemoryBlock where
  "ex_create =
     \<lparr>c_label = lit ''project'', c_value = Some (lit ''abc''), c_description = None,
      c_charLimit = Some 10, c_readOnly = None, c_hidden = None, c_metadata = None\<rparr>"

definition ex_db :: database where
  "ex_db =
     snd (db_createBlock sessionId ex_create (lit ''b1'') (lit ''h1'') (lit ''t0'') empty_db)"

definition ex_manager :: manager where
  "ex_manager = \<lparr>db = ex_db, memoryCache = None\<rparr>"

definition ex_block_stored :: MemoryBlock where
  "ex_block_stored =
     \<lparr>b_id = lit ''b1'', b_label = lit ''project'', b_value = lit ''abc'',
      b_description = Some [], b_charLimit = 10, b_readOnly = False, b_hidden = Some False,
      b_createdAt = lit ''t0'', b_updatedAt = lit ''t0'', b_version = 1, b_metadata = None\<rparr>"

definition ex_db2 :: database where
  "ex_db2 =
     snd (db_updateBlock sessionId (lit ''project'')
            (no_updates\<lparr>u_description := Some (lit ''notes'')\<rparr>) (lit ''h2'') (lit ''t1'') ex_db)"

text \<open>
  The store after three updates of the block \<^verbatim>\<open>project\<close>: of its value, of its
  description, and of its value again.
\<close>

definition ex_db3 :: database where
  "ex_db3 =
     snd (db_updateBlock sessionId (lit ''project'') (only_value (lit ''x'')) (lit ''h4'')
            (lit ''t3'')
       (snd (db_updateBlock sessionId (lit ''project'')
               (no_updates\<lparr>u_description := Some (lit ''notes'')\<rparr>) (lit ''h3'') (lit ''t2'')
          (snd (db_updateBlock sessionId (lit ''project'') (only_value (lit ''abcd''))
                  (lit ''h2'') (lit ''t1'') ex_db)))))"

text \<open>A block for the compiler, with a label, a value and a hidden flag.\<close>

definition ex_block :: "jstring \<Rightarrow> jstring \<Rightarrow> bool \<Rightarrow> MemoryBlock" where
  "ex_block l v h =
     \<lparr>b_id = l, b_label = l, b_value = v, b_description = None, b_charLimit = 100,
      b_readOnly = False, b_hidden = Some h, b_createdAt = lit ''t0'', b_updatedAt = lit ''t0'',
      b_version = 1, b_metadata = None\<rparr>"

text \<open>
  The empty block \<^verbatim>\<open>tasks\<close> of limit 4000, a manager on it, and the manager after
  \<^verbatim>\<open>buy milk\<close> has been appended.
\<close>

definition tasks_db :: database where
  "tasks_db =
     snd (db_createBlock sessionId
            \<lparr>c_label = lit ''tasks'', c_value = None, c_description = None,
             c_charLimit = Some 4000, c_readOnly = None, c_hidden = None, c_metadata = None\<rparr>
            (lit ''b1'') (lit ''h1'') (lit ''t0'') empty_db)"

definition tasks_m0 :: manager where
  "tasks_m0 = \<lparr>db = tasks_db, memoryCache = None\<rparr>"

definition tasks_m1 :: manager where
  "tasks_m1 = snd (appendBlock (lit ''tasks'') (lit ''buy milk'') (lit ''h2'') (lit ''t1'') tasks_m0)"

text \<open>The read-only block \<^verbatim>\<open>persona\<close>, a manager on it, and the block as the store returns it.\<close>

definition persona_db :: database where
  "persona_db =
     snd (db_createBlock sessionId
            \<lparr>c_label = lit ''persona'', c_value = Some (lit ''helper''), c_description = None,
             c_charLimit = Some 2000, c_readOnly = Some True, c_hidden = None,
             c_metadata = None\<rparr>
            (lit ''b1'') (lit ''h1'') (lit ''t0'') empty_db)"

definition persona_m :: manager where
  "persona_m = \<lparr>db = persona_db, memoryCache = None\<rparr>"

definition persona_stored :: MemoryBlock where
  "persona_stored =
     \<lparr>b_id = lit ''b1'', b_label = lit ''persona'', b_value = lit ''helper'',
      b_description = Some [], b_charLimit = 2000, b_readOnly = True, b_hidden = Some False,
      b_createdAt = lit ''t0'', b_updatedAt = lit ''t0'', b_version = 1, b_metadata = None\<rparr>"

section \<open>Properties of the store\<close>

text \<open>
  Facts about the text that the store holds: it has the length of the bound string, it is
  held unchanged when bound again, and a literal of characters below 256 is held as it is.
\<close>

lemma sqlite_text_length [simp]: "length (sqlite_text s) = length s"
  by (induction s rule: sqlite_text.induct) (auto simp: sqlite_text.simps)

lemma surrogate_unat:
  "is_high_surrogate c \<longleftrightarrow> 0xD800 \<le> unat c \<and> unat c \<le> 0xDBFF"
  "is_low_surrogate c \<longleftrightarrow> 0xDC00 \<le> unat c \<and> unat c \<le> 0xDFFF"
  by (simp_all add: is_high_surrogate_def is_low_surrogate_def word_le_nat_alt)

lemma surrogate_not_replacement:
  "is_high_surrogate c \<or> is_low_surrogate c \<Longrightarrow> c \<noteq> 0xFFFD"
  by (auto simp: surrogate_unat)

lemma replacement_plain [simp]:
  "\<not> is_high_surrogate 0xFFFD" "\<not> is_low_surrogate 0xFFFD"
  by (simp_all add: is_high_surrogate_def is_low_surrogate_def)

lemma high_not_low: "is_high_surrogate c \<Longrightarrow> \<not> is_low_surrogate c"
  by (auto simp: surrogate_unat)

lemma sqlite_text_idem [simp]: "sqlite_text (sqlite_text s) = sqlite_text s"
proof (induction s rule: sqlite_text.induct)
  case 1
  then show ?case by simp
next
  case (2 c)
  then show ?case by (simp add: sqlite_text.simps)
next
  case (3 c c' rest)
  show ?case
  proof (cases "is_high_surrogate c \<and> is_low_surrogate c'")
    case True
    with 3 show ?thesis by (simp add: sqlite_text.simps)
  next
    case False
    with 3 have ih: "sqlite_text (sqlite_text (c' # rest)) = sqlite_text (c' # rest)" by simp
    obtain x xs where x: "sqlite_text (c' # rest) = x # xs"
      by (cases "sqlite_text (c' # rest)") (auto dest: arg_cong[where f=length])
    have lx: "is_low_surrogate x \<Longrightarrow> is_low_surrogate c'"
      using x by (cases rest) (auto simp: sqlite_text.simps split: if_splits)
    from False ih x lx show ?thesis by (auto simp: high_not_low sqlite_text.simps)
  qed
qed

lemma sqlite_text_plain:
  "\<forall>c \<in> set s. \<not> is_high_surrogate c \<and> \<not> is_low_surrogate c \<Longrightarrow> sqlite_text s = s"
  by (induction s rule: sqlite_text.induct) (auto simp: sqlite_text.simps)

lemma of_char_plain:
  "\<not> is_high_surrogate (of_char c) \<and> \<not> is_low_surrogate (of_char c)"
proof -
  have a: "(of_char c :: nat) < 256" by simp
  then have "(of_char c :: nat) < 65536" by linarith
  then have "(of_char c :: nat) mod 65536 = of_char c" by (rule mod_less)
  then have "unat (of_nat (of_char c :: nat) :: 16 word) = of_char c"
    by (simp add: unat_of_nat)
  then have "unat (of_char c :: 16 word) = of_char c" by (simp add: of_nat_of_char)
  with a have "unat (of_char c :: 16 word) < 256" by linarith
  then show ?thesis unfolding surrogate_unat by linarith
qed

lemma sqlite_text_lit [simp]: "sqlite_text (lit s) = lit s"
  by (rule sqlite_text_plain) (auto simp: lit_def of_char_plain)

lemma sqlite_text_Cons_plain [simp]:
  "c < 0xD800 \<Longrightarrow> sqlite_text (c # s) = c # sqlite_text s"
  by (cases s) (auto simp: sqlite_text.simps surrogate_unat word_less_nat_alt)

lemma sqlite_text_append:
  "sqlite_text a = a \<Longrightarrow> sqlite_text (a @ b) = a @ sqlite_text b"
proof (induction a rule: sqlite_text.induct)
  case 1
  then show ?case by simp
next
  case (2 c)
  then show ?case
    by (cases b) (auto simp: sqlite_text.simps split: if_splits dest: surrogate_not_replacement)
next
  case (3 c c' rest)
  then show ?case
    by (auto simp: sqlite_text.simps split: if_splits dest: surrogate_not_replacement)
qed

lemma sqlite_text_Nil_iff [simp]: "sqlite_text s = [] \<longleftrightarrow> s = []"
  using sqlite_text_length[of s] by (metis length_0_conv)

lemmas db_defs = db_createBlock_def insert_block_def createHistoryEntry_def new_row_def
  db_getBlock_def db_getBlockByLabel_def db_updateBlock_def update_row_def matches_def
  row_to_block_def empty_db_def sessionId_def db_deleteBlock_def

lemma ex_db_eq:
  "ex_db = \<lparr>memory_blocks =
     [\<lparr>r_id = lit ''b1'', r_session_id = lit ''global'', r_label = lit ''project'',
       r_value = lit ''abc'', r_description = Some [], r_char_limit = 10, r_read_only = 0,
       r_hidden = 0, r_metadata = None, r_created_at = lit ''t0'', r_updated_at = lit ''t0'',
       r_version = 1\<rparr>],
     memory_block_history =
     [\<lparr>hr_id = lit ''h1'', hr_block_id = lit ''b1'', hr_label = lit ''project'',
       hr_value = lit ''abc'', hr_version = 1, hr_created_at = lit ''t0'',
       hr_created_by = lit ''agent''\<rparr>]\<rparr>"
  by (simp add: ex_db_def ex_create_def db_defs)

lemma find_map_preserved:
  assumes "\<And>x. P (f x) = P x"
  shows "find P (map f xs) = map_option f (find P xs)"
  using assms by (induction xs) auto

lemma matches_update_row [simp]:
  "matches sid l (update_row u now v r) = matches sid l r"
  by (simp add: matches_def update_row_def)

lemma createHistoryEntry_blocks:
  "createHistoryEntry i l v n t c hid d = Inr d' \<Longrightarrow> memory_blocks d' = memory_blocks d"
  by (auto simp: createHistoryEntry_def split: if_splits)

lemma getBlockByLabel_blocks_cong:
  "memory_blocks d' = memory_blocks d \<Longrightarrow>
     db_getBlockByLabel sid l d' = db_getBlockByLabel sid l d"
  by (simp add: db_getBlockByLabel_def)

lemma getBlockByLabel_after_update:
  "db_getBlockByLabel sid l
     (d\<lparr>memory_blocks :=
          map (\<lambda>r. if matches sid l r then update_row u now v r else r) (memory_blocks d)\<rparr>)
   = map_option (\<lambda>r. row_to_block (update_row u now v r))
       (find (matches sid l) (memory_blocks d))"
proof -
  let ?f = "\<lambda>r. if matches sid l r then update_row u now v r else r"
  have "find (matches sid l) (map ?f (memory_blocks d))
          = map_option ?f (find (matches sid l) (memory_blocks d))"
    by (rule find_map_preserved) simp
  moreover have "\<And>r. find (matches sid l) (memory_blocks d) = Some r \<Longrightarrow> matches sid l r"
    by (auto simp: find_Some_iff)
  ultimately show ?thesis
    by (cases "find (matches sid l) (memory_blocks d)") (auto simp: db_getBlockByLabel_def)
qed

text \<open>What a store update that does not throw returns and leaves behind.\<close>

lemma db_updateBlock_success:
  assumes "db_getBlockByLabel sid l d = Some b"
      and "db_updateBlock sid l u hid now d = (Inr res, d')"
  shows "\<exists>r. find (matches sid l) (memory_blocks d) = Some r \<and> b = row_to_block r
            \<and> res = Some (row_to_block (update_row u now (b_version b + 1) r))
            \<and> db_getBlockByLabel sid l d' = res"
proof -
  from assms(1) obtain r
    where r: "find (matches sid l) (memory_blocks d) = Some r" "b = row_to_block r"
    by (auto simp: db_getBlockByLabel_def)
  let ?d1 = "d\<lparr>memory_blocks :=
      map (\<lambda>r. if matches sid l r then update_row u now (b_version b + 1) r else r)
        (memory_blocks d)\<rparr>"
  have g1: "db_getBlockByLabel sid l ?d1
              = Some (row_to_block (update_row u now (b_version b + 1) r))"
    by (simp add: getBlockByLabel_after_update r)
  show ?thesis
  proof (cases "u_value u")
    case None
    with assms g1 r show ?thesis by (auto simp: db_updateBlock_def Let_def)
  next
    case (Some v)
    with assms obtain d2
      where d2: "createHistoryEntry (b_id b) l v (b_version b + 1) now (lit ''agent'') hid ?d1
                   = Inr d2"
        "d' = d2" "res = db_getBlockByLabel sid l d2"
      by (auto simp: db_updateBlock_def Let_def split: sum.splits)
    from createHistoryEntry_blocks[OF d2(1)]
    have "db_getBlockByLabel sid l d2 = db_getBlockByLabel sid l ?d1"
      by (rule getBlockByLabel_blocks_cong)
    with d2 g1 r show ?thesis by auto
  qed
qed

text \<open>
  C1, as the store has it: every update of an existing block that succeeds, whether it
  supplies a value or only other fields, returns and stores the block with its version
  increased by exactly 1.
\<close>

theorem db_updateBlock_version:
  assumes "db_getBlockByLabel sid l d = Some b"
      and "db_updateBlock sid l u hid now d = (Inr (Some b'), d')"
  shows "b_version b' = b_version b + 1 \<and> db_getBlockByLabel sid l d' = Some b'"
  using db_updateBlock_success[OF assms] by (auto simp: row_to_block_def update_row_def)

theorem db_updateBlock_version_witness:
  "db_getBlockByLabel sessionId (lit ''project'') ex_db = Some ex_block_stored
   \<and> db_updateBlock sessionId (lit ''project'') (only_value (lit ''abcd'')) (lit ''h2'')
         (lit ''t1'') ex_db
       = (Inr (Some (ex_block_stored\<lparr>b_value := lit ''abcd'', b_updatedAt := lit ''t1'',
                       b_version := 2\<rparr>)),
          snd (db_updateBlock sessionId (lit ''project'') (only_value (lit ''abcd''))
                 (lit ''h2'') (lit ''t1'') ex_db))
   \<and> b_version (ex_block_stored\<lparr>b_value := lit ''abcd'', b_updatedAt := lit ''t1'',
                    b_version := 2\<rparr>) = b_version ex_block_stored + 1
   \<and> db_getBlockByLabel sessionId (lit ''project'')
         (snd (db_updateBlock sessionId (lit ''project'') (only_value (lit ''abcd''))
                 (lit ''h2'') (lit ''t1'') ex_db))
       = Some (ex_block_stored\<lparr>b_value := lit ''abcd'', b_updatedAt := lit ''t1'',
                 b_version := 2\<rparr>)"
proof -
  have g: "db_getBlockByLabel sessionId (lit ''project'') ex_db = Some ex_block_stored"
    by (simp add: ex_db_eq db_defs lit_def ex_block_stored_def)
  have u: "db_updateBlock sessionId (lit ''project'') (only_value (lit ''abcd'')) (lit ''h2'')
         (lit ''t1'') ex_db
       = (Inr (Some (ex_block_stored\<lparr>b_value := lit ''abcd'', b_updatedAt := lit ''t1'',
                       b_version := 2\<rparr>)),
          snd (db_updateBlock sessionId (lit ''project'') (only_value (lit ''abcd''))
                 (lit ''h2'') (lit ''t1'') ex_db))"
    by (simp add: ex_db_eq only_value_def db_defs lit_def ex_block_stored_def)
  show ?thesis using g u db_updateBlock_version [OF g u] by simp
qed

text \<open>
  C1 as stated fails: an update of the description alone, which supplies no value, takes
  the version of the example block from 1 to 2.
\<close>

theorem metadata_only_update_counterexample:
  "u_value (no_updates\<lparr>u_description := Some (lit ''notes'')\<rparr>) = None \<and>
   map_option b_version (db_getBlockByLabel sessionId (lit ''project'') ex_db) = Some 1 \<and>
   map_option b_value (db_getBlockByLabel sessionId (lit ''project'') ex_db) = Some (lit ''abc'') \<and>
   map_option b_value (result_block (db_updateBlock sessionId (lit ''project'')
        (no_updates\<lparr>u_description := Some (lit ''notes'')\<rparr>) (lit ''h2'') (lit ''t1'') ex_db))
     = Some (lit ''abc'') \<and>
   map_option b_version (result_block (db_updateBlock sessionId (lit ''project'')
        (no_updates\<lparr>u_description := Some (lit ''notes'')\<rparr>) (lit ''h2'') (lit ''t1'') ex_db))
     = Some 2"
  by (simp add: ex_db_eq no_updates_def result_block_def db_defs lit_def)

section \<open>Properties of the compiler\<close>

lemma split_on_not_Nil [simp]: "split_on sep cur s \<noteq> []"
  by (induction s arbitrary: cur) auto

lemma join_Cons: "join sep (x # xs) = (if xs = [] then x else x @ sep @ join sep xs)"
  by (cases xs) auto

lemma join_split_on: "join [sep] (split_on sep cur s) = cur @ s"
  by (induction s arbitrary: cur) (auto simp: join_Cons)

lemma length_split_on: "length (split_on sep cur s) = count_list s sep + 1"
  by (induction s arbitrary: cur) auto

lemma split_on_no_sep:
  "sep \<notin> set cur \<Longrightarrow> \<forall>line \<in> set (split_on sep cur s). sep \<notin> set line"
proof (induction s arbitrary: cur)
  case Nil
  then show ?case by simp
next
  case (Cons c cs)
  show ?case
  proof (cases "c = sep")
    case True
    with Cons.IH[of "[]"] Cons.prems show ?thesis by simp
  next
    case False
    with Cons.IH[of "cur @ [c]"] Cons.prems show ?thesis by simp
  qed
qed

lemma join_append:
  "xs \<noteq> [] \<Longrightarrow> ys \<noteq> [] \<Longrightarrow> join sep (xs @ ys) = join sep xs @ sep @ join sep ys"
  by (induction sep xs rule: join.induct) (auto simp: join_Cons)

lemma number_lines_enumerate:
  "number_lines k ls =
     map (\<lambda>(i, line). show_nat (i + 1) @ arrow @ lit '' '' @ line) (enumerate k ls)"
  by (induction ls arbitrary: k) auto

text \<open>The loop in closed form: the lines pushed so far, then the sections of the blocks
  that are not hidden, each followed by an empty line unless its index is the last one.\<close>

lemma compile_loop_closed:
  "compile_loop u n idx blocks s =
     s @ concat (map (\<lambda>(i, b). block_lines u b @ (if int i < int n - 1 then [[]] else []))
                  (filter (\<lambda>(i, b). \<not> (b_hidden b = Some True)) (enumerate idx blocks)))"
  by (induction blocks arbitrary: idx s) auto









text \<open>
  C8, as the compiler has it: for a value that is not empty, line-numbered rendering pushes
  one line per piece of the value split at the line feeds, each piece behind its 1-based
  number, the arrow and one space; the pieces joined by line feeds are the value, there is
  one more piece than line feeds, and no piece holds a line feed. For the empty value it
  pushes no line. Without line numbers the value is pushed as it is, and stands in the
  joined text between the line feeds after the opening tag and before the closing tag.
  A list of one block that is not hidden compiles to its section between the opening and
  closing lines.
\<close>

theorem line_numbered_rendering:
  "(b_value block \<noteq> [] \<longrightarrow>
      block_lines True block =
        block_header True block
        @ map (\<lambda>(i, line). show_nat (i + 1) @ arrow @ lit '' '' @ line)
            (enumerate 0 (split_lines (b_value block)))
        @ [lit ''</value>'', lit ''</'' @ b_label block @ lit ''>''])
   \<and> (b_value block = [] \<longrightarrow>
      block_lines True block =
        block_header True block @ [lit ''</value>'', lit ''</'' @ b_label block @ lit ''>''])
   \<and> join (lit ''\<newline>'') (split_lines (b_value block)) = b_value block
   \<and> length (split_lines (b_value block)) = count_list (b_value block) 10 + 1
   \<and> (\<forall>line \<in> set (split_lines (b_value block)). 10 \<notin> set line)
   \<and> block_lines False block =
        block_header False block @ [b_value block]
        @ [lit ''</value>'', lit ''</'' @ b_label block @ lit ''>'']
   \<and> join (lit ''\<newline>'') (block_lines False block) =
        join (lit ''\<newline>'') (block_header False block) @ lit ''\<newline>'' @ b_value block
        @ lit ''\<newline>''
        @ join (lit ''\<newline>'') [lit ''</value>'', lit ''</'' @ b_label block @ lit ''>'']
   \<and> (\<not> (b_hidden block = Some True) \<longrightarrow>
        compileMemory [block] options =
          join (lit ''\<newline>'')
            ([lit ''<memory_blocks>'',
              lit ''The following memory blocks are currently engaged in your core memory unit:\<newline>'']
             @ block_lines (shouldUseLineNumbers options) block @ [lit ''</memory_blocks>'']))"
proof -
  have nl: "lit ''\<newline>'' = [10]" by (simp add: lit_def)
  have h: "block_header False block \<noteq> []" by (simp add: block_header_def)
  have "join (lit ''\<newline>'')
          (block_header False block
             @ ([b_value block] @ [lit ''</value>'', lit ''</'' @ b_label block @ lit ''>'']))
      = join (lit ''\<newline>'') (block_header False block) @ lit ''\<newline>'' @
        join (lit ''\<newline>'')
          ([b_value block] @ [lit ''</value>'', lit ''</'' @ b_label block @ lit ''>''])"
    using h by (intro join_append) simp_all
  then have j: "join (lit ''\<newline>'') (block_lines False block) =
        join (lit ''\<newline>'') (block_header False block) @ lit ''\<newline>'' @ b_value block
        @ lit ''\<newline>''
        @ join (lit ''\<newline>'') [lit ''</value>'', lit ''</'' @ b_label block @ lit ''>'']"
    by (simp add: block_lines_def)
  have s: "\<forall>line \<in> set (split_lines (b_value block)). 10 \<notin> set line"
    unfolding split_lines_def by (rule split_on_no_sep) simp
  have c: "\<not> (b_hidden block = Some True) \<longrightarrow>
        compileMemory [block] options =
          join (lit ''\<newline>'')
            ([lit ''<memory_blocks>'',
              lit ''The following memory blocks are currently engaged in your core memory unit:\<newline>'']
             @ block_lines (shouldUseLineNumbers options) block @ [lit ''</memory_blocks>''])"
    by (simp add: compileMemory_def compile_lines_def)
  show ?thesis
    using j s c
    by (simp add: block_lines_def renderWithLineNumbers_def number_lines_enumerate
          split_lines_def nl join_split_on length_split_on)
qed

theorem line_numbered_rendering_witness:
  "b_value (ex_block (lit ''a'') (lit ''x\<newline>\<newline>z'') False) \<noteq> []
   \<and> block_lines True (ex_block (lit ''a'') (lit ''x\<newline>\<newline>z'') False) =
     block_header True (ex_block (lit ''a'') (lit ''x\<newline>\<newline>z'') False)
     @ [lit ''1'' @ arrow @ lit '' x'', lit ''2'' @ arrow @ lit '' '', lit ''3'' @ arrow @ lit '' z'']
     @ [lit ''</value>'', lit ''</a>'']
   \<and> block_lines False (ex_block (lit ''a'') (lit ''x\<newline>\<newline>z'') False) =
     block_header False (ex_block (lit ''a'') (lit ''x\<newline>\<newline>z'') False)
     @ [lit ''x\<newline>\<newline>z''] @ [lit ''</value>'', lit ''</a>'']"
proof -
  have v: "b_value (ex_block (lit ''a'') (lit ''x\<newline>\<newline>z'') False) \<noteq> []"
    by (simp add: ex_block_def lit_def)
  show ?thesis
    using v line_numbered_rendering [of "ex_block (lit ''a'') (lit ''x\<newline>\<newline>z'') False"]
    by (simp add: ex_block_def split_lines_def enumerate_eq_zip show_nat.simps lit_def
          arrow_def upt_rec)
qed

text \<open>
  C8 as stated fails at the empty value: split at the line feeds it is one empty line, which
  numbered is the one line of the number 1, the arrow and a space, but the compiler pushes
  no line between the opening and the closing tag.
\<close>

theorem empty_value_counterexample:
  "split_lines [] = [[]]
   \<and> number_lines 0 (split_lines []) = [lit ''1'' @ arrow @ lit '' '']
   \<and> renderWithLineNumbers [] = []
   \<and> block_lines True (ex_block (lit ''a'') [] False) =
       block_header True (ex_block (lit ''a'') [] False) @ [lit ''</value>'', lit ''</a>'']"
  by (simp add: split_lines_def renderWithLineNumbers_def block_lines_def ex_block_def
        show_nat.simps lit_def)

section \<open>Properties of the manager\<close>

lemma find_SomeD: "find P xs = Some x \<Longrightarrow> x \<in> set xs \<and> P x"
  by (induction xs) (auto split: if_splits)

lemma wf_db_match_unique:
  assumes "wf_db d" "r \<in> set (memory_blocks d)" "r' \<in> set (memory_blocks d)"
      and "matches sid l r" "matches sid l r'"
  shows "r = r'"
proof -
  from assms(1) have "inj_on (\<lambda>r. (r_session_id r, r_label r)) (set (memory_blocks d))"
    by (simp add: wf_db_def distinct_map)
  with assms(2-5) show ?thesis by (auto simp: inj_on_def matches_def)
qed

lemma find_matches_iff:
  assumes "wf_db d"
  shows "find (matches sid l) (memory_blocks d) = Some r
           \<longleftrightarrow> r \<in> set (memory_blocks d) \<and> matches sid l r"
proof
  assume "find (matches sid l) (memory_blocks d) = Some r"
  then show "r \<in> set (memory_blocks d) \<and> matches sid l r" by (rule find_SomeD)
next
  assume r: "r \<in> set (memory_blocks d) \<and> matches sid l r"
  then obtain r' where r': "find (matches sid l) (memory_blocks d) = Some r'"
    by (cases "find (matches sid l) (memory_blocks d)") (auto simp: find_None_iff)
  from find_SomeD[OF r'] r assms have "r' = r" by (auto intro: wf_db_match_unique)
  with r' show "find (matches sid l) (memory_blocks d) = Some r" by simp
qed

lemma set_getBlocksForSession:
  "set (db_getBlocksForSession sid d)
     = row_to_block ` {r \<in> set (memory_blocks d). r_session_id r = sqlite_text sid}"
  by (auto simp: db_getBlocksForSession_def)

lemma sessionId_stored [simp]: "sqlite_text sessionId = sessionId"
  by (simp add: sessionId_def)

lemma wf_db_stored:
  "wf_db d \<Longrightarrow> r \<in> set (memory_blocks d) \<Longrightarrow>
     sqlite_text (r_label r) = r_label r \<and> sqlite_text (r_value r) = r_value r"
  by (auto simp: wf_db_def list_all_iff stored_row_def)

text \<open>The block that the store returns for a label carries the label as the store holds it.\<close>

lemma getBlockByLabel_label:
  "db_getBlockByLabel sid l d = Some b \<Longrightarrow> b_label b = sqlite_text l"
  by (auto simp: db_getBlockByLabel_def matches_def row_to_block_def dest!: find_SomeD)

lemma b_label_row_to_block [simp]: "b_label (row_to_block r) = r_label r"
  by (simp add: row_to_block_def)

lemma b_id_row_to_block [simp]: "b_id (row_to_block r) = r_id r"
  by (simp add: row_to_block_def)

lemma cache_lookup:
  assumes "consistent m" "memoryCache m = Some c"
  shows "find (\<lambda>b. b_label b = l) c =
           (if sqlite_text l = l then db_getBlockByLabel sessionId l (db m) else None)"
proof -
  from assms have wf: "wf_db (db m)"
    and sc: "set c = row_to_block ` {r \<in> set (memory_blocks (db m)). r_session_id r = sessionId}"
    by (auto simp: consistent_def set_getBlocksForSession)
  show ?thesis
  proof (cases "find (\<lambda>b. b_label b = l) c")
    case None
    then have "\<forall>b \<in> set c. b_label b \<noteq> l" by (simp add: find_None_iff)
    with sc have "sqlite_text l = l \<longrightarrow> (\<forall>r \<in> set (memory_blocks (db m)). \<not> matches sessionId l r)"
      by (auto simp: matches_def)
    then have "sqlite_text l = l \<longrightarrow> find (matches sessionId l) (memory_blocks (db m)) = None"
      by (simp add: find_None_iff)
    with None show ?thesis by (simp add: db_getBlockByLabel_def)
  next
    case (Some b)
    from find_SomeD[OF Some] sc obtain r
      where r: "r \<in> set (memory_blocks (db m))" "r_session_id r = sessionId"
        "b = row_to_block r" "b_label b = l"
      by auto
    from wf_db_stored[OF wf r(1)] r(3,4) have st: "sqlite_text l = l" by simp
    with r have "matches sessionId l r" by (simp add: matches_def)
    with r wf have "find (matches sessionId l) (memory_blocks (db m)) = Some r"
      by (simp add: find_matches_iff)
    with Some r st show ?thesis by (simp add: db_getBlockByLabel_def)
  qed
qed

lemma distinct_session_labels:
  assumes "wf_db d"
  shows "distinct (map b_label (db_getBlocksForSession sid d))"
proof -
  let ?ys = "filter (\<lambda>r. r_session_id r = sqlite_text sid) (memory_blocks d)"
  let ?key = "\<lambda>r. code_points (r_label r)"
  from assms have d: "distinct (memory_blocks d)"
    and i: "inj_on (\<lambda>r. (r_session_id r, r_label r)) (set (memory_blocks d))"
    by (simp_all add: wf_db_def distinct_map)
  from i have "inj_on r_label (set ?ys)" by (auto simp: inj_on_def)
  with d have "distinct (map r_label (sort_key ?key ?ys))" by (simp add: distinct_map)
  moreover have "map b_label (db_getBlocksForSession sid d) = map r_label (sort_key ?key ?ys)"
    by (simp add: db_getBlocksForSession_def comp_def)
  ultimately show ?thesis by simp
qed

lemma load_consistent:
  assumes "wf_db (db m)"
  shows "consistent (snd (load m))" "db (snd (load m)) = db m"
    "memoryCache (snd (load m)) = Some (db_getBlocksForSession sessionId (db m))"
  using assms by (simp_all add: load_def consistent_def Let_def distinct_session_labels)

lemma getBlock_loaded:
  "memoryCache m = Some c \<Longrightarrow> getBlock l m = (find (\<lambda>b. b_label b = l) c, m)"
  by (simp add: getBlock_def)

lemma getBlock_consistent:
  assumes "consistent m"
  shows "\<exists>m1 c. getBlock l m =
             (if sqlite_text l = l then db_getBlockByLabel sessionId l (db m) else None, m1)
           \<and> db m1 = db m
           \<and> consistent m1 \<and> memoryCache m1 = Some c \<and> (memoryCache m \<noteq> None \<longrightarrow> m1 = m)"
proof (cases "memoryCache m")
  case None
  from assms have wf: "wf_db (db m)" by (simp add: consistent_def)
  note l = load_consistent[OF wf]
  from cache_lookup[OF l(1) l(3)] l None show ?thesis
    by (simp add: getBlock_def Let_def)
next
  case (Some c)
  with cache_lookup[OF assms Some] assms show ?thesis
    by (simp add: getBlock_def)
qed

text \<open>
  The manager finds a block of the store under its label: the block that the store returns
  for a label that is the label of the block.
\<close>

lemma getBlock_found:
  assumes "consistent m" "db_getBlockByLabel sessionId l (db m) = Some b \<and> b_label b = l"
  shows "\<exists>m1 c. getBlock l m = (Some b, m1) \<and> db m1 = db m
           \<and> consistent m1 \<and> memoryCache m1 = Some c \<and> (memoryCache m \<noteq> None \<longrightarrow> m1 = m)"
proof -
  from assms(2) getBlockByLabel_label[of sessionId l "db m" b] have "sqlite_text l = l" by simp
  with getBlock_consistent[OF assms(1), of l] assms(2) show ?thesis by simp
qed

lemma db_cacheUpdate [simp]: "db (cacheUpdate b m) = db m"
  by (simp add: cacheUpdate_def split: option.splits)

lemma validate_length_exceeds:
  assumes "u_value u = Some v"
      and "int (length v) > (case u_charLimit u of None \<Rightarrow> b_charLimit b | Some n \<Rightarrow> n)"
  shows "validate_length l u b =
           Some (CharLimitExceeded (length v)
                   (case u_charLimit u of None \<Rightarrow> b_charLimit b | Some n \<Rightarrow> n) l)"
  using assms by (auto simp: validate_length_def split: option.splits)

lemma validate_length_no_value: "u_value u = None \<Longrightarrow> validate_length l u b = None"
  by (simp add: validate_length_def)

lemma validate_length_only_value:
  "validate_length l (only_value v) b =
     (if int (length v) > b_charLimit b
      then Some (CharLimitExceeded (length v) (b_charLimit b) l) else None)"
  by (simp add: validate_length_def only_value_def)

lemma updateBlock_readOnly:
  assumes "consistent m" "db_getBlockByLabel sessionId l (db m) = Some b \<and> b_label b = l" "b_readOnly b"
  shows "fst (updateBlock l u hid now m) = Inl (ReadOnlyModified l)
         \<and> db (snd (updateBlock l u hid now m)) = db m
         \<and> consistent (snd (updateBlock l u hid now m))"
  using getBlock_found[OF assms(1,2)] assms(2,3)
  by (auto simp: updateBlock_def)

lemma updateBlock_invalid:
  assumes "consistent m" "db_getBlockByLabel sessionId l (db m) = Some b \<and> b_label b = l" "\<not> b_readOnly b"
      and "validate_length l u b = Some e"
  shows "fst (updateBlock l u hid now m) = Inl e
         \<and> db (snd (updateBlock l u hid now m)) = db m
         \<and> consistent (snd (updateBlock l u hid now m))"
  using getBlock_found[OF assms(1,2)] assms(2-)
  by (auto simp: updateBlock_def)

lemma updateBlock_valid:
  assumes "consistent m" "db_getBlockByLabel sessionId l (db m) = Some b \<and> b_label b = l" "\<not> b_readOnly b"
      and "validate_length l u b = None"
  shows "fst (updateBlock l u hid now m) = fst (db_updateBlock sessionId l u hid now (db m))
         \<and> db (snd (updateBlock l u hid now m)) = snd (db_updateBlock sessionId l u hid now (db m))"
  using getBlock_found[OF assms(1,2)] assms(2-)
  by (auto simp: updateBlock_def split: prod.splits sum.splits option.splits)

lemma deleteBlock_readOnly:
  assumes "consistent m" "db_getBlockByLabel sessionId l (db m) = Some b \<and> b_label b = l" "b_readOnly b"
  shows "fst (deleteBlock l m) = Inl (ReadOnlyDeleted l)
         \<and> db (snd (deleteBlock l m)) = db m
         \<and> consistent (snd (deleteBlock l m))"
  using getBlock_found[OF assms(1,2)] assms(2,3)
  by (auto simp: deleteBlock_def)

lemma appendBlock_unfold:
  assumes "consistent m" "db_getBlockByLabel sessionId l (db m) = Some b \<and> b_label b = l"
  shows "\<exists>m1. consistent m1 \<and> db m1 = db m \<and>
           appendBlock l cont hid now m =
             (if b_readOnly b then (Inl (ReadOnlyModified l), m1)
              else updateBlock l
                     (only_value (b_value b @ (if b_value b \<noteq> [] then lit ''\<newline>'' else [])
                        @ cont)) hid now m1)"
  using getBlock_found[OF assms(1,2)] assms(2)
  by (auto simp: appendBlock_def Let_def)

lemma replaceBlock_unfold:
  assumes "consistent m" "db_getBlockByLabel sessionId l (db m) = Some b \<and> b_label b = l"
  shows "\<exists>m1. consistent m1 \<and> db m1 = db m \<and>
           replaceBlock l old new hid now m =
             (if b_readOnly b then (Inl (ReadOnlyModified l), m1)
              else if old \<noteq> [] \<and> \<not> includes_str (b_value b) old
              then (Inl (ContentNotFound l), m1)
              else updateBlock l
                     (only_value (if old \<noteq> [] then replace_first (b_value b) old new else new))
                     hid now m1)"
  using getBlock_found[OF assms(1,2)] assms(2)
  by (auto simp: replaceBlock_def Let_def)

lemma r_id_update_comp:
  "r_id \<circ> (\<lambda>r. if matches sid l r then update_row u now v r else r) = r_id"
  by (auto simp: fun_eq_iff update_row_def)

lemma map_r_id_update:
  "map r_id (map (\<lambda>r. if matches sid l r then update_row u now v r else r) rows) = map r_id rows"
  by (simp add: r_id_update_comp)

lemma row_to_block_update_row:
  "row_to_block (update_row u now v r) =
     (row_to_block r)\<lparr>
        b_value := (case u_value u of None \<Rightarrow> r_value r | Some x \<Rightarrow> sqlite_text x),
        b_description :=
          (case u_description u of None \<Rightarrow> r_description r | Some x \<Rightarrow> Some (sqlite_text x)),
        b_charLimit := (case u_charLimit u of None \<Rightarrow> r_char_limit r | Some n \<Rightarrow> n),
        b_readOnly := (case u_readOnly u of None \<Rightarrow> r_read_only r = 1 | Some f \<Rightarrow> f),
        b_hidden := Some (case u_hidden u of None \<Rightarrow> r_hidden r = 1 | Some f \<Rightarrow> f),
        b_metadata :=
          (case (case u_metadata u of None \<Rightarrow> r_metadata r | Some j \<Rightarrow> Some (sqlite_text j)) of
             None \<Rightarrow> None | Some j \<Rightarrow> if j = [] then None else Some j),
        b_updatedAt := now, b_version := v\<rparr>"
  by (auto simp: row_to_block_def update_row_def split: option.splits)

text \<open>With a fresh history identifier, or without a value, the store update succeeds.\<close>

lemma db_updateBlock_fresh:
  assumes "db_getBlockByLabel sid l d = Some b"
      and "u_value u = None \<or> fresh_history_id hid d"
  shows "\<exists>r d'. find (matches sid l) (memory_blocks d) = Some r \<and> b = row_to_block r \<and>
           db_updateBlock sid l u hid now d =
             (Inr (Some (row_to_block (update_row u now (b_version b + 1) r))), d') \<and>
           memory_blocks d' =
             map (\<lambda>r. if matches sid l r then update_row u now (b_version b + 1) r else r)
               (memory_blocks d) \<and>
           memory_block_history d' = memory_block_history d @
             (case u_value u of None \<Rightarrow> []
              | Some v \<Rightarrow> [\<lparr>hr_id = hid, hr_block_id = b_id b, hr_label = sqlite_text l,
                  hr_value = sqlite_text v, hr_version = b_version b + 1,
                  hr_created_at = now, hr_created_by = lit ''agent''\<rparr>])"
proof -
  define nv where "nv = b_version b + 1"
  from assms(1) obtain r
    where r: "find (matches sid l) (memory_blocks d) = Some r" "b = row_to_block r"
    by (auto simp: db_getBlockByLabel_def)
  let ?f = "\<lambda>r. if matches sid l r then update_row u now nv r else r"
  let ?d1 = "d\<lparr>memory_blocks := map ?f (memory_blocks d)\<rparr>"
  let ?h = "\<lambda>v. \<lparr>hr_id = hid, hr_block_id = b_id b, hr_label = sqlite_text l,
               hr_value = sqlite_text v,
               hr_version = nv, hr_created_at = now, hr_created_by = lit ''agent''\<rparr>"
  have g1: "db_getBlockByLabel sid l ?d1 = Some (row_to_block (update_row u now nv r))"
    by (simp add: getBlockByLabel_after_update r(1))
  from find_SomeD[OF r(1)] have "r_id r \<in> set (map r_id (memory_blocks ?d1))"
    by (simp add: r_id_update_comp)
  with r(2) have idin: "b_id b \<in> set (map r_id (memory_blocks ?d1))" by simp
  have "\<exists>d'. db_updateBlock sid l u hid now d =
             (Inr (Some (row_to_block (update_row u now nv r))), d') \<and>
           memory_blocks d' = map ?f (memory_blocks d) \<and>
           memory_block_history d' = memory_block_history d @
             (case u_value u of None \<Rightarrow> [] | Some v \<Rightarrow> [?h v])"
  proof (cases "u_value u")
    case None
    with assms(1) g1 show ?thesis
      by (simp add: db_updateBlock_def Let_def nv_def[symmetric])
  next
    case (Some v)
    with assms(2) have fr: "hid \<notin> set (map hr_id (memory_block_history ?d1))"
      by (simp add: fresh_history_id_def)
    let ?d2 = "?d1\<lparr>memory_block_history := memory_block_history ?d1 @ [?h v]\<rparr>"
    from fr idin have c: "createHistoryEntry (b_id b) l v nv now (lit ''agent'') hid ?d1 = Inr ?d2"
      unfolding createHistoryEntry_def by (simp only: if_False if_True simp_thms)
    have "db_getBlockByLabel sid l ?d2 = db_getBlockByLabel sid l ?d1"
      by (rule getBlockByLabel_blocks_cong) simp
    with g1 c Some assms(1) show ?thesis
      by (simp add: db_updateBlock_def Let_def nv_def[symmetric])
  qed
  with r show ?thesis unfolding nv_def by blast
qed

text \<open>
  C3, as the manager has it: for a block of the store, an update that supplies a value
  longer than the effective limit (the limit supplied with it, else the limit of the block)
  fails and leaves the store as it was, so the value, version and \<^verbatim>\<open>updatedAt\<close> of the block
  are unchanged; \<^verbatim>\<open>appendBlock\<close> and \<^verbatim>\<open>replaceBlock\<close> fail likewise when the value they
  compute is longer than the limit of the block. The failure is the char-limit error, or
  the read-only error for a read-only block, which is tested first. The operations are
  called with the label of the block: the store returns the block for every label that it
  holds as this label, and the manager finds it under the label itself.
\<close>

theorem char_limit_rejection:
  assumes "consistent m" and "db_getBlockByLabel sessionId l (db m) = Some b"
      and "b_label b = l"
  shows "(\<forall>v. u_value u = Some v \<longrightarrow> int (length v) > effective_limit u b \<longrightarrow>
            fst (updateBlock l u hid now m) =
              Inl (if b_readOnly b then ReadOnlyModified l
                   else CharLimitExceeded (length v) (effective_limit u b) l)
            \<and> db (snd (updateBlock l u hid now m)) = db m)
       \<and> (int (length (appended (b_value b) cont)) > b_charLimit b \<longrightarrow>
            fst (appendBlock l cont hid now m) =
              Inl (if b_readOnly b then ReadOnlyModified l
                   else CharLimitExceeded (length (appended (b_value b) cont)) (b_charLimit b) l)
            \<and> db (snd (appendBlock l cont hid now m)) = db m)
       \<and> (old \<noteq> [] \<longrightarrow> includes_str (b_value b) old \<longrightarrow>
            int (length (replace_first (b_value b) old new)) > b_charLimit b \<longrightarrow>
            fst (replaceBlock l old new hid now m) =
              Inl (if b_readOnly b then ReadOnlyModified l
                   else CharLimitExceeded (length (replace_first (b_value b) old new))
                          (b_charLimit b) l)
            \<and> db (snd (replaceBlock l old new hid now m)) = db m)
       \<and> (int (length new) > b_charLimit b \<longrightarrow>
            fst (replaceBlock l [] new hid now m) =
              Inl (if b_readOnly b then ReadOnlyModified l
                   else CharLimitExceeded (length new) (b_charLimit b) l)
            \<and> db (snd (replaceBlock l [] new hid now m)) = db m)"
proof (intro conjI allI impI)
  note lb = conjI[OF assms(2,3)]
  fix v assume v: "u_value u = Some v" "int (length v) > effective_limit u b"
  show "fst (updateBlock l u hid now m) =
              Inl (if b_readOnly b then ReadOnlyModified l
                   else CharLimitExceeded (length v) (effective_limit u b) l)"
    and "db (snd (updateBlock l u hid now m)) = db m"
    using updateBlock_readOnly[OF assms(1) lb, where u=u and hid=hid and now=now]
      updateBlock_invalid[OF assms(1) lb, where u=u and hid=hid and now=now]
      validate_length_exceeds[OF v(1), of b l] v(2)
    by (auto simp: effective_limit_def)
next
  note lb = conjI[OF assms(2,3)]
  assume a: "int (length (appended (b_value b) cont)) > b_charLimit b"
  from appendBlock_unfold[OF assms(1) lb, of cont hid now] obtain m1
    where m1: "consistent m1" "db m1 = db m"
      "appendBlock l cont hid now m =
             (if b_readOnly b then (Inl (ReadOnlyModified l), m1)
              else updateBlock l (only_value (appended (b_value b) cont)) hid now m1)"
    by (auto simp: appended_def)
  from m1 assms have l1: "db_getBlockByLabel sessionId l (db m1) = Some b \<and> b_label b = l"
    by simp
  show "fst (appendBlock l cont hid now m) =
              Inl (if b_readOnly b then ReadOnlyModified l
                   else CharLimitExceeded (length (appended (b_value b) cont)) (b_charLimit b) l)"
    and "db (snd (appendBlock l cont hid now m)) = db m"
    using m1 a updateBlock_invalid[OF m1(1) l1, where u="only_value (appended (b_value b) cont)" and hid=hid and now=now]
    by (auto simp: validate_length_only_value)
next
  note lb = conjI[OF assms(2,3)]
  assume a: "old \<noteq> []" "includes_str (b_value b) old"
    "int (length (replace_first (b_value b) old new)) > b_charLimit b"
  from replaceBlock_unfold[OF assms(1) lb, of old new hid now] a obtain m1
    where m1: "consistent m1" "db m1 = db m"
      "replaceBlock l old new hid now m =
             (if b_readOnly b then (Inl (ReadOnlyModified l), m1)
              else updateBlock l (only_value (replace_first (b_value b) old new)) hid now m1)"
    by auto
  from m1 assms have l1: "db_getBlockByLabel sessionId l (db m1) = Some b \<and> b_label b = l"
    by simp
  show "fst (replaceBlock l old new hid now m) =
              Inl (if b_readOnly b then ReadOnlyModified l
                   else CharLimitExceeded (length (replace_first (b_value b) old new))
                          (b_charLimit b) l)"
    and "db (snd (replaceBlock l old new hid now m)) = db m"
    using m1 a updateBlock_invalid[OF m1(1) l1, where u="only_value (replace_first (b_value b) old new)" and hid=hid and now=now]
    by (auto simp: validate_length_only_value)
next
  note lb = conjI[OF assms(2,3)]
  assume a: "int (length new) > b_charLimit b"
  from replaceBlock_unfold[OF assms(1) lb, of "[]" new hid now] obtain m1
    where m1: "consistent m1" "db m1 = db m"
      "replaceBlock l [] new hid now m =
             (if b_readOnly b then (Inl (ReadOnlyModified l), m1)
              else updateBlock l (only_value new) hid now m1)"
    by auto
  from m1 assms have l1: "db_getBlockByLabel sessionId l (db m1) = Some b \<and> b_label b = l"
    by simp
  show "fst (replaceBlock l [] new hid now m) =
              Inl (if b_readOnly b then ReadOnlyModified l
                   else CharLimitExceeded (length new) (b_charLimit b) l)"
    and "db (snd (replaceBlock l [] new hid now m)) = db m"
    using m1 a updateBlock_invalid[OF m1(1) l1, where u="only_value new" and hid=hid and now=now]
    by (auto simp: validate_length_only_value)
qed

lemma updateBlock_succeeds:
  assumes "consistent m" "db_getBlockByLabel sessionId l (db m) = Some b \<and> b_label b = l"
      and "\<not> b_readOnly b"
      and "validate_length l u b = None"
      and "u_value u = None \<or> fresh_history_id hid (db m)"
  shows "\<exists>r. find (matches sessionId l) (memory_blocks (db m)) = Some r \<and> b = row_to_block r \<and>
           fst (updateBlock l u hid now m) =
             Inr (Some (row_to_block (update_row u now (b_version b + 1) r))) \<and>
           db_getBlockByLabel sessionId l (db (snd (updateBlock l u hid now m))) =
             Some (row_to_block (update_row u now (b_version b + 1) r))"
proof -
  from assms(2) have lk: "db_getBlockByLabel sessionId l (db m) = Some b" by simp
  from db_updateBlock_fresh[OF lk assms(5), of now] obtain r d'
    where r: "find (matches sessionId l) (memory_blocks (db m)) = Some r" "b = row_to_block r"
      "db_updateBlock sessionId l u hid now (db m) =
             (Inr (Some (row_to_block (update_row u now (b_version b + 1) r))), d')"
    by blast
  from db_updateBlock_success[OF lk r(3)]
  have "db_getBlockByLabel sessionId l d' = Some (row_to_block (update_row u now (b_version b + 1) r))"
    by auto
  with updateBlock_valid[OF assms(1-4), of hid now] r show ?thesis by auto
qed

lemma row_to_block_only_value:
  "row_to_block (update_row (only_value v) now n r)
     = (row_to_block r)\<lparr>b_value := sqlite_text v, b_updatedAt := now, b_version := n\<rparr>"
  by (simp add: row_to_block_def update_row_def only_value_def)

lemma getBlockByLabel_stored:
  assumes "wf_db d" "db_getBlockByLabel sid l d = Some b"
  shows "sqlite_text (b_value b) = b_value b" "sqlite_text (b_label b) = b_label b"
proof -
  from assms(2) obtain r where r: "find (matches sid l) (memory_blocks d) = Some r"
      "b = row_to_block r"
    by (auto simp: db_getBlockByLabel_def)
  from find_SomeD[OF r(1)] have "r \<in> set (memory_blocks d)" by simp
  from wf_db_stored[OF assms(1) this] r(2)
  show "sqlite_text (b_value b) = b_value b" "sqlite_text (b_label b) = b_label b"
    by (simp_all add: row_to_block_def)
qed

lemma sqlite_text_appended:
  assumes "sqlite_text v = v"
  shows "sqlite_text (appended v cont) = appended v (sqlite_text cont)"
proof -
  have "sqlite_text (lit ''\<newline>'' @ cont) = lit ''\<newline>'' @ sqlite_text cont"
    by (rule sqlite_text_append) simp
  with sqlite_text_append[OF assms] show ?thesis
    by (simp add: appended_def)
qed

text \<open>
  C5: for a block of the store that is not read-only, \<^verbatim>\<open>appendBlock\<close> computes the existing
  value, a line feed when that value is not empty, and the content. When the result is within
  the limit of the block, the block is returned and stored with this value as the store holds
  it, which is the existing value, the line feed when that value is not empty, and the
  content with every surrogate code unit outside a pair replaced by \<open>FFFD\<close> (and the new
  \<^verbatim>\<open>updatedAt\<close> and version); otherwise the call fails with the char-limit error and the
  store is unchanged. The history identifier is taken to be fresh, as \<^verbatim>\<open>randomUUID()\<close>
  gives it, and the label is that of the block.
\<close>

theorem appendBlock_value:
  assumes "consistent m" and "db_getBlockByLabel sessionId l (db m) = Some b"
      and "b_label b = l" and "\<not> b_readOnly b" and "fresh_history_id hid (db m)"
  shows "if int (length (appended (b_value b) cont)) \<le> b_charLimit b
         then fst (appendBlock l cont hid now m) =
                Inr (Some (b\<lparr>b_value := appended (b_value b) (sqlite_text cont),
                            b_updatedAt := now, b_version := b_version b + 1\<rparr>))
              \<and> db_getBlockByLabel sessionId l (db (snd (appendBlock l cont hid now m))) =
                  Some (b\<lparr>b_value := appended (b_value b) (sqlite_text cont),
                            b_updatedAt := now, b_version := b_version b + 1\<rparr>)
         else fst (appendBlock l cont hid now m) =
                Inl (CharLimitExceeded (length (appended (b_value b) cont)) (b_charLimit b) l)
              \<and> db (snd (appendBlock l cont hid now m)) = db m"
proof -
  note lb = conjI[OF assms(2,3)]
  from assms(1) have "wf_db (db m)" by (simp add: consistent_def)
  from getBlockByLabel_stored(1)[OF this assms(2)]
  have st: "sqlite_text (appended (b_value b) cont) = appended (b_value b) (sqlite_text cont)"
    by (rule sqlite_text_appended)
  from appendBlock_unfold[OF assms(1) lb, of cont hid now] assms(4) obtain m1
    where m1: "consistent m1" "db m1 = db m"
      "appendBlock l cont hid now m =
         updateBlock l (only_value (appended (b_value b) cont)) hid now m1"
    by (auto simp: appended_def)
  from m1 assms have l1: "db_getBlockByLabel sessionId l (db m1) = Some b \<and> b_label b = l"
    and f1: "fresh_history_id hid (db m1)" by simp_all
  show ?thesis
  proof (cases "int (length (appended (b_value b) cont)) \<le> b_charLimit b")
    case True
    then have "validate_length l (only_value (appended (b_value b) cont)) b = None"
      by (simp add: validate_length_only_value)
    from updateBlock_succeeds[OF m1(1) l1 assms(4) this, of hid now] f1 True m1(3) st
    show ?thesis by (auto simp: row_to_block_only_value)
  next
    case False
    then have "validate_length l (only_value (appended (b_value b) cont)) b =
        Some (CharLimitExceeded (length (appended (b_value b) cont)) (b_charLimit b) l)"
      by (simp add: validate_length_only_value)
    from updateBlock_invalid[OF m1(1) l1 assms(4) this, of hid now] False m1
    show ?thesis by simp
  qed
qed

lemmas mgr_defs = appendBlock_def updateBlock_def getBlock_def load_def
  db_getBlocksForSession_def cacheUpdate_def validate_length_def only_value_def
  replaceBlock_def deleteBlock_def

lemma tasks_db_eq:
  "tasks_db = \<lparr>memory_blocks =
     [\<lparr>r_id = lit ''b1'', r_session_id = lit ''global'', r_label = lit ''tasks'',
       r_value = [], r_description = Some [], r_char_limit = 4000, r_read_only = 0,
       r_hidden = 0, r_metadata = None, r_created_at = lit ''t0'', r_updated_at = lit ''t0'',
       r_version = 1\<rparr>],
     memory_block_history =
     [\<lparr>hr_id = lit ''h1'', hr_block_id = lit ''b1'', hr_label = lit ''tasks'',
       hr_value = [], hr_version = 1, hr_created_at = lit ''t0'',
       hr_created_by = lit ''agent''\<rparr>]\<rparr>"
  by (simp add: tasks_db_def db_defs)

lemma tasks_m1_eq:
  "tasks_m1 = \<lparr>db = \<lparr>memory_blocks =
     [\<lparr>r_id = lit ''b1'', r_session_id = lit ''global'', r_label = lit ''tasks'',
       r_value = lit ''buy milk'', r_description = Some [], r_char_limit = 4000, r_read_only = 0,
       r_hidden = 0, r_metadata = None, r_created_at = lit ''t0'', r_updated_at = lit ''t1'',
       r_version = 2\<rparr>],
     memory_block_history =
     [\<lparr>hr_id = lit ''h1'', hr_block_id = lit ''b1'', hr_label = lit ''tasks'',
       hr_value = [], hr_version = 1, hr_created_at = lit ''t0'',
       hr_created_by = lit ''agent''\<rparr>,
      \<lparr>hr_id = lit ''h2'', hr_block_id = lit ''b1'', hr_label = lit ''tasks'',
       hr_value = lit ''buy milk'', hr_version = 2, hr_created_at = lit ''t1'',
       hr_created_by = lit ''agent''\<rparr>]\<rparr>,
    memoryCache = Some [\<lparr>b_id = lit ''b1'', b_label = lit ''tasks'', b_value = lit ''buy milk'',
      b_description = Some [], b_charLimit = 4000, b_readOnly = False, b_hidden = Some False,
      b_createdAt = lit ''t0'', b_updatedAt = lit ''t1'', b_version = 2, b_metadata = None\<rparr>]\<rparr>"
  by (simp add: tasks_m1_def tasks_m0_def tasks_db_eq mgr_defs db_defs lit_def Let_def)

text \<open>
  Appending \<^verbatim>\<open>buy milk\<close> to the empty block \<^verbatim>\<open>tasks\<close> of limit 4000 gives \<^verbatim>\<open>buy milk\<close>, and
  appending \<^verbatim>\<open>buy eggs\<close> then gives the two lines.
\<close>

theorem appendBlock_value_witness:
  "consistent tasks_m0 \<and> fresh_history_id (lit ''h2'') (db tasks_m0)
   \<and> map_option (\<lambda>b. (b_label b, b_readOnly b, b_value b, b_charLimit b))
        (db_getBlockByLabel sessionId (lit ''tasks'') (db tasks_m0))
       = Some (lit ''tasks'', False, [], 4000)
   \<and> map_option b_value (result_block
        (appendBlock (lit ''tasks'') (lit ''buy milk'') (lit ''h2'') (lit ''t1'') tasks_m0))
       = Some (lit ''buy milk'')
   \<and> consistent tasks_m1 \<and> fresh_history_id (lit ''h3'') (db tasks_m1)
   \<and> map_option b_value (result_block
        (appendBlock (lit ''tasks'') (lit ''buy eggs'') (lit ''h3'') (lit ''t2'') tasks_m1))
       = Some (lit ''buy milk\<newline>buy eggs'')"
proof -
  have c0: "consistent tasks_m0"
    by (simp add: consistent_def wf_db_def stored_row_def tasks_m0_def tasks_db_eq)
  have g0: "db_getBlockByLabel sessionId (lit ''tasks'') (db tasks_m0) =
      Some \<lparr>b_id = lit ''b1'', b_label = lit ''tasks'', b_value = [],
      b_description = Some [], b_charLimit = 4000, b_readOnly = False, b_hidden = Some False,
      b_createdAt = lit ''t0'', b_updatedAt = lit ''t0'', b_version = 1, b_metadata = None\<rparr>"
    by (simp add: tasks_m0_def tasks_db_eq db_defs lit_def)
  have f0: "fresh_history_id (lit ''h2'') (db tasks_m0)"
    by (simp add: fresh_history_id_def tasks_m0_def tasks_db_eq lit_def)
  have c1: "consistent tasks_m1"
    by (simp add: consistent_def wf_db_def stored_row_def tasks_m1_eq db_getBlocksForSession_def
          row_to_block_def sessionId_def)
  have g1: "db_getBlockByLabel sessionId (lit ''tasks'') (db tasks_m1) =
      Some \<lparr>b_id = lit ''b1'', b_label = lit ''tasks'', b_value = lit ''buy milk'',
      b_description = Some [], b_charLimit = 4000, b_readOnly = False, b_hidden = Some False,
      b_createdAt = lit ''t0'', b_updatedAt = lit ''t1'', b_version = 2, b_metadata = None\<rparr>"
    by (simp add: tasks_m1_eq db_defs lit_def)
  have f1: "fresh_history_id (lit ''h3'') (db tasks_m1)"
    by (simp add: fresh_history_id_def tasks_m1_eq lit_def)
  show ?thesis
    using c0 f0 g0 c1 f1
      appendBlock_value [OF c0 g0 _ _ f0, of "lit ''buy milk''" "lit ''t1''"]
      appendBlock_value [OF c1 g1 _ _ f1, of "lit ''buy eggs''" "lit ''t2''"]
    by (simp add: result_block_def appended_def lit_def)
qed

text \<open>
  C5 as stated fails for a content with a surrogate code unit outside a pair: appending the
  one code unit \<open>D800\<close> to the empty block \<^verbatim>\<open>tasks\<close> of limit 4000 returns and stores the
  value of the one code unit \<open>FFFD\<close>, which is not the content.
\<close>

theorem appendBlock_surrogate_counterexample:
  "map_option b_label (db_getBlockByLabel sessionId (lit ''tasks'') (db tasks_m0))
       = Some (lit ''tasks'')
   \<and> map_option b_readOnly (db_getBlockByLabel sessionId (lit ''tasks'') (db tasks_m0))
       = Some False
   \<and> map_option b_value (db_getBlockByLabel sessionId (lit ''tasks'') (db tasks_m0)) = Some []
   \<and> map_option b_charLimit (db_getBlockByLabel sessionId (lit ''tasks'') (db tasks_m0))
       = Some 4000
   \<and> appended [] [0xD800] = [0xD800]
   \<and> map_option b_value (result_block
        (appendBlock (lit ''tasks'') [0xD800] (lit ''h2'') (lit ''t1'') tasks_m0))
       = Some [0xFFFD]
   \<and> map_option b_value (db_getBlockByLabel sessionId (lit ''tasks'')
        (db (snd (appendBlock (lit ''tasks'') [0xD800] (lit ''h2'') (lit ''t1'') tasks_m0))))
       = Some [0xFFFD]"
  by (simp add: tasks_m0_def tasks_db_eq result_block_def appended_def mgr_defs db_defs
        sqlite_text.simps(2) is_high_surrogate_def is_low_surrogate_def lit_def Let_def)

lemma ex_manager_consistent: "consistent ex_manager"
  by (simp add: consistent_def wf_db_def stored_row_def ex_manager_def ex_db_eq)

lemma ex_manager_lookup:
  "db_getBlockByLabel sessionId (lit ''project'') (db ex_manager) = Some ex_block_stored"
  by (simp add: ex_manager_def ex_db_eq db_defs lit_def ex_block_stored_def)

lemma ex_block_stored_label: "b_label ex_block_stored = lit ''project''"
  by (simp add: ex_block_stored_def)

text \<open>
  The example block has the value \<^verbatim>\<open>abc\<close> and the limit 10: an update to a value of 11
  code units and an append of 7 code units behind a line feed are rejected.
\<close>

theorem char_limit_rejection_witness:
  "consistent ex_manager
   \<and> db_getBlockByLabel sessionId (lit ''project'') (db ex_manager) = Some ex_block_stored
   \<and> b_label ex_block_stored = lit ''project''
   \<and> fst (updateBlock (lit ''project'') (only_value (lit ''abcdefghijk'')) (lit ''h2'') (lit ''t1'')
          ex_manager)
     = Inl (CharLimitExceeded 11 10 (lit ''project''))
   \<and> db (snd (updateBlock (lit ''project'') (only_value (lit ''abcdefghijk'')) (lit ''h2'')
          (lit ''t1'') ex_manager)) = db ex_manager
   \<and> fst (appendBlock (lit ''project'') (lit ''defghij'') (lit ''h2'') (lit ''t1'') ex_manager)
     = Inl (CharLimitExceeded 11 10 (lit ''project''))
   \<and> db (snd (appendBlock (lit ''project'') (lit ''defghij'') (lit ''h2'') (lit ''t1'')
          ex_manager)) = db ex_manager
   \<and> fst (replaceBlock (lit ''project'') (lit ''b'') (lit ''0123456789'') (lit ''h2'') (lit ''t1'')
          ex_manager)
     = Inl (CharLimitExceeded 12 10 (lit ''project''))
   \<and> fst (replaceBlock (lit ''project'') [] (lit ''abcdefghijk'') (lit ''h2'') (lit ''t1'')
          ex_manager)
     = Inl (CharLimitExceeded 11 10 (lit ''project''))"
  using ex_manager_consistent ex_manager_lookup ex_block_stored_label
    char_limit_rejection [OF ex_manager_consistent ex_manager_lookup ex_block_stored_label,
      of "only_value (lit ''abcdefghijk'')" "lit ''h2''" "lit ''t1''" "lit ''defghij''"
        "lit ''b''" "lit ''0123456789''"]
    char_limit_rejection [OF ex_manager_consistent ex_manager_lookup ex_block_stored_label,
      of "only_value (lit ''abcdefghijk'')" "lit ''h2''" "lit ''t1''" "lit ''defghij''"
        "lit ''b''" "lit ''abcdefghijk''"]
  by (simp add: only_value_def effective_limit_def appended_def ex_block_stored_def lit_def
        includes_str_def replace_first_def)

text \<open>
  C3 as stated fails for an update that supplies only a limit: with the limit 1 the
  resulting value \<^verbatim>\<open>abc\<close> is longer than the effective limit, but the update succeeds and
  the stored block has a new limit, version and \<^verbatim>\<open>updatedAt\<close>.
\<close>

theorem limit_only_update_counterexample:
  "u_value (no_updates\<lparr>u_charLimit := Some 1\<rparr>) = None
   \<and> db_getBlockByLabel sessionId (lit ''project'') (db ex_manager) = Some ex_block_stored
   \<and> effective_limit (no_updates\<lparr>u_charLimit := Some 1\<rparr>) ex_block_stored = 1
   \<and> length (b_value ex_block_stored) = 3
   \<and> result_block (updateBlock (lit ''project'') (no_updates\<lparr>u_charLimit := Some 1\<rparr>)
        (lit ''h2'') (lit ''t1'') ex_manager)
       = Some (ex_block_stored\<lparr>b_charLimit := 1, b_updatedAt := lit ''t1'', b_version := 2\<rparr>)
   \<and> db_getBlockByLabel sessionId (lit ''project'')
        (db (snd (updateBlock (lit ''project'') (no_updates\<lparr>u_charLimit := Some 1\<rparr>)
          (lit ''h2'') (lit ''t1'') ex_manager)))
       = Some (ex_block_stored\<lparr>b_charLimit := 1, b_updatedAt := lit ''t1'', b_version := 2\<rparr>)"
  by (simp add: ex_manager_def ex_db_eq no_updates_def result_block_def mgr_defs db_defs
        ex_block_stored_def effective_limit_def lit_def Let_def)

text \<open>
  C9, as the manager has it: for a block of the store that is not read-only, an update that
  supplies only a limit, called with the label of the block, never fails, whatever the
  limit: the block is returned and stored with the new limit, its value unchanged, also when
  the value is longer than the limit.
\<close>

theorem limit_only_update_accepted:
  assumes "consistent m" and "db_getBlockByLabel sessionId l (db m) = Some b"
      and "b_label b = l" and "\<not> b_readOnly b"
  shows "fst (updateBlock l (no_updates\<lparr>u_charLimit := Some n\<rparr>) hid now m) =
           Inr (Some (b\<lparr>b_charLimit := n, b_updatedAt := now, b_version := b_version b + 1\<rparr>))
         \<and> db_getBlockByLabel sessionId l
             (db (snd (updateBlock l (no_updates\<lparr>u_charLimit := Some n\<rparr>) hid now m))) =
           Some (b\<lparr>b_charLimit := n, b_updatedAt := now, b_version := b_version b + 1\<rparr>)"
proof -
  let ?u = "no_updates\<lparr>u_charLimit := Some n\<rparr>"
  have v: "u_value ?u = None" by (simp add: no_updates_def)
  have eq: "\<And>r. row_to_block (update_row ?u now (b_version b + 1) r)
      = (row_to_block r)\<lparr>b_charLimit := n, b_updatedAt := now, b_version := b_version b + 1\<rparr>"
    by (simp add: row_to_block_def update_row_def no_updates_def)
  from updateBlock_succeeds[OF assms(1) conjI[OF assms(2,3)] assms(4)
      validate_length_no_value[OF v], of hid now] v
  show ?thesis by (auto simp: eq)
qed

text \<open>
  The limit 2 is accepted for the example block, whose value has 3 code units.
\<close>

theorem limit_only_update_accepted_witness:
  "consistent ex_manager
   \<and> db_getBlockByLabel sessionId (lit ''project'') (db ex_manager) = Some ex_block_stored
   \<and> b_label ex_block_stored = lit ''project''
   \<and> \<not> b_readOnly ex_block_stored
   \<and> int (length (b_value ex_block_stored)) > 2
   \<and> fst (updateBlock (lit ''project'') (no_updates\<lparr>u_charLimit := Some 2\<rparr>) (lit ''h2'')
          (lit ''t1'') ex_manager)
     = Inr (Some (ex_block_stored\<lparr>b_charLimit := 2, b_updatedAt := lit ''t1'', b_version := 2\<rparr>))"
  using ex_manager_consistent ex_manager_lookup ex_block_stored_label
    limit_only_update_accepted [OF ex_manager_consistent ex_manager_lookup ex_block_stored_label,
      of 2 "lit ''h2''" "lit ''t1''"]
  by (simp add: ex_block_stored_def lit_def)

text \<open>
  C9 as stated fails: the example block is not read-only and its value has 3 code units,
  and the update that supplies only the limit 2 returns the block instead of failing.
\<close>

theorem charLimit_shrink_counterexample:
  "u_value (no_updates\<lparr>u_charLimit := Some 2\<rparr>) = None
   \<and> u_charLimit (no_updates\<lparr>u_charLimit := Some 2\<rparr>) = Some 2
   \<and> db_getBlockByLabel sessionId (lit ''project'') (db ex_manager) = Some ex_block_stored
   \<and> b_readOnly ex_block_stored = False
   \<and> length (b_value ex_block_stored) = 3
   \<and> fst (updateBlock (lit ''project'') (no_updates\<lparr>u_charLimit := Some 2\<rparr>) (lit ''h2'')
          (lit ''t1'') ex_manager)
     = Inr (Some (ex_block_stored\<lparr>b_charLimit := 2, b_updatedAt := lit ''t1'', b_version := 2\<rparr>))"
  by (simp add: ex_manager_def ex_db_eq no_updates_def mgr_defs db_defs
        ex_block_stored_def lit_def Let_def)

lemma findIndex_Some: "findIndex P xs = Some i \<Longrightarrow> i < length xs \<and> P (xs ! i)"
  by (induction xs arbitrary: i) (auto split: if_splits)

lemma findIndex_None_iff: "findIndex P xs = None \<longleftrightarrow> (\<forall>x \<in> set xs. \<not> P x)"
  by (induction xs) auto

lemma wf_db_id_unique:
  assumes "wf_db d" "r \<in> set (memory_blocks d)" "r' \<in> set (memory_blocks d)" "r_id r = r_id r'"
  shows "r = r'"
proof -
  from assms(1) have "inj_on r_id (set (memory_blocks d))" by (simp add: wf_db_def distinct_map)
  with assms(2-) show ?thesis by (auto simp: inj_on_def)
qed

lemma key_update_comp:
  "(\<lambda>r. (r_session_id r, r_label r)) \<circ> (\<lambda>r. if matches sid l r then update_row u now v r else r)
     = (\<lambda>r. (r_session_id r, r_label r))"
  by (auto simp: fun_eq_iff update_row_def)

lemma wf_db_update:
  assumes "wf_db d"
      and "memory_blocks d' =
             map (\<lambda>r. if matches sid l r then update_row u now v r else r) (memory_blocks d)"
  shows "wf_db d'"
proof -
  have "\<And>r. stored_row r \<Longrightarrow> stored_row (update_row u now v r)"
    by (auto simp: stored_row_def update_row_def split: option.splits)
  with assms show ?thesis
    by (auto simp: wf_db_def r_id_update_comp key_update_comp list_all_iff)
qed

lemma consistent_after_update:
  assumes c: "consistent m1" and mc: "memoryCache m1 = Some c"
      and f: "find (matches sessionId l) (memory_blocks (db m1)) = Some r0"
      and d': "memory_blocks d' =
             map (\<lambda>r. if matches sessionId l r then update_row u now v r else r)
               (memory_blocks (db m1))"
  shows "consistent (cacheUpdate (row_to_block (update_row u now v r0)) (m1\<lparr>db := d'\<rparr>))"
proof -
  let ?f = "\<lambda>r. if matches sessionId l r then update_row u now v r else r"
  let ?ub = "row_to_block (update_row u now v r0)"
  let ?S = "{r \<in> set (memory_blocks (db m1)). r_session_id r = sessionId}"
  from c mc have wf: "wf_db (db m1)" and dl: "distinct (map b_label c)"
    and sc: "set c = row_to_block ` ?S"
    by (auto simp: consistent_def set_getBlocksForSession)
  from find_SomeD[OF f] have r0: "r0 \<in> set (memory_blocks (db m1))" "matches sessionId l r0"
    by auto
  then have r0S: "r0 \<in> ?S" by (simp add: matches_def)
  have wf': "wf_db d'" using wf d' by (rule wf_db_update)
  have idub: "b_id ?ub = r_id r0" by (simp add: update_row_def)
  from r0S sc have "row_to_block r0 \<in> set c" by auto
  moreover have "b_id (row_to_block r0) = b_id ?ub" using idub by simp
  ultimately have "\<not> (\<forall>x \<in> set c. \<not> b_id x = b_id ?ub)" by blast
  then obtain i where i: "findIndex (\<lambda>b. b_id b = b_id ?ub) c = Some i"
    by (cases "findIndex (\<lambda>b. b_id b = b_id ?ub) c") (auto simp: findIndex_None_iff)
  from findIndex_Some[OF i] have il: "i < length c" and ii: "b_id (c ! i) = r_id r0"
    using idub by auto
  from il have "c ! i \<in> set c" by simp
  with sc obtain r where r: "r \<in> ?S" "c ! i = row_to_block r" by auto
  with ii have "r_id r = r_id r0" by simp
  with r r0 wf have "r = r0" by (auto intro: wf_db_id_unique)
  with r have ci: "c ! i = row_to_block r0" by simp
  from dl have dc: "distinct c" by (simp add: distinct_map)
  have f_other: "\<And>r. r \<in> ?S \<Longrightarrow> r \<noteq> r0 \<Longrightarrow> ?f r = r"
  proof -
    fix r assume "r \<in> ?S" "r \<noteq> r0"
    with wf r0 have "\<not> matches sessionId l r" by (auto dest: wf_db_match_unique)
    then show "?f r = r" by simp
  qed
  have S': "{r \<in> set (memory_blocks d'). r_session_id r = sessionId} = ?f ` ?S"
    by (auto simp: d' update_row_def image_iff)
  have "row_to_block ` (?f ` ?S) = insert ?ub (row_to_block ` ?S - {row_to_block r0})"
  proof (intro set_eqI iffI)
    fix x assume "x \<in> row_to_block ` (?f ` ?S)"
    then obtain r where r: "r \<in> ?S" "x = row_to_block (?f r)" by auto
    show "x \<in> insert ?ub (row_to_block ` ?S - {row_to_block r0})"
    proof (cases "r = r0")
      case True
      with r r0 show ?thesis by simp
    next
      case False
      with r have x: "x = row_to_block r" by (simp add: f_other)
      from False r r0 wf have "r_id r \<noteq> r_id r0" by (auto dest: wf_db_id_unique)
      then have "row_to_block r \<noteq> row_to_block r0"
        by (metis b_id_row_to_block)
      with x r show ?thesis by auto
    qed
  next
    fix x assume "x \<in> insert ?ub (row_to_block ` ?S - {row_to_block r0})"
    then consider "x = ?ub" | r where "r \<in> ?S" "x = row_to_block r" "r \<noteq> r0" by auto
    then show "x \<in> row_to_block ` (?f ` ?S)"
    proof cases
      case 1
      have "?f r0 \<in> ?f ` ?S" using r0S by (rule imageI)
      then have "row_to_block (?f r0) \<in> row_to_block ` (?f ` ?S)" by (rule imageI)
      moreover have "row_to_block (?f r0) = ?ub" using r0 by simp
      ultimately show ?thesis using 1 by simp
    next
      case 2
      then have x: "x = row_to_block (?f r)" by (simp add: f_other)
      have "?f r \<in> ?f ` ?S" using 2(1) by (rule imageI)
      then have "row_to_block (?f r) \<in> row_to_block ` (?f ` ?S)" by (rule imageI)
      with x show ?thesis by simp
    qed
  qed
  with S' sc ci have set': "set (c[i := ?ub])
      = row_to_block ` {r \<in> set (memory_blocks d'). r_session_id r = sessionId}"
    using set_update_distinct[OF dc il, of ?ub] by simp
  have "map b_label (c[i := ?ub]) = (map b_label c)[i := b_label (c ! i)]"
    by (simp add: map_update ci update_row_def)
  also have "\<dots> = map b_label c" using il by (simp add: list_update_same_conv)
  finally have dl': "distinct (map b_label (c[i := ?ub]))" using dl by simp
  show ?thesis
    using wf' set' dl' i mc
    by (simp add: consistent_def cacheUpdate_def set_getBlocksForSession)
qed

lemma find_filter_implied:
  "(\<And>x. P x \<Longrightarrow> Q x) \<Longrightarrow> find P (filter Q xs) = find P xs"
  by (induction xs) auto

lemma getBlockByLabel_other_update:
  assumes "sqlite_text l0 \<noteq> sqlite_text l"
  shows "db_getBlockByLabel sid l0 (snd (db_updateBlock sid l u hid now d))
           = db_getBlockByLabel sid l0 d"
proof (cases "db_getBlockByLabel sid l d")
  case None
  then show ?thesis by (simp add: db_updateBlock_def)
next
  case (Some b)
  let ?f = "\<lambda>r. if matches sid l r then update_row u now (b_version b + 1) r else r"
  let ?d1 = "d\<lparr>memory_blocks := map ?f (memory_blocks d)\<rparr>"
  have "find (matches sid l0) (map ?f (memory_blocks d))
          = map_option ?f (find (matches sid l0) (memory_blocks d))"
    by (rule find_map_preserved) simp
  moreover have "\<And>r. find (matches sid l0) (memory_blocks d) = Some r \<Longrightarrow> ?f r = r"
    using assms by (auto dest!: find_SomeD simp: matches_def)
  ultimately have g: "db_getBlockByLabel sid l0 ?d1 = db_getBlockByLabel sid l0 d"
    by (cases "find (matches sid l0) (memory_blocks d)") (auto simp: db_getBlockByLabel_def)
  have "memory_blocks (snd (db_updateBlock sid l u hid now d)) = memory_blocks ?d1"
    using Some
    by (auto simp: db_updateBlock_def Let_def createHistoryEntry_def
          split: option.splits sum.splits if_splits)
  then have "db_getBlockByLabel sid l0 (snd (db_updateBlock sid l u hid now d))
               = db_getBlockByLabel sid l0 ?d1"
    by (rule getBlockByLabel_blocks_cong)
  with g show ?thesis by simp
qed

lemma getBlockByLabel_same_text:
  assumes "sqlite_text l0 = sqlite_text l"
  shows "db_getBlockByLabel sid l0 d = db_getBlockByLabel sid l d"
proof -
  from assms have "matches sid l0 = matches sid l" by (simp add: matches_def fun_eq_iff)
  then show ?thesis by (simp add: db_getBlockByLabel_def)
qed

lemma getBlock_cases:
  assumes "consistent m"
  obtains m1 c
    where "getBlock l m =
             (if sqlite_text l = l then db_getBlockByLabel sessionId l (db m) else None, m1)"
    "db m1 = db m" "consistent m1" "memoryCache m1 = Some c"
  using getBlock_consistent[OF assms, of l] by blast

lemma updateBlock_db:
  assumes "consistent m"
  shows "db (snd (updateBlock l u hid now m)) = db m
         \<or> (\<exists>b. sqlite_text l = l \<and> db_getBlockByLabel sessionId l (db m) = Some b
              \<and> \<not> b_readOnly b
              \<and> db (snd (updateBlock l u hid now m))
                  = snd (db_updateBlock sessionId l u hid now (db m)))"
proof -
  from assms obtain m1 c
    where m1: "getBlock l m =
        (if sqlite_text l = l then db_getBlockByLabel sessionId l (db m) else None, m1)"
    "db m1 = db m" "consistent m1" "memoryCache m1 = Some c"
    by (rule getBlock_cases)
  then show ?thesis
    by (auto simp: updateBlock_def split: option.splits sum.splits prod.splits if_splits)
qed

lemma updateBlock_keeps_readOnly:
  assumes "consistent m" "db_getBlockByLabel sessionId l0 (db m) = Some b0" "b_readOnly b0"
  shows "db_getBlockByLabel sessionId l0 (db (snd (updateBlock l u hid now m))) = Some b0"
  using updateBlock_db[OF assms(1), of l u hid now] assms(2,3)
    getBlockByLabel_other_update[of l0 l sessionId u hid now "db m"]
    getBlockByLabel_same_text[of l0 l sessionId "db m"]
  by (cases "sqlite_text l0 = sqlite_text l") auto

lemma updateBlock_consistent:
  assumes "consistent m" and "u_value u = None \<or> fresh_history_id hid (db m)"
  shows "consistent (snd (updateBlock l u hid now m))"
proof -
  let ?found = "if sqlite_text l = l then db_getBlockByLabel sessionId l (db m) else None"
  from assms(1) obtain m1 c
    where m1: "getBlock l m = (?found, m1)"
      "db m1 = db m" "consistent m1" "memoryCache m1 = Some c"
    by (rule getBlock_cases)
  show ?thesis
  proof (cases ?found)
    case None
    with m1 show ?thesis by (simp add: updateBlock_def)
  next
    case (Some b)
    then have lk: "db_getBlockByLabel sessionId l (db m) = Some b"
      by (simp split: if_splits)
    show ?thesis
    proof (cases "b_readOnly b \<or> validate_length l u b \<noteq> None")
      case True
      with m1 Some show ?thesis by (auto simp: updateBlock_def)
    next
      case False
      from db_updateBlock_fresh[OF lk assms(2), of now] obtain r d'
        where r: "find (matches sessionId l) (memory_blocks (db m)) = Some r"
          "db_updateBlock sessionId l u hid now (db m) =
             (Inr (Some (row_to_block (update_row u now (b_version b + 1) r))), d')"
          "memory_blocks d' =
             map (\<lambda>r. if matches sessionId l r then update_row u now (b_version b + 1) r else r)
               (memory_blocks (db m))"
        by blast
      have f1: "find (matches sessionId l) (memory_blocks (db m1)) = Some r"
        using r(1) m1(2) by simp
      have d1: "memory_blocks d' =
             map (\<lambda>r. if matches sessionId l r then update_row u now (b_version b + 1) r else r)
               (memory_blocks (db m1))"
        using r(3) m1(2) by simp
      from consistent_after_update[OF m1(3,4) f1 d1] m1 Some False r(2)
      show ?thesis by (simp add: updateBlock_def)
    qed
  qed
qed

lemma appendBlock_consistent:
  assumes "consistent m" and "fresh_history_id hid (db m)"
  shows "consistent (snd (appendBlock l cont hid now m))"
proof -
  from assms(1) obtain m1 c
    where m1: "getBlock l m =
        (if sqlite_text l = l then db_getBlockByLabel sessionId l (db m) else None, m1)"
      "db m1 = db m" "consistent m1" "memoryCache m1 = Some c"
    by (rule getBlock_cases)
  from m1 assms(2) have "\<And>u. consistent (snd (updateBlock l u hid now m1))"
    by (intro updateBlock_consistent) simp_all
  with m1 show ?thesis
    by (auto simp: appendBlock_def Let_def split: option.splits if_splits)
qed

lemma appendBlock_keeps_readOnly:
  assumes "consistent m" "db_getBlockByLabel sessionId l0 (db m) = Some b0" "b_readOnly b0"
  shows "db_getBlockByLabel sessionId l0 (db (snd (appendBlock l cont hid now m))) = Some b0"
proof -
  from assms(1) obtain m1 c
    where m1: "getBlock l m =
        (if sqlite_text l = l then db_getBlockByLabel sessionId l (db m) else None, m1)"
      "db m1 = db m" "consistent m1" "memoryCache m1 = Some c"
    by (rule getBlock_cases)
  from m1 assms(2,3)
  have "\<And>u. db_getBlockByLabel sessionId l0 (db (snd (updateBlock l u hid now m1))) = Some b0"
    by (intro updateBlock_keeps_readOnly) simp_all
  with m1 assms(2) show ?thesis
    by (auto simp: appendBlock_def Let_def split: option.splits if_splits)
qed

lemma replaceBlock_consistent:
  assumes "consistent m" and "fresh_history_id hid (db m)"
  shows "consistent (snd (replaceBlock l old new hid now m))"
proof -
  from assms(1) obtain m1 c
    where m1: "getBlock l m =
        (if sqlite_text l = l then db_getBlockByLabel sessionId l (db m) else None, m1)"
      "db m1 = db m" "consistent m1" "memoryCache m1 = Some c"
    by (rule getBlock_cases)
  from m1 assms(2) have "\<And>u. consistent (snd (updateBlock l u hid now m1))"
    by (intro updateBlock_consistent) simp_all
  with m1 show ?thesis
    by (auto simp: replaceBlock_def Let_def split: option.splits if_splits)
qed

lemma replaceBlock_keeps_readOnly:
  assumes "consistent m" "db_getBlockByLabel sessionId l0 (db m) = Some b0" "b_readOnly b0"
  shows "db_getBlockByLabel sessionId l0 (db (snd (replaceBlock l old new hid now m))) = Some b0"
proof -
  from assms(1) obtain m1 c
    where m1: "getBlock l m =
        (if sqlite_text l = l then db_getBlockByLabel sessionId l (db m) else None, m1)"
      "db m1 = db m" "consistent m1" "memoryCache m1 = Some c"
    by (rule getBlock_cases)
  from m1 assms(2,3)
  have "\<And>u. db_getBlockByLabel sessionId l0 (db (snd (updateBlock l u hid now m1))) = Some b0"
    by (intro updateBlock_keeps_readOnly) simp_all
  with m1 assms(2) show ?thesis
    by (auto simp: replaceBlock_def Let_def split: option.splits if_splits)
qed

lemma find_append:
  "find P (xs @ ys) = (case find P xs of None \<Rightarrow> find P ys | Some x \<Rightarrow> Some x)"
  by (induction xs) auto

lemma wf_db_delete: "wf_db d \<Longrightarrow> wf_db (snd (db_deleteBlock sid l d))"
  by (auto simp: wf_db_def db_deleteBlock_def Let_def distinct_map_filter list_all_iff)

lemma getBlockByLabel_other_delete:
  assumes "sqlite_text l0 \<noteq> sqlite_text l"
  shows "db_getBlockByLabel sid l0 (snd (db_deleteBlock sid l d)) = db_getBlockByLabel sid l0 d"
proof -
  have "find (matches sid l0) (filter (\<lambda>r. \<not> matches sid l r) (memory_blocks d))
          = find (matches sid l0) (memory_blocks d)"
    using assms by (intro find_filter_implied) (auto simp: matches_def)
  then show ?thesis by (simp add: db_getBlockByLabel_def db_deleteBlock_def Let_def)
qed

lemma deleteBlock_consistent:
  assumes "consistent m"
  shows "consistent (snd (deleteBlock l m))"
proof -
  let ?found = "if sqlite_text l = l then db_getBlockByLabel sessionId l (db m) else None"
  from assms obtain m1 c
    where m1: "getBlock l m = (?found, m1)"
      "db m1 = db m" "consistent m1" "memoryCache m1 = Some c"
    by (rule getBlock_cases)
  show ?thesis
  proof (cases ?found)
    case None
    with m1 show ?thesis by (simp add: deleteBlock_def)
  next
    case (Some b)
    then have lk: "db_getBlockByLabel sessionId l (db m) = Some b" and st: "sqlite_text l = l"
      by (simp_all split: if_splits)
    show ?thesis
    proof (cases "b_readOnly b")
      case True
      with m1 Some show ?thesis by (simp add: deleteBlock_def)
    next
      case False
      let ?d = "snd (db_deleteBlock sessionId l (db m1))"
      from lk obtain r where "find (matches sessionId l) (memory_blocks (db m)) = Some r"
        by (auto simp: db_getBlockByLabel_def)
      from find_SomeD[OF this] have "filter (matches sessionId l) (memory_blocks (db m)) \<noteq> []"
        by (auto simp: filter_empty_conv)
      then have succ: "fst (db_deleteBlock sessionId l (db m1))" using m1(2)
        by (simp add: db_deleteBlock_def Let_def)
      from m1 have wf: "wf_db (db m1)" and dl: "distinct (map b_label c)"
        and sc: "set c = row_to_block ` {r \<in> set (memory_blocks (db m1)). r_session_id r = sessionId}"
        by (auto simp: consistent_def set_getBlocksForSession)
      have wf': "wf_db ?d" using wf by (rule wf_db_delete)
      have dl': "distinct (map b_label (filter (\<lambda>b. b_label b \<noteq> l) c))"
        using dl by (rule distinct_map_filter)
      have set': "set (filter (\<lambda>b. b_label b \<noteq> l) c)
          = row_to_block ` {r \<in> set (memory_blocks ?d). r_session_id r = sessionId}"
        using sc st by (auto simp: db_deleteBlock_def Let_def matches_def)
      have "snd (deleteBlock l m) =
          m1\<lparr>db := ?d, memoryCache := Some (filter (\<lambda>b. b_label b \<noteq> l) c)\<rparr>"
        using m1 Some False succ by (simp add: deleteBlock_def case_prod_beta)
      with wf' dl' set' show ?thesis
        by (simp add: consistent_def set_getBlocksForSession)
    qed
  qed
qed

lemma deleteBlock_keeps_readOnly:
  assumes "consistent m" "db_getBlockByLabel sessionId l0 (db m) = Some b0" "b_readOnly b0"
  shows "db_getBlockByLabel sessionId l0 (db (snd (deleteBlock l m))) = Some b0"
proof -
  from assms(1) obtain m1 c
    where m1: "getBlock l m =
        (if sqlite_text l = l then db_getBlockByLabel sessionId l (db m) else None, m1)"
      "db m1 = db m" "consistent m1" "memoryCache m1 = Some c"
    by (rule getBlock_cases)
  have "db (snd (deleteBlock l m)) = db m
        \<or> (sqlite_text l0 \<noteq> sqlite_text l
            \<and> db (snd (deleteBlock l m)) = snd (db_deleteBlock sessionId l (db m)))"
    using m1 assms(2,3) getBlockByLabel_same_text[of l0 l sessionId "db m"]
    by (auto simp: deleteBlock_def split: option.splits prod.splits if_splits)
  with assms(2) show ?thesis by (auto simp: getBlockByLabel_other_delete)
qed

lemma new_row_fields [simp]:
  "r_id (new_row i sid block now) = i"
  "r_session_id (new_row i sid block now) = sqlite_text sid"
  "r_label (new_row i sid block now) = sqlite_text (c_label block)"
  by (simp_all add: new_row_def)

lemma matches_stored [simp]: "matches (sqlite_text sid) (sqlite_text l) = matches sid l"
  by (simp add: matches_def fun_eq_iff)

lemma stored_row_new [simp]: "stored_row (new_row i sid block now)"
  by (simp add: stored_row_def new_row_def)

text \<open>What the store does on a create with a fresh history identifier.\<close>

lemma db_createBlock_fresh:
  assumes "fresh_history_id hid d"
  shows "(db_createBlock sid block i hid now d = (Inl (SqliteError (lit ''UNIQUE constraint failed: memory_blocks.id'')), d)
           \<and> i \<in> set (map r_id (memory_blocks d)))
       \<or> (db_createBlock sid block i hid now d = (Inl (SqliteError (lit ''UNIQUE constraint failed: memory_blocks.session_id, memory_blocks.label'')), d)
           \<and> (\<exists>r \<in> set (memory_blocks d). matches sid (c_label block) r))
       \<or> (i \<notin> set (map r_id (memory_blocks d))
           \<and> (\<forall>r \<in> set (memory_blocks d). \<not> matches sid (c_label block) r)
           \<and> db_createBlock sid block i hid now d =
               (Inr (Some (row_to_block (new_row i sid block now))),
                \<lparr>memory_blocks = memory_blocks d @ [new_row i sid block now],
                 memory_block_history = memory_block_history d @
                   [\<lparr>hr_id = hid, hr_block_id = i, hr_label = sqlite_text (c_label block),
                     hr_value = sqlite_text (case c_value block of None \<Rightarrow> [] | Some v \<Rightarrow> v),
                     hr_version = 1, hr_created_at = now, hr_created_by = lit ''agent''\<rparr>]\<rparr>))"
proof (cases "i \<in> set (map r_id (memory_blocks d))")
  case True
  then show ?thesis by (simp add: db_createBlock_def insert_block_def)
next
  case False
  show ?thesis
  proof (cases "list_ex (matches sid (c_label block)) (memory_blocks d)")
    case True
    with False show ?thesis
      by (simp add: db_createBlock_def insert_block_def list_ex_iff)
  next
    case ex: False
    have "find (\<lambda>r. r_id r = i) (memory_blocks d) = None"
      using False by (auto simp: find_None_iff)
    then have f: "find (\<lambda>r. r_id r = i) (memory_blocks d @ [new_row i sid block now])
                = Some (new_row i sid block now)"
      by (simp add: find_append)
    from False ex assms f show ?thesis
      by (simp add: db_createBlock_def insert_block_def createHistoryEntry_def
            fresh_history_id_def db_getBlock_def list_ex_iff)
  qed
qed

lemma createBlock_consistent:
  assumes "consistent m" and "fresh_history_id hid (db m)"
  shows "consistent (snd (createBlock block i hid now m))"
proof -
  let ?l = "c_label block"
  from assms(1) obtain m1 c
    where m1: "getBlock ?l m =
        (if sqlite_text ?l = ?l then db_getBlockByLabel sessionId ?l (db m) else None, m1)"
      "db m1 = db m" "consistent m1" "memoryCache m1 = Some c"
    by (rule getBlock_cases)
  from m1 have wf: "wf_db (db m1)" and dl: "distinct (map b_label c)"
    and sc: "set c = row_to_block ` {r \<in> set (memory_blocks (db m1)). r_session_id r = sessionId}"
    by (auto simp: consistent_def set_getBlocksForSession)
  have "m1\<lparr>db := db m1\<rparr> = m1" by simp
  with m1(2,3) have same: "consistent (m1\<lparr>db := db m\<rparr>)" by metis
  from assms(2) m1(2) have fr: "fresh_history_id hid (db m1)" by simp
  let ?new = "new_row i sessionId block now"
  let ?d2 = "\<lparr>memory_blocks = memory_blocks (db m1) @ [?new],
              memory_block_history = memory_block_history (db m1) @
                   [\<lparr>hr_id = hid, hr_block_id = i, hr_label = sqlite_text (c_label block),
                     hr_value = sqlite_text (case c_value block of None \<Rightarrow> [] | Some v \<Rightarrow> v),
                     hr_version = 1, hr_created_at = now, hr_created_by = lit ''agent''\<rparr>]\<rparr>"
  from db_createBlock_fresh[OF fr, of sessionId block i now]
  consider (fail) e where "db_createBlock sessionId block i hid now (db m1) = (Inl e, db m1)"
    | (ok) "i \<notin> set (map r_id (memory_blocks (db m1)))"
        "\<forall>r \<in> set (memory_blocks (db m1)). \<not> matches sessionId ?l r"
        "db_createBlock sessionId block i hid now (db m1) = (Inr (Some (row_to_block ?new)), ?d2)"
    by blast
  then show ?thesis
  proof cases
    case fail
    with m1 same show ?thesis
      by (auto simp: createBlock_def Let_def split: option.splits if_splits)
  next
    case ok
    have noid: "\<forall>b \<in> set c. b_id b \<noteq> i" using sc ok(1) by auto
    then have fi: "findIndex (\<lambda>b. b_id b = b_id (row_to_block ?new)) c = None"
      by (simp add: findIndex_None_iff)
    have nolabel: "\<forall>b \<in> set c. b_label b \<noteq> sqlite_text ?l"
      using sc ok(2) by (auto simp: matches_def)
    have wf': "wf_db ?d2" using wf ok(1,2) by (auto simp: wf_db_def matches_def)
    have dl': "distinct (map b_label (c @ [row_to_block ?new]))" using dl nolabel by auto
    have set': "set (c @ [row_to_block ?new])
        = row_to_block ` {r \<in> set (memory_blocks ?d2). r_session_id r = sessionId}"
      using sc by auto
    have cons: "consistent (cacheUpdate (row_to_block ?new) (m1\<lparr>db := ?d2\<rparr>))"
      using wf' dl' set' fi m1(4)
      by (simp add: consistent_def cacheUpdate_def set_getBlocksForSession)
    from m1 ok(3) cons show ?thesis
      by (auto simp: createBlock_def Let_def split: option.splits if_splits)
  qed
qed

lemma createBlock_keeps_readOnly:
  assumes "consistent m" "db_getBlockByLabel sessionId l0 (db m) = Some b0"
  shows "db_getBlockByLabel sessionId l0 (db (snd (createBlock block i hid now m))) = Some b0"
proof -
  let ?l = "c_label block"
  from assms(1) obtain m1 c
    where m1: "getBlock ?l m =
        (if sqlite_text ?l = ?l then db_getBlockByLabel sessionId ?l (db m) else None, m1)"
      "db m1 = db m" "consistent m1" "memoryCache m1 = Some c"
    by (rule getBlock_cases)
  have blocks: "memory_blocks (snd (db_createBlock sessionId block i hid now (db m)))
      = memory_blocks (db m)
      \<or> memory_blocks (snd (db_createBlock sessionId block i hid now (db m)))
      = memory_blocks (db m) @ [new_row i sessionId block now]"
    by (auto simp: db_createBlock_def insert_block_def createHistoryEntry_def
          split: sum.splits if_splits)
  from assms(2) obtain r where r: "find (matches sessionId l0) (memory_blocks (db m)) = Some r"
      "b0 = row_to_block r"
    by (auto simp: db_getBlockByLabel_def)
  from blocks r have keep:
    "db_getBlockByLabel sessionId l0 (snd (db_createBlock sessionId block i hid now (db m))) = Some b0"
    by (auto simp: db_getBlockByLabel_def find_append)
  have "db (snd (createBlock block i hid now m)) = db m
        \<or> db (snd (createBlock block i hid now m))
            = snd (db_createBlock sessionId block i hid now (db m))"
    using m1
    by (auto simp: createBlock_def Let_def split: option.splits prod.splits sum.splits if_splits)
  with keep assms(2) show ?thesis by auto
qed

lemma getBlocks_consistent:
  assumes "consistent m"
  shows "consistent (snd (getBlocks m)) \<and> db (snd (getBlocks m)) = db m"
proof (cases "memoryCache m")
  case None
  from assms have "wf_db (db m)" by (simp add: consistent_def)
  from load_consistent[OF this] None show ?thesis by (simp add: getBlocks_def Let_def)
next
  case (Some c)
  with assms show ?thesis by (simp add: getBlocks_def)
qed

lemma apply_op_consistent:
  assumes "consistent m" "fresh_op op m"
  shows "consistent (apply_op op m)"
proof (cases op)
  case (OpGetBlock l)
  from assms(1) obtain m1 c
    where "getBlock l m =
        (if sqlite_text l = l then db_getBlockByLabel sessionId l (db m) else None, m1)"
    "consistent m1" by (rule getBlock_cases)
  with OpGetBlock show ?thesis by simp
next
  case OpLoad
  from assms(1) have "wf_db (db m)" by (simp add: consistent_def)
  from load_consistent(1)[OF this] OpLoad show ?thesis by simp
next
  case OpClearCache
  with assms(1) show ?thesis by (simp add: clearCache_def consistent_def)
qed (use assms in \<open>simp_all add: createBlock_consistent updateBlock_consistent
        deleteBlock_consistent appendBlock_consistent replaceBlock_consistent
        getBlocks_consistent compile_def case_prod_beta\<close>)

lemma apply_op_keeps_readOnly:
  assumes "consistent m" "db_getBlockByLabel sessionId l0 (db m) = Some b0" "b_readOnly b0"
  shows "db_getBlockByLabel sessionId l0 (db (apply_op op m)) = Some b0"
proof (cases op)
  case (OpGetBlock l)
  from assms(1) obtain m1 c
    where "getBlock l m =
        (if sqlite_text l = l then db_getBlockByLabel sessionId l (db m) else None, m1)"
    "db m1 = db m" by (rule getBlock_cases)
  with OpGetBlock assms(2) show ?thesis by simp
next
  case OpLoad
  with assms(2) show ?thesis by (simp add: load_def Let_def)
next
  case OpClearCache
  with assms(2) show ?thesis by (simp add: clearCache_def)
qed (use assms in \<open>simp_all add: createBlock_keeps_readOnly updateBlock_keeps_readOnly
        deleteBlock_keeps_readOnly appendBlock_keeps_readOnly replaceBlock_keeps_readOnly
        getBlocks_consistent compile_def case_prod_beta\<close>)

lemma run_keeps_readOnly:
  assumes "consistent m" "db_getBlockByLabel sessionId l0 (db m) = Some b0" "b_readOnly b0"
      and "fresh_run ops m"
  shows "db_getBlockByLabel sessionId l0 (db (run ops m)) = Some b0 \<and> consistent (run ops m)"
  using assms
proof (induction ops arbitrary: m)
  case Nil
  then show ?case by simp
next
  case (Cons op ops)
  from Cons.prems have "consistent (apply_op op m)"
    "db_getBlockByLabel sessionId l0 (db (apply_op op m)) = Some b0"
    "fresh_run ops (apply_op op m)"
    by (simp_all add: apply_op_consistent apply_op_keeps_readOnly)
  from Cons.IH[OF this(1,2) Cons.prems(3) this(3)] show ?case by simp
qed

text \<open>
  C10: for a read-only block of the store of a consistent manager, \<^verbatim>\<open>updateBlock\<close>,
  \<^verbatim>\<open>appendBlock\<close>, \<^verbatim>\<open>replaceBlock\<close> and \<^verbatim>\<open>deleteBlock\<close> on its label fail with the
  read-only error and leave the store as it was; and after any sequence of operations of the
  manager, on any labels (with fresh history identifiers), the store holds the same block
  under this label, every field unchanged, \<^verbatim>\<open>readOnly\<close> included, and the manager is
  consistent again.
\<close>

theorem readOnly_latch:
  assumes "consistent m" and "db_getBlockByLabel sessionId l (db m) = Some b"
      and "b_label b = l" and "b_readOnly b"
  shows "fst (updateBlock l u hid now m) = Inl (ReadOnlyModified l)
         \<and> db (snd (updateBlock l u hid now m)) = db m
         \<and> fst (appendBlock l cont hid now m) = Inl (ReadOnlyModified l)
         \<and> db (snd (appendBlock l cont hid now m)) = db m
         \<and> fst (replaceBlock l old new hid now m) = Inl (ReadOnlyModified l)
         \<and> db (snd (replaceBlock l old new hid now m)) = db m
         \<and> fst (deleteBlock l m) = Inl (ReadOnlyDeleted l)
         \<and> db (snd (deleteBlock l m)) = db m
         \<and> (fresh_run ops m \<longrightarrow>
              db_getBlockByLabel sessionId l (db (run ops m)) = Some b
              \<and> consistent (run ops m))"
  using updateBlock_readOnly[OF assms(1) conjI[OF assms(2,3)] assms(4), of u hid now]
    deleteBlock_readOnly[OF assms(1) conjI[OF assms(2,3)] assms(4)]
    appendBlock_unfold[OF assms(1) conjI[OF assms(2,3)], of cont hid now]
    replaceBlock_unfold[OF assms(1) conjI[OF assms(2,3)], of old new hid now] assms(4)
    run_keeps_readOnly[OF assms(1,2,4), of ops]
  by auto

lemma persona_db_eq:
  "persona_db = \<lparr>memory_blocks =
     [\<lparr>r_id = lit ''b1'', r_session_id = lit ''global'', r_label = lit ''persona'',
       r_value = lit ''helper'', r_description = Some [], r_char_limit = 2000, r_read_only = 1,
       r_hidden = 0, r_metadata = None, r_created_at = lit ''t0'', r_updated_at = lit ''t0'',
       r_version = 1\<rparr>],
     memory_block_history =
     [\<lparr>hr_id = lit ''h1'', hr_block_id = lit ''b1'', hr_label = lit ''persona'',
       hr_value = lit ''helper'', hr_version = 1, hr_created_at = lit ''t0'',
       hr_created_by = lit ''agent''\<rparr>]\<rparr>"
  by (simp add: persona_db_def db_defs)

text \<open>
  The read-only block \<^verbatim>\<open>persona\<close>: an update that sets \<^verbatim>\<open>readOnly\<close> to false and a delete
  fail, and the block is as before after an update, a replace and a delete in sequence.
\<close>

theorem readOnly_latch_witness:
  "consistent persona_m
   \<and> db_getBlockByLabel sessionId (lit ''persona'') (db persona_m) = Some persona_stored
   \<and> b_label persona_stored = lit ''persona''
   \<and> b_readOnly persona_stored
   \<and> fst (updateBlock (lit ''persona'') (no_updates\<lparr>u_readOnly := Some False\<rparr>) (lit ''h2'')
          (lit ''t1'') persona_m) = Inl (ReadOnlyModified (lit ''persona''))
   \<and> fst (deleteBlock (lit ''persona'') persona_m) = Inl (ReadOnlyDeleted (lit ''persona''))
   \<and> fresh_run [OpUpdateBlock (lit ''persona'') (no_updates\<lparr>u_readOnly := Some False\<rparr>)
                    (lit ''h2'') (lit ''t1''),
                  OpReplaceBlock (lit ''persona'') [] (lit ''x'') (lit ''h3'') (lit ''t2''),
                  OpDeleteBlock (lit ''persona'')] persona_m
   \<and> db_getBlockByLabel sessionId (lit ''persona'')
        (db (run [OpUpdateBlock (lit ''persona'') (no_updates\<lparr>u_readOnly := Some False\<rparr>)
                    (lit ''h2'') (lit ''t1''),
                  OpReplaceBlock (lit ''persona'') [] (lit ''x'') (lit ''h3'') (lit ''t2''),
                  OpDeleteBlock (lit ''persona'')] persona_m))
       = Some persona_stored"
proof -
  have c: "consistent persona_m"
    by (simp add: consistent_def wf_db_def stored_row_def persona_m_def persona_db_eq)
  have g: "db_getBlockByLabel sessionId (lit ''persona'') (db persona_m) = Some persona_stored"
    by (simp add: persona_m_def persona_db_eq db_defs lit_def persona_stored_def)
  have r: "b_readOnly persona_stored" by (simp add: persona_stored_def)
  have lb: "b_label persona_stored = lit ''persona''" by (simp add: persona_stored_def)
  have d: "\<And>m. db m = db persona_m \<Longrightarrow> fresh_history_id (lit ''h2'') (db m)
      \<and> fresh_history_id (lit ''h3'') (db m)"
    by (simp add: fresh_history_id_def persona_m_def persona_db_eq lit_def)
  let ?u = "no_updates\<lparr>u_readOnly := Some False\<rparr>"
  let ?ops = "[OpUpdateBlock (lit ''persona'') ?u (lit ''h2'') (lit ''t1''),
               OpReplaceBlock (lit ''persona'') [] (lit ''x'') (lit ''h3'') (lit ''t2''),
               OpDeleteBlock (lit ''persona'')]"
  let ?m1 = "snd (updateBlock (lit ''persona'') ?u (lit ''h2'') (lit ''t1'') persona_m)"
  have c1: "db ?m1 = db persona_m"
    using updateBlock_readOnly[OF c conjI[OF g lb] r, of ?u "lit ''h2''" "lit ''t1''"] by simp
  have f: "fresh_run ?ops persona_m"
    using d[of persona_m] d[of ?m1] c1 by simp
  show ?thesis
    using c g lb r f
      readOnly_latch [OF c g lb r, where u="?u" and hid="lit ''h2''" and now="lit ''t1''"
        and ops="?ops"]
    by simp
qed

lemma appendBlock_absent:
  assumes "consistent m" "db_getBlockByLabel sessionId l (db m) = None"
  shows "fst (appendBlock l c hid now m) = Inr None"
  using getBlock_consistent[OF assms(1), of l] assms(2) by (auto simp: appendBlock_def)

lemma replaceBlock_absent:
  assumes "consistent m" "db_getBlockByLabel sessionId l (db m) = None"
  shows "fst (replaceBlock l old new hid now m) = Inr None"
  using getBlock_consistent[OF assms(1), of l] assms(2) by (auto simp: replaceBlock_def)

text \<open>
  C6: the executors of \<^verbatim>\<open>memory_append\<close> and \<^verbatim>\<open>memory_replace\<close> always return a result and
  never an error. An error thrown by the manager is returned as a result whose text ends with
  the message of the error and whose details carry the message; when the manager returns
  \<^verbatim>\<open>undefined\<close>, as it does for a label the store does not have, the result names the
  label as not found and points to \<^verbatim>\<open>memory_list\<close>.
\<close>

theorem tool_executors_catch:
  "(\<exists>r m'. memory_append_execute l c hid now m = (Inr r, m'))
   \<and> (\<exists>r m'. memory_replace_execute l old_content new hid now m = (Inr r, m'))
   \<and> (\<forall>e. fst (appendBlock l c hid now m) = Inl e \<longrightarrow>
         fst (memory_append_execute l c hid now m) =
           Inr \<lparr>content = [TextContent (lit ''Error appending to memory: '' @ message e)],
                details = DetailsError (message e)\<rparr>)
   \<and> (\<forall>e. fst (replaceBlock l (case old_content of None \<Rightarrow> [] | Some x \<Rightarrow> x) new hid now m)
           = Inl e \<longrightarrow>
         fst (memory_replace_execute l old_content new hid now m) =
           Inr \<lparr>content = [TextContent (lit ''Error updating memory: '' @ message e)],
                details = DetailsError (message e)\<rparr>)
   \<and> (fst (appendBlock l c hid now m) = Inr None \<longrightarrow>
         fst (memory_append_execute l c hid now m) =
           Inr \<lparr>content = [TextContent (lit ''Error: Memory block '' @ apostrophe @ l
                   @ apostrophe @ lit '' not found. Use memory_list to see available blocks.'')],
                details = DetailsError (lit ''Block not found'')\<rparr>)
   \<and> (fst (replaceBlock l (case old_content of None \<Rightarrow> [] | Some x \<Rightarrow> x) new hid now m)
           = Inr None \<longrightarrow>
         fst (memory_replace_execute l old_content new hid now m) =
           Inr \<lparr>content = [TextContent (lit ''Error: Memory block '' @ apostrophe @ l
                   @ apostrophe @ lit '' not found. Use memory_list to see available blocks.'')],
                details = DetailsError (lit ''Block not found'')\<rparr>)
   \<and> (consistent m \<longrightarrow> db_getBlockByLabel sessionId l (db m) = None \<longrightarrow>
         fst (appendBlock l c hid now m) = Inr None
         \<and> fst (replaceBlock l (case old_content of None \<Rightarrow> [] | Some x \<Rightarrow> x) new hid now m)
             = Inr None)"
proof -
  obtain ra ma where a: "appendBlock l c hid now m = (ra, ma)" by (cases "appendBlock l c hid now m")
  obtain rr mr
    where r: "replaceBlock l (case old_content of None \<Rightarrow> [] | Some x \<Rightarrow> x) new hid now m = (rr, mr)"
    by (cases "replaceBlock l (case old_content of None \<Rightarrow> [] | Some x \<Rightarrow> x) new hid now m")
  show ?thesis
    using appendBlock_absent[of m l c hid now]
      replaceBlock_absent[of m l "case old_content of None \<Rightarrow> [] | Some x \<Rightarrow> x" new hid now]
    by (auto simp: memory_append_execute_def memory_replace_execute_def try_catch_def a r
          not_found_result_def split: sum.splits option.splits)
qed

lemma persona_consistent: "consistent persona_m"
  by (simp add: consistent_def wf_db_def stored_row_def persona_m_def persona_db_eq)

lemma persona_lookup:
  "db_getBlockByLabel sessionId (lit ''persona'') (db persona_m) = Some persona_stored"
  by (simp add: persona_m_def persona_db_eq db_defs lit_def persona_stored_def)

lemma persona_label: "b_label persona_stored = lit ''persona''"
  by (simp add: persona_stored_def)

text \<open>
  Appending to the read-only block \<^verbatim>\<open>persona\<close> returns the read-only message, and replacing
  in the absent block \<^verbatim>\<open>tasks\<close> returns the not-found text.
\<close>

theorem tool_executors_catch_witness:
  "fst (appendBlock (lit ''persona'') (lit ''x'') (lit ''h2'') (lit ''t1'') persona_m)
     = Inl (ReadOnlyModified (lit ''persona''))
   \<and> fst (memory_append_execute (lit ''persona'') (lit ''x'') (lit ''h2'') (lit ''t1'') persona_m) =
     Inr \<lparr>content = [TextContent
             (lit ''Error appending to memory: Block \"persona\" is read-only and cannot be modified'')],
          details = DetailsError (lit ''Block \"persona\" is read-only and cannot be modified'')\<rparr>
   \<and> consistent persona_m
   \<and> db_getBlockByLabel sessionId (lit ''tasks'') (db persona_m) = None
   \<and> fst (memory_replace_execute (lit ''tasks'') None (lit ''x'') (lit ''h2'') (lit ''t1'') persona_m) =
     Inr \<lparr>content = [TextContent
             (lit ''Error: Memory block 'tasks' not found. Use memory_list to see available blocks.'')],
          details = DetailsError (lit ''Block not found'')\<rparr>"
proof -
  have a: "fst (appendBlock (lit ''persona'') (lit ''x'') (lit ''h2'') (lit ''t1'') persona_m)
             = Inl (ReadOnlyModified (lit ''persona''))"
    using appendBlock_unfold[OF persona_consistent conjI[OF persona_lookup persona_label],
        of "lit ''x''" "lit ''h2''" "lit ''t1''"]
    by (auto simp: persona_stored_def)
  have n: "db_getBlockByLabel sessionId (lit ''tasks'') (db persona_m) = None"
    by (simp add: persona_m_def persona_db_eq db_defs lit_def)
  show ?thesis
    using tool_executors_catch [of "lit ''persona''" "lit ''x''" "lit ''h2''" "lit ''t1''" persona_m
        None "lit ''x''"]
      tool_executors_catch [of "lit ''tasks''" "lit ''x''" "lit ''h2''" "lit ''t1''" persona_m
        None "lit ''x''"] a n persona_consistent
    by (simp add: lit_def apostrophe_def)
qed

lemma GetSubstitution_literal:
  "36 \<notin> set template \<Longrightarrow> GetSubstitution matched str position template = template"
  by (induction matched str position template rule: GetSubstitution.induct) auto

lemma indexOf_first:
  "indexOf s search = Some position \<Longrightarrow>
     take (length search) (drop position s) = search
     \<and> (\<forall>j < position. take (length search) (drop j s) \<noteq> search)"
proof (induction s arbitrary: position)
  case Nil
  then show ?case by (simp split: if_splits)
next
  case (Cons x xs)
  show ?case
  proof (cases "take (length search) (x # xs) = search")
    case True
    with Cons.prems show ?thesis by simp
  next
    case False
    with Cons.prems obtain p where p: "indexOf xs search = Some p" "position = Suc p"
      by auto
    from Cons.IH[OF p(1)] False p(2) show ?thesis
      by (auto simp: less_Suc_eq_0_disj)
  qed
qed

lemma replace_first_literal:
  assumes "36 \<notin> set new" "indexOf s old = Some position"
  shows "replace_first s old new = take position s @ new @ drop (position + length old) s"
  using assms by (simp add: replace_first_def GetSubstitution_literal)

text \<open>
  The manager returns what the store returns: a successful \<^verbatim>\<open>MemoryManager.updateBlock\<close>
  raises the version by 1 as well.
\<close>

lemma updateBlock_version:
  assumes "consistent m" and "db_getBlockByLabel sessionId l (db m) = Some b"
      and "fst (updateBlock l u hid now m) = Inr (Some b')"
  shows "b_version b' = b_version b + 1
         \<and> db_getBlockByLabel sessionId l (db (snd (updateBlock l u hid now m))) = Some b'"
proof -
  from getBlock_consistent[OF assms(1), of l] assms(3) have "sqlite_text l = l"
    by (auto simp: updateBlock_def split: if_splits)
  with getBlockByLabel_label[OF assms(2)] assms(2)
  have lb: "db_getBlockByLabel sessionId l (db m) = Some b \<and> b_label b = l" by simp
  from assms(3) updateBlock_readOnly[OF assms(1) lb, of u hid now]
  have ro: "\<not> b_readOnly b" by auto
  from assms(3) updateBlock_invalid[OF assms(1) lb ro, where u=u and hid=hid and now=now]
  have v: "validate_length l u b = None" by (cases "validate_length l u b") auto
  from updateBlock_valid[OF assms(1) lb ro v, of hid now] assms(3)
  have "db_updateBlock sessionId l u hid now (db m)
      = (Inr (Some b'), db (snd (updateBlock l u hid now m)))"
    by (cases "db_updateBlock sessionId l u hid now (db m)") simp
  from db_updateBlock_success[OF assms(2) this] show ?thesis
    by (auto simp: row_to_block_def update_row_def)
qed

lemma updateBlock_only_value:
  assumes "consistent m" and "db_getBlockByLabel sessionId l (db m) = Some b \<and> b_label b = l"
      and "\<not> b_readOnly b" and "fresh_history_id hid (db m)"
      and "int (length v) \<le> b_charLimit b"
  shows "fst (updateBlock l (only_value v) hid now m) =
           Inr (Some (b\<lparr>b_value := sqlite_text v, b_updatedAt := now,
                       b_version := b_version b + 1\<rparr>))
         \<and> db_getBlockByLabel sessionId l (db (snd (updateBlock l (only_value v) hid now m))) =
           Some (b\<lparr>b_value := sqlite_text v, b_updatedAt := now,
                   b_version := b_version b + 1\<rparr>)"
proof -
  from assms(5) have "validate_length l (only_value v) b = None"
    by (simp add: validate_length_only_value)
  from updateBlock_succeeds[OF assms(1-3) this, of hid now] assms(4)
  show ?thesis by (auto simp: row_to_block_only_value)
qed

text \<open>
  What \<^verbatim>\<open>replaceBlock\<close> does when the new content holds no dollar sign, for a block of the
  store that is not read-only and a fresh history identifier: an old content that does not
  occur is rejected and the store is unchanged; an old content that occurs has its first
  occurrence replaced by the new content, and an empty old content gives the new content as
  the whole value, in both cases when the result is within the limit; the block is returned
  and stored with the new value, as the store holds it, and the next version.
\<close>

lemma replaceBlock_literal:
  assumes "consistent m" and "db_getBlockByLabel sessionId l (db m) = Some b \<and> b_label b = l"
      and "\<not> b_readOnly b" and "fresh_history_id hid (db m)"
  shows "(old \<noteq> [] \<and> indexOf (b_value b) old = None \<longrightarrow>
            fst (replaceBlock l old new hid now m) = Inl (ContentNotFound l)
            \<and> db (snd (replaceBlock l old new hid now m)) = db m)
       \<and> (\<forall>position. old \<noteq> [] \<and> indexOf (b_value b) old = Some position \<and> 36 \<notin> set new
            \<and> int (length (take position (b_value b) @ new
                    @ drop (position + length old) (b_value b))) \<le> b_charLimit b \<longrightarrow>
            fst (replaceBlock l old new hid now m) =
              Inr (Some (b\<lparr>b_value := sqlite_text (take position (b_value b) @ new
                            @ drop (position + length old) (b_value b)),
                          b_updatedAt := now, b_version := b_version b + 1\<rparr>))
            \<and> db_getBlockByLabel sessionId l (db (snd (replaceBlock l old new hid now m))) =
              Some (b\<lparr>b_value := sqlite_text (take position (b_value b) @ new
                            @ drop (position + length old) (b_value b)),
                          b_updatedAt := now, b_version := b_version b + 1\<rparr>))
       \<and> (int (length new) \<le> b_charLimit b \<longrightarrow>
            fst (replaceBlock l [] new hid now m) =
              Inr (Some (b\<lparr>b_value := sqlite_text new, b_updatedAt := now,
                          b_version := b_version b + 1\<rparr>))
            \<and> db_getBlockByLabel sessionId l (db (snd (replaceBlock l [] new hid now m))) =
              Some (b\<lparr>b_value := sqlite_text new, b_updatedAt := now,
                      b_version := b_version b + 1\<rparr>))"
proof (intro conjI allI impI)
  assume "old \<noteq> [] \<and> indexOf (b_value b) old = None"
  with replaceBlock_unfold[OF assms(1,2), of old new hid now] assms(3)
  show "fst (replaceBlock l old new hid now m) = Inl (ContentNotFound l)"
    and "db (snd (replaceBlock l old new hid now m)) = db m"
    by (auto simp: includes_str_def)
next
  fix position
  let ?nv = "take position (b_value b) @ new @ drop (position + length old) (b_value b)"
  assume a: "old \<noteq> [] \<and> indexOf (b_value b) old = Some position \<and> 36 \<notin> set new
            \<and> int (length ?nv) \<le> b_charLimit b"
  then have rf: "replace_first (b_value b) old new = ?nv"
    by (simp add: replace_first_literal)
  from replaceBlock_unfold[OF assms(1,2), of old new hid now] assms(3) a rf obtain m1
    where m1: "db m1 = db m" "consistent m1"
      "replaceBlock l old new hid now m = updateBlock l (only_value ?nv) hid now m1"
    by (auto simp: includes_str_def)
  from m1 assms have l1: "db_getBlockByLabel sessionId l (db m1) = Some b \<and> b_label b = l"
    and f1: "fresh_history_id hid (db m1)" by simp_all
  from a have len: "int (length ?nv) \<le> b_charLimit b" by simp
  from updateBlock_only_value[OF m1(2) l1 assms(3) f1 len, of now] m1(3)
  show "fst (replaceBlock l old new hid now m) =
          Inr (Some (b\<lparr>b_value := sqlite_text ?nv, b_updatedAt := now,
                      b_version := b_version b + 1\<rparr>))"
    and "db_getBlockByLabel sessionId l (db (snd (replaceBlock l old new hid now m))) =
          Some (b\<lparr>b_value := sqlite_text ?nv, b_updatedAt := now,
                  b_version := b_version b + 1\<rparr>)"
    by simp_all
next
  assume len: "int (length new) \<le> b_charLimit b"
  from replaceBlock_unfold[OF assms(1,2), of "[]" new hid now] assms(3) obtain m1
    where m1: "db m1 = db m" "consistent m1"
      "replaceBlock l [] new hid now m = updateBlock l (only_value new) hid now m1"
    by auto
  from m1 assms have l1: "db_getBlockByLabel sessionId l (db m1) = Some b \<and> b_label b = l"
    and f1: "fresh_history_id hid (db m1)" by simp_all
  from updateBlock_only_value[OF m1(2) l1 assms(3) f1 len, of now] m1(3)
  show "fst (replaceBlock l [] new hid now m) =
          Inr (Some (b\<lparr>b_value := sqlite_text new, b_updatedAt := now,
                      b_version := b_version b + 1\<rparr>))"
    and "db_getBlockByLabel sessionId l (db (snd (replaceBlock l [] new hid now m))) =
          Some (b\<lparr>b_value := sqlite_text new, b_updatedAt := now,
                  b_version := b_version b + 1\<rparr>)"
    by simp_all
qed

text \<open>
  C4 at a new content with a dollar sign: the example block has the value \<^verbatim>\<open>abc\<close>, in which
  \<^verbatim>\<open>b\<close> first occurs at position 1, so that replacing this occurrence by \<^verbatim>\<open>$$\<close> would give
  \<^verbatim>\<open>a$$c\<close>; \<^verbatim>\<open>replaceBlock\<close> returns and stores \<^verbatim>\<open>a$c\<close>, and for the new content
  \<^verbatim>\<open>[$&]\<close> it stores \<^verbatim>\<open>a[b]c\<close>.
\<close>

theorem replaceBlock_dollar_pattern:
  "db_getBlockByLabel sessionId (lit ''project'') (db ex_manager) = Some ex_block_stored
   \<and> indexOf (b_value ex_block_stored) (lit ''b'') = Some 1
   \<and> take 1 (b_value ex_block_stored) @ lit ''$$'' @ drop (1 + length (lit ''b'')) (b_value ex_block_stored)
       = lit ''a$$c''
   \<and> result_block (replaceBlock (lit ''project'') (lit ''b'') (lit ''$$'') (lit ''h2'') (lit ''t1'')
        ex_manager)
       = Some (ex_block_stored\<lparr>b_value := lit ''a$c'', b_updatedAt := lit ''t1'', b_version := 2\<rparr>)
   \<and> result_block (replaceBlock (lit ''project'') (lit ''b'') (lit ''[$&]'') (lit ''h2'') (lit ''t1'')
        ex_manager)
       = Some (ex_block_stored\<lparr>b_value := lit ''a[b]c'', b_updatedAt := lit ''t1'', b_version := 2\<rparr>)"
  by (simp add: ex_manager_def ex_db_eq result_block_def mgr_defs db_defs includes_str_def
        replace_first_def ex_block_stored_def lit_def Let_def)

section \<open>Properties of the history\<close>

lemma versions_of_append [simp]:
  "versions_of i (hist @ extra) = versions_of i hist @ versions_of i extra"
  by (simp add: versions_of_def)

lemma versions_of_other:
  "\<forall>h \<in> set extra. hr_block_id h \<noteq> i \<Longrightarrow> versions_of i extra = []"
  by (auto simp: versions_of_def filter_empty_conv)

lemma versions_of_filter:
  assumes "\<forall>h \<in> set hist. hr_block_id h = i \<longrightarrow> P h"
  shows "versions_of i (filter P hist) = versions_of i hist"
proof -
  have "filter (\<lambda>h. hr_block_id h = i) (filter P hist) = filter (\<lambda>h. hr_block_id h = i) hist"
    using assms by (induction hist) auto
  then show ?thesis by (simp add: versions_of_def)
qed

lemma count_list_absent: "v \<notin> set xs \<Longrightarrow> count_list xs v = 0"
  by (induction xs) auto

lemma row_history_ok_append:
  assumes "row_history_ok S hist r" "\<forall>h \<in> set extra. hr_block_id h \<noteq> r_id r"
  shows "row_history_ok S (hist @ extra) r"
proof -
  from assms(2) have v: "versions_of (r_id r) (hist @ extra) = versions_of (r_id r) hist"
    by (simp add: versions_of_other)
  from assms have "\<exists>h \<in> set (hist @ extra). hr_block_id h = r_id r \<and> hr_value h = r_value r
      \<and> (\<forall>h' \<in> set (hist @ extra). hr_block_id h' = r_id r \<longrightarrow> hr_version h' \<le> hr_version h)"
    unfolding row_history_ok_def by (auto 4 3)
  with assms(1) show ?thesis unfolding row_history_ok_def v by blast
qed

lemma row_history_ok_filter:
  assumes "row_history_ok S hist r" "\<forall>h \<in> set hist. hr_block_id h = r_id r \<longrightarrow> P h"
  shows "row_history_ok S (filter P hist) r"
proof -
  from assms(2) have v: "versions_of (r_id r) (filter P hist) = versions_of (r_id r) hist"
    by (rule versions_of_filter)
  from assms have "\<exists>h \<in> set (filter P hist). hr_block_id h = r_id r \<and> hr_value h = r_value r
      \<and> (\<forall>h' \<in> set (filter P hist). hr_block_id h' = r_id r \<longrightarrow> hr_version h' \<le> hr_version h)"
    unfolding row_history_ok_def by (auto 4 3)
  with assms(1) show ?thesis unfolding row_history_ok_def v by blast
qed

lemma row_history_ok_skips:
  assumes "row_history_ok S hist r" "\<And>v. (r_id r, v) \<in> set S' \<longleftrightarrow> (r_id r, v) \<in> set S"
  shows "row_history_ok S' hist r"
  using assms(1) unfolding row_history_ok_def assms(2) .

lemma row_history_ok_update_none:
  assumes "row_history_ok S hist r" "u_value u = None"
  shows "row_history_ok ((r_id r, r_version r + 1) # S) hist
           (update_row u now (r_version r + 1) r)"
proof -
  let ?r = "update_row u now (r_version r + 1) r"
  let ?S = "(r_id r, r_version r + 1) # S"
  let ?vs = "versions_of (r_id r) hist"
  have f: "r_id ?r = r_id r" "r_version ?r = r_version r + 1" "r_value ?r = r_value r"
    using assms(2) by (simp_all add: update_row_def)
  from assms(1) have a: "1 \<le> r_version r"
    and b: "\<forall>v \<in> set ?vs. 1 \<le> v \<and> v \<le> r_version r"
    and c: "\<forall>v. 1 \<le> v \<and> v \<le> r_version r \<longrightarrow>
          count_list ?vs v = (if (r_id r, v) \<in> set S then 0 else 1)"
    and d: "\<forall>v. (r_id r, v) \<in> set S \<longrightarrow> 2 \<le> v \<and> v \<le> r_version r"
    and e: "\<exists>h \<in> set hist. hr_block_id h = r_id r \<and> hr_value h = r_value r
          \<and> (\<forall>h' \<in> set hist. hr_block_id h' = r_id r \<longrightarrow> hr_version h' \<le> hr_version h)"
    by (simp_all add: row_history_ok_def)
  from b have "r_version r + 1 \<notin> set ?vs" by auto
  then have z: "count_list ?vs (r_version r + 1) = 0" by (rule count_list_absent)
  have 1: "1 \<le> r_version ?r" using a f by simp
  have 2: "\<forall>v \<in> set (versions_of (r_id ?r) hist). 1 \<le> v \<and> v \<le> r_version ?r"
    using b f by auto
  have 3: "\<forall>v. 1 \<le> v \<and> v \<le> r_version ?r \<longrightarrow>
          count_list (versions_of (r_id ?r) hist) v = (if (r_id ?r, v) \<in> set ?S then 0 else 1)"
  proof (intro allI impI)
    fix v assume v: "1 \<le> v \<and> v \<le> r_version ?r"
    show "count_list (versions_of (r_id ?r) hist) v = (if (r_id ?r, v) \<in> set ?S then 0 else 1)"
    proof (cases "v = r_version r + 1")
      case True
      with z f show ?thesis by simp
    next
      case False
      with v f have "1 \<le> v \<and> v \<le> r_version r" by simp
      with c False f show ?thesis by simp
    qed
  qed
  have 4: "\<forall>v. (r_id ?r, v) \<in> set ?S \<longrightarrow> 2 \<le> v \<and> v \<le> r_version ?r"
    using d a f by auto
  have 5: "\<exists>h \<in> set hist. hr_block_id h = r_id ?r \<and> hr_value h = r_value ?r
          \<and> (\<forall>h' \<in> set hist. hr_block_id h' = r_id ?r \<longrightarrow> hr_version h' \<le> hr_version h)"
    using e f by simp
  from 1 2 3 4 5 show ?thesis unfolding row_history_ok_def by blast
qed

lemma row_history_ok_update_value:
  assumes "row_history_ok S hist r" "u_value u = Some x"
  shows "row_history_ok S
           (hist @ [\<lparr>hr_id = hid, hr_block_id = r_id r, hr_label = l, hr_value = sqlite_text x,
                     hr_version = r_version r + 1, hr_created_at = now, hr_created_by = c\<rparr>])
           (update_row u now (r_version r + 1) r)"
proof -
  let ?h = "\<lparr>hr_id = hid, hr_block_id = r_id r, hr_label = l, hr_value = sqlite_text x,
                     hr_version = r_version r + 1, hr_created_at = now, hr_created_by = c\<rparr>"
  let ?r = "update_row u now (r_version r + 1) r"
  let ?vs = "versions_of (r_id r) hist"
  have f: "r_id ?r = r_id r" "r_version ?r = r_version r + 1" "r_value ?r = sqlite_text x"
    using assms(2) by (simp_all add: update_row_def)
  have vs: "versions_of (r_id ?r) (hist @ [?h]) = ?vs @ [r_version r + 1]"
    using f by (simp add: versions_of_def)
  from assms(1) have a: "1 \<le> r_version r"
    and b: "\<forall>v \<in> set ?vs. 1 \<le> v \<and> v \<le> r_version r"
    and c: "\<forall>v. 1 \<le> v \<and> v \<le> r_version r \<longrightarrow>
          count_list ?vs v = (if (r_id r, v) \<in> set S then 0 else 1)"
    and d: "\<forall>v. (r_id r, v) \<in> set S \<longrightarrow> 2 \<le> v \<and> v \<le> r_version r"
    by (simp_all add: row_history_ok_def)
  have b': "\<forall>h \<in> set hist. hr_block_id h = r_id r \<longrightarrow> hr_version h \<le> r_version r"
    using b by (auto simp: versions_of_def)
  from b have "r_version r + 1 \<notin> set ?vs" by auto
  then have z: "count_list ?vs (r_version r + 1) = 0" by (rule count_list_absent)
  from d have ns: "(r_id r, r_version r + 1) \<notin> set S" by auto
  have 1: "1 \<le> r_version ?r" using a f by simp
  have 2: "\<forall>v \<in> set (versions_of (r_id ?r) (hist @ [?h])). 1 \<le> v \<and> v \<le> r_version ?r"
    unfolding vs using b a f by auto
  have 3: "\<forall>v. 1 \<le> v \<and> v \<le> r_version ?r \<longrightarrow>
          count_list (versions_of (r_id ?r) (hist @ [?h])) v
            = (if (r_id ?r, v) \<in> set S then 0 else 1)"
  proof (intro allI impI)
    fix v assume v: "1 \<le> v \<and> v \<le> r_version ?r"
    show "count_list (versions_of (r_id ?r) (hist @ [?h])) v
            = (if (r_id ?r, v) \<in> set S then 0 else 1)"
    proof (cases "v = r_version r + 1")
      case True
      with z ns f show ?thesis unfolding vs by simp
    next
      case False
      with v f have "1 \<le> v \<and> v \<le> r_version r" by simp
      with c False f show ?thesis unfolding vs by simp
    qed
  qed
  have 4: "\<forall>v. (r_id ?r, v) \<in> set S \<longrightarrow> 2 \<le> v \<and> v \<le> r_version ?r"
    using d f by auto
  have "hr_block_id ?h = r_id ?r \<and> hr_value ?h = r_value ?r
          \<and> (\<forall>h' \<in> set (hist @ [?h]). hr_block_id h' = r_id ?r \<longrightarrow> hr_version h' \<le> hr_version ?h)"
    using b' f by auto
  then have 5: "\<exists>h \<in> set (hist @ [?h]). hr_block_id h = r_id ?r \<and> hr_value h = r_value ?r
          \<and> (\<forall>h' \<in> set (hist @ [?h]). hr_block_id h' = r_id ?r \<longrightarrow> hr_version h' \<le> hr_version h)"
    by (intro bexI[of _ ?h]) simp_all
  from 1 2 3 4 5 show ?thesis unfolding row_history_ok_def by blast
qed

lemma row_history_ok_new:
  assumes "\<forall>h \<in> set hist. hr_block_id h \<noteq> i" "\<forall>e \<in> set S. fst e \<noteq> i"
  shows "row_history_ok S
           (hist @ [\<lparr>hr_id = hid, hr_block_id = i, hr_label = l,
                     hr_value = sqlite_text (case c_value block of None \<Rightarrow> [] | Some v \<Rightarrow> v),
                     hr_version = 1, hr_created_at = now, hr_created_by = c\<rparr>])
           (new_row i sid block now)"
proof -
  let ?h = "\<lparr>hr_id = hid, hr_block_id = i, hr_label = l,
                     hr_value = sqlite_text (case c_value block of None \<Rightarrow> [] | Some v \<Rightarrow> v),
                     hr_version = 1, hr_created_at = now, hr_created_by = c\<rparr>"
  let ?r = "new_row i sid block now"
  have f: "r_id ?r = i" "r_version ?r = 1"
    "r_value ?r = sqlite_text (case c_value block of None \<Rightarrow> [] | Some v \<Rightarrow> v)"
    by (simp_all add: new_row_def)
  from assms(1) have vs: "versions_of (r_id ?r) (hist @ [?h]) = [1]"
    by (simp add: versions_of_other) (simp add: versions_of_def)
  from assms(2) have ns: "\<And>v. (i, v) \<notin> set S" by force
  have 5: "\<exists>h \<in> set (hist @ [?h]). hr_block_id h = r_id ?r \<and> hr_value h = r_value ?r
          \<and> (\<forall>h' \<in> set (hist @ [?h]). hr_block_id h' = r_id ?r \<longrightarrow> hr_version h' \<le> hr_version h)"
    using assms(1) f by (intro bexI[of _ ?h]) auto
  show ?thesis unfolding row_history_ok_def vs using f ns 5 by auto
qed

lemma store_inv_empty: "store_inv empty_db []"
  by (simp add: store_inv_def wf_db_def references_ok_def history_inv_def empty_db_def)

lemma store_inv_create:
  assumes "store_inv d S" "fresh_history_id hid d"
  shows "store_inv (snd (db_createBlock sid block i hid now d)) S"
proof -
  let ?new = "new_row i sid block now"
  let ?h = "\<lparr>hr_id = hid, hr_block_id = i, hr_label = sqlite_text (c_label block),
                     hr_value = sqlite_text (case c_value block of None \<Rightarrow> [] | Some v \<Rightarrow> v),
                     hr_version = 1, hr_created_at = now, hr_created_by = lit ''agent''\<rparr>"
  let ?d2 = "\<lparr>memory_blocks = memory_blocks d @ [?new],
              memory_block_history = memory_block_history d @ [?h]\<rparr>"
  from db_createBlock_fresh[OF assms(2), of sid block i now]
  consider (fail) "snd (db_createBlock sid block i hid now d) = d"
    | (ok) "i \<notin> set (map r_id (memory_blocks d))"
        "\<forall>r \<in> set (memory_blocks d). \<not> matches sid (c_label block) r"
        "snd (db_createBlock sid block i hid now d) = ?d2"
    by auto
  then show ?thesis
  proof cases
    case fail
    with assms(1) show ?thesis by simp
  next
    case ok
    from assms(1) have wf: "wf_db d" and fk: "references_ok d"
      and hi: "\<forall>r \<in> set (memory_blocks d). row_history_ok S (memory_block_history d) r"
      and sk: "\<forall>e \<in> set S. fst e \<in> set (map r_id (memory_blocks d))"
      by (simp_all add: store_inv_def history_inv_def)
    have wf': "wf_db ?d2" using wf ok(1,2) by (auto simp: wf_db_def matches_def)
    have fk': "references_ok ?d2" using fk by (auto simp: references_ok_def)
    from fk ok(1) have noh: "\<forall>h \<in> set (memory_block_history d). hr_block_id h \<noteq> i"
      by (auto simp: references_ok_def)
    from sk ok(1) have nos: "\<forall>e \<in> set S. fst e \<noteq> i" by auto
    have "\<forall>r \<in> set (memory_blocks d). row_history_ok S (memory_block_history d @ [?h]) r"
    proof
      fix r assume r: "r \<in> set (memory_blocks d)"
      with ok(1) have "r_id r \<noteq> i" by auto
      with hi r show "row_history_ok S (memory_block_history d @ [?h]) r"
        by (intro row_history_ok_append) auto
    qed
    moreover have "row_history_ok S (memory_block_history d @ [?h]) ?new"
      using noh nos by (rule row_history_ok_new)
    ultimately have hi': "history_inv ?d2 S" using sk by (auto simp: history_inv_def)
    from wf' fk' hi' ok(3) show ?thesis by (simp add: store_inv_def)
  qed
qed

lemma store_inv_update:
  assumes "store_inv d S" "fresh_history_id hid d"
  shows "store_inv (snd (db_updateBlock sid l u hid now d)) (update_skips sid l u d @ S)"
proof (cases "db_getBlockByLabel sid l d")
  case None
  with assms(1) show ?thesis
    by (simp add: db_updateBlock_def update_skips_def split: option.splits)
next
  case (Some b)
  from assms(1) have wf: "wf_db d" and fk: "references_ok d"
    and hi: "\<forall>r \<in> set (memory_blocks d). row_history_ok S (memory_block_history d) r"
    and sk: "\<forall>e \<in> set S. fst e \<in> set (map r_id (memory_blocks d))"
    by (simp_all add: store_inv_def history_inv_def)
  let ?f = "\<lambda>r. if matches sid l r then update_row u now (b_version b + 1) r else r"
  let ?extra = "case u_value u of None \<Rightarrow> []
              | Some v \<Rightarrow> [\<lparr>hr_id = hid, hr_block_id = b_id b, hr_label = sqlite_text l,
                  hr_value = sqlite_text v, hr_version = b_version b + 1,
                  hr_created_at = now, hr_created_by = lit ''agent''\<rparr>]"
  let ?S = "update_skips sid l u d @ S"
  from db_updateBlock_fresh[OF Some, of u hid now] assms(2) obtain r0 d'
    where r0: "find (matches sid l) (memory_blocks d) = Some r0" "b = row_to_block r0"
      and d': "snd (db_updateBlock sid l u hid now d) = d'"
        "memory_blocks d' = map ?f (memory_blocks d)"
        "memory_block_history d' = memory_block_history d @ ?extra"
    by auto
  from find_SomeD[OF r0(1)] have r0in: "r0 \<in> set (memory_blocks d)" "matches sid l r0" by auto
  from r0(2) have bv: "b_version b = r_version r0" "b_id b = r_id r0"
    by (simp_all add: row_to_block_def)
  have S: "?S = (case u_value u of None \<Rightarrow> [(r_id r0, r_version r0 + 1)] | Some v \<Rightarrow> []) @ S"
    using Some bv by (simp add: update_skips_def split: option.splits)
  have wf': "wf_db d'" using wf d'(2) by (rule wf_db_update)
  have ids: "set (map r_id (memory_blocks d')) = set (map r_id (memory_blocks d))"
    by (simp add: d'(2) r_id_update_comp)
  have extra_id: "\<forall>h \<in> set ?extra. hr_block_id h = r_id r0"
    using bv by (auto split: option.splits)
  have fk': "references_ok d'"
    unfolding references_ok_def ids d'(3)
    using fk r0in(1) extra_id by (auto simp: references_ok_def)
  have "\<forall>r \<in> set (memory_blocks d). row_history_ok ?S (memory_block_history d') (?f r)"
  proof
    fix r assume r: "r \<in> set (memory_blocks d)"
    with hi have ok: "row_history_ok S (memory_block_history d) r" by simp
    show "row_history_ok ?S (memory_block_history d') (?f r)"
    proof (cases "matches sid l r")
      case True
      with wf r r0in have "r = r0" by (auto intro: wf_db_match_unique)
      with ok True bv show ?thesis
        using row_history_ok_update_none[of S "memory_block_history d" r0 u now]
          row_history_ok_update_value[of S "memory_block_history d" r0 u _ hid "sqlite_text l" now
            "lit ''agent''"]
        by (cases "u_value u") (auto simp: d'(3) S)
    next
      case False
      with r0in have "r \<noteq> r0" by auto
      with wf r r0in(1) have ne: "r_id r \<noteq> r_id r0" by (auto dest: wf_db_id_unique)
      with extra_id have "\<forall>h \<in> set ?extra. hr_block_id h \<noteq> r_id r" by auto
      from row_history_ok_append[OF ok this]
      have "row_history_ok S (memory_block_history d') r" by (simp add: d'(3))
      moreover have "\<And>v. (r_id r, v) \<in> set ?S \<longleftrightarrow> (r_id r, v) \<in> set S"
        using ne unfolding S by (auto split: option.splits)
      ultimately have "row_history_ok ?S (memory_block_history d') r"
        by (rule row_history_ok_skips)
      with False show ?thesis by simp
    qed
  qed
  moreover have "\<forall>e \<in> set ?S. fst e \<in> set (map r_id (memory_blocks d'))"
    unfolding ids S using sk r0in(1) by (auto split: option.splits)
  ultimately have hi': "history_inv d' ?S" unfolding history_inv_def d'(2) by auto
  from wf' fk' hi' d'(1) show ?thesis by (simp add: store_inv_def)
qed

lemma store_inv_filter:
  assumes "store_inv d S"
  shows "store_inv \<lparr>memory_blocks = filter (\<lambda>r. \<not> P r) (memory_blocks d),
           memory_block_history =
             filter (\<lambda>h. hr_block_id h \<notin> set (map r_id (filter P (memory_blocks d))))
               (memory_block_history d)\<rparr>
           (filter (\<lambda>e. fst e \<in> set (map r_id (filter (\<lambda>r. \<not> P r) (memory_blocks d)))) S)"
proof -
  let ?gone = "set (map r_id (filter P (memory_blocks d)))"
  let ?rows = "filter (\<lambda>r. \<not> P r) (memory_blocks d)"
  let ?hist = "filter (\<lambda>h. hr_block_id h \<notin> ?gone) (memory_block_history d)"
  let ?S = "filter (\<lambda>e. fst e \<in> set (map r_id ?rows)) S"
  from assms have wf: "wf_db d" and fk: "references_ok d"
    and hi: "\<forall>r \<in> set (memory_blocks d). row_history_ok S (memory_block_history d) r"
    by (simp_all add: store_inv_def history_inv_def)
  have kept: "\<And>r. r \<in> set (memory_blocks d) \<Longrightarrow> \<not> P r \<Longrightarrow> r_id r \<notin> ?gone"
    using wf by (auto dest: wf_db_id_unique)
  have wf': "wf_db \<lparr>memory_blocks = ?rows, memory_block_history = ?hist\<rparr>"
    using wf by (auto simp: wf_db_def distinct_map_filter list_all_iff)
  have fk': "references_ok \<lparr>memory_blocks = ?rows, memory_block_history = ?hist\<rparr>"
    using fk by (auto simp: references_ok_def)
  have "\<forall>r \<in> set ?rows. row_history_ok ?S ?hist r"
  proof
    fix r assume "r \<in> set ?rows"
    then have r: "r \<in> set (memory_blocks d)" "\<not> P r" by auto
    from hi r(1) have ok: "row_history_ok S (memory_block_history d) r" by simp
    from kept[OF r] have "\<forall>h \<in> set (memory_block_history d).
        hr_block_id h = r_id r \<longrightarrow> hr_block_id h \<notin> ?gone" by simp
    with ok have "row_history_ok S ?hist r" by (rule row_history_ok_filter)
    moreover have "\<And>v. (r_id r, v) \<in> set ?S \<longleftrightarrow> (r_id r, v) \<in> set S"
      using r by auto
    ultimately show "row_history_ok ?S ?hist r" by (rule row_history_ok_skips)
  qed
  then have hi': "history_inv \<lparr>memory_blocks = ?rows, memory_block_history = ?hist\<rparr> ?S"
    by (simp add: history_inv_def)
  from wf' fk' hi' show ?thesis by (simp add: store_inv_def)
qed

lemma store_inv_delete:
  "store_inv d S \<Longrightarrow>
     store_inv (snd (db_deleteBlock sid l d)) (live_skips (snd (db_deleteBlock sid l d)) S)"
  using store_inv_filter[of d S "matches sid l"]
  by (simp add: db_deleteBlock_def live_skips_def Let_def)

lemma store_inv_deleteSession:
  "store_inv d S \<Longrightarrow>
     store_inv (db_deleteSessionMemory sid d) (live_skips (db_deleteSessionMemory sid d) S)"
  using store_inv_filter[of d S "\<lambda>r. r_session_id r = sqlite_text sid"]
  by (simp add: db_deleteSessionMemory_def live_skips_def Let_def)

lemma reachable_store_inv: "reachable d S \<Longrightarrow> store_inv d S"
  by (induction rule: reachable.induct)
    (simp_all add: store_inv_empty store_inv_create store_inv_update store_inv_delete
       store_inv_deleteSession)

lemma set_getBlockHistory:
  "db_getBlockByLabel sid l d = Some b \<Longrightarrow>
     set (db_getBlockHistory sid l d)
       = history_of_row ` {h \<in> set (memory_block_history d). hr_block_id h = b_id b}"
  by (auto simp: db_getBlockHistory_def)

lemma history_of_row_fields [simp]:
  "h_version (history_of_row h) = hr_version h" "h_value (history_of_row h) = hr_value h"
  "h_blockId (history_of_row h) = hr_block_id h"
  by (simp_all add: history_of_row_def)

lemma count_list_map: "count_list (map f ys) v = length (filter (\<lambda>y. f y = v) ys)"
  by (induction ys) auto

lemma count_getBlockHistory:
  assumes "db_getBlockByLabel sid l d = Some b"
  shows "count_list (map h_version (db_getBlockHistory sid l d)) v
           = count_list (versions_of (b_id b) (memory_block_history d)) v"
proof -
  let ?xs = "filter (\<lambda>h. hr_block_id h = b_id b) (memory_block_history d)"
  have "map h_version (db_getBlockHistory sid l d) = map hr_version (rev (sort_key hr_version ?xs))"
    using assms by (simp add: db_getBlockHistory_def comp_def)
  then have "count_list (map h_version (db_getBlockHistory sid l d)) v
      = length (filter (\<lambda>h. hr_version h = v) (rev (sort_key hr_version ?xs)))"
    by (simp add: count_list_map)
  also have "\<dots> = length (filter (\<lambda>h. hr_version h = v) (sort_key hr_version ?xs))"
    by (simp flip: rev_filter)
  also have "\<dots> = length (filter (\<lambda>h. hr_version h = v) ?xs)"
    by (simp add: filter_sort)
  also have "\<dots> = count_list (versions_of (b_id b) (memory_block_history d)) v"
    by (simp add: versions_of_def count_list_map)
  finally show ?thesis .
qed

lemma insort_key_snoc:
  "f a \<le> f y \<Longrightarrow> insort_key f a (zs @ [y]) = insort_key f a zs @ [y]"
  by (induction zs) auto

lemma sort_key_snoc:
  "\<forall>x \<in> set xs. f x \<le> f y \<Longrightarrow> sort_key f (xs @ [y]) = sort_key f xs @ [y]"
  by (induction xs) (auto simp: insort_key_snoc)

text \<open>
  What an update of the store does to the history of the block it changes: with a value, the
  new row comes first in the history, which is in descending order of the versions; without
  a value, the history is as before.
\<close>

lemma getBlockHistory_update:
  assumes "db_getBlockByLabel sid l d = Some b"
      and "u_value u = None \<or> fresh_history_id hid d"
      and "\<forall>h \<in> set (memory_block_history d). hr_block_id h = b_id b \<longrightarrow> hr_version h \<le> b_version b"
  shows "db_getBlockHistory sid l (snd (db_updateBlock sid l u hid now d)) =
           (case u_value u of None \<Rightarrow> []
            | Some x \<Rightarrow> [\<lparr>h_id = hid, h_blockId = b_id b, h_label = sqlite_text l,
                h_value = sqlite_text x, h_version = b_version b + 1, h_createdAt = now,
                h_createdAtBy = lit ''agent''\<rparr>])
           @ db_getBlockHistory sid l d"
proof -
  from db_updateBlock_fresh[OF assms(1,2), of now] obtain r d'
    where r: "find (matches sid l) (memory_blocks d) = Some r" "b = row_to_block r"
      and u: "db_updateBlock sid l u hid now d =
             (Inr (Some (row_to_block (update_row u now (b_version b + 1) r))), d')"
      and h: "memory_block_history d' = memory_block_history d @
             (case u_value u of None \<Rightarrow> []
              | Some v \<Rightarrow> [\<lparr>hr_id = hid, hr_block_id = b_id b, hr_label = sqlite_text l,
                  hr_value = sqlite_text v, hr_version = b_version b + 1,
                  hr_created_at = now, hr_created_by = lit ''agent''\<rparr>])"
    by blast
  from db_updateBlock_success[OF assms(1) u]
  have g: "db_getBlockByLabel sid l d' = Some (row_to_block (update_row u now (b_version b + 1) r))"
    by auto
  have i: "b_id (row_to_block (update_row u now (b_version b + 1) r)) = b_id b"
    using r(2) by (simp add: update_row_def)
  let ?xs = "filter (\<lambda>h. hr_block_id h = b_id b) (memory_block_history d)"
  from assms(3) have le: "\<And>y. hr_version y = b_version b + 1 \<Longrightarrow>
      \<forall>x \<in> set ?xs. hr_version x \<le> hr_version y" by auto
  show ?thesis
  proof (cases "u_value u")
    case None
    with g i h u assms(1) show ?thesis by (simp add: db_getBlockHistory_def)
  next
    case (Some x)
    let ?h = "\<lparr>hr_id = hid, hr_block_id = b_id b, hr_label = sqlite_text l,
                  hr_value = sqlite_text x, hr_version = b_version b + 1,
                  hr_created_at = now, hr_created_by = lit ''agent''\<rparr>"
    have "sort_key hr_version (?xs @ [?h]) = sort_key hr_version ?xs @ [?h]"
      by (rule sort_key_snoc) (use le[of ?h] in simp)
    with g i h u assms(1) Some show ?thesis
      by (simp add: db_getBlockHistory_def history_of_row_def)
  qed
qed

lemma distinct_count_list: "(\<forall>v \<in> set xs. count_list xs v \<le> 1) \<Longrightarrow> distinct xs"
proof (induction xs)
  case Nil
  then show ?case by simp
next
  case (Cons x xs)
  from Cons.prems have "count_list xs x = 0" by simp
  then have nx: "x \<notin> set xs" by (simp add: count_list_0_iff)
  have "\<forall>v \<in> set xs. count_list xs v \<le> 1"
  proof
    fix v assume v: "v \<in> set xs"
    with Cons.prems have "count_list (x # xs) v \<le> 1" by simp
    then show "count_list xs v \<le> 1" by (simp split: if_splits)
  qed
  with Cons.IH nx show ?case by simp
qed

lemma versions_getBlockHistory:
  assumes "db_getBlockByLabel sid l d = Some b"
  shows "map h_version (db_getBlockHistory sid l d)
           = rev (map hr_version (sort_key hr_version
               (filter (\<lambda>h. hr_block_id h = b_id b) (memory_block_history d))))"
  using assms by (simp add: db_getBlockHistory_def comp_def rev_map)

lemma sorted_getBlockHistory:
  assumes "db_getBlockByLabel sid l d = Some b"
  shows "sorted (rev (map h_version (db_getBlockHistory sid l d)))"
  unfolding versions_getBlockHistory[OF assms] by simp

text \<open>
  C2, as the store has it: in every store reached from the empty one by creates, updates
  and deletes (with fresh history identifiers), every block has a version of at least 1, and
  for every version from 1 to the version of the block the history of the block has exactly
  one row of this version, unless an update that supplied no value has written the version
  (the log holds it), in which case it has none. Version 1, which the create writes, is
  never such a version. The history rows of the block have versions between 1 and the version
  of the block, no two of them the same version, in descending order, and the row of the
  greatest version holds the value of the block. An update
  that supplies a value writes the history row of the new version, with the value as the
  store holds it, and this row comes first in the history; an update that supplies no value
  leaves the history as it is, and its version is the one added to the log.
\<close>

theorem history_versions:
  assumes "reachable d S" and "db_getBlockByLabel sid l d = Some b"
  shows "1 \<le> b_version b
       \<and> (1 \<le> v \<and> v \<le> b_version b \<longrightarrow>
            count_list (map h_version (db_getBlockHistory sid l d)) v
              = (if (b_id b, v) \<in> set S then 0 else 1))
       \<and> (b_id b, 1) \<notin> set S
       \<and> (\<forall>h \<in> set (db_getBlockHistory sid l d). 1 \<le> h_version h \<and> h_version h \<le> b_version b)
       \<and> distinct (map h_version (db_getBlockHistory sid l d))
       \<and> sorted (rev (map h_version (db_getBlockHistory sid l d)))
       \<and> (\<exists>h \<in> set (db_getBlockHistory sid l d). h_value h = b_value b
            \<and> (\<forall>h' \<in> set (db_getBlockHistory sid l d). h_version h' \<le> h_version h))
       \<and> (u_value u = Some x \<longrightarrow> fresh_history_id hid d \<longrightarrow>
            db_getBlockHistory sid l (snd (db_updateBlock sid l u hid now d)) =
              \<lparr>h_id = hid, h_blockId = b_id b, h_label = sqlite_text l, h_value = sqlite_text x,
                h_version = b_version b + 1, h_createdAt = now, h_createdAtBy = lit ''agent''\<rparr>
              # db_getBlockHistory sid l d
            \<and> update_skips sid l u d = [])
       \<and> (u_value u = None \<longrightarrow>
            db_getBlockHistory sid l (snd (db_updateBlock sid l u hid now d))
              = db_getBlockHistory sid l d
            \<and> update_skips sid l u d = [(b_id b, b_version b + 1)])"
proof -
  from assms(2) obtain r where r: "find (matches sid l) (memory_blocks d) = Some r"
      "b = row_to_block r"
    by (auto simp: db_getBlockByLabel_def)
  from find_SomeD[OF r(1)] have rin: "r \<in> set (memory_blocks d)" by simp
  from reachable_store_inv[OF assms(1)] rin
  have ok: "row_history_ok S (memory_block_history d) r"
    by (simp add: store_inv_def history_inv_def)
  from r(2) have f: "b_version b = r_version r" "b_id b = r_id r" "b_value b = r_value r"
    by (simp_all add: row_to_block_def)
  note s = set_getBlockHistory[OF assms(2)]
  note c = count_getBlockHistory[OF assms(2)]
  from ok f have 1: "1 \<le> b_version b" by (simp add: row_history_ok_def)
  from ok f have 2: "1 \<le> v \<and> v \<le> b_version b \<longrightarrow>
            count_list (map h_version (db_getBlockHistory sid l d)) v
              = (if (b_id b, v) \<in> set S then 0 else 1)"
    unfolding c row_history_ok_def by simp
  from ok f have 3: "(b_id b, 1) \<notin> set S"
    unfolding row_history_ok_def by force
  from ok f have bound: "\<forall>h \<in> set (memory_block_history d). hr_block_id h = b_id b \<longrightarrow>
      1 \<le> hr_version h \<and> hr_version h \<le> b_version b"
    unfolding row_history_ok_def versions_of_def by auto
  then have 4: "\<forall>h \<in> set (db_getBlockHistory sid l d).
      1 \<le> h_version h \<and> h_version h \<le> b_version b"
    unfolding s by auto
  from ok obtain h where h: "h \<in> set (memory_block_history d)" "hr_block_id h = r_id r"
      "hr_value h = r_value r"
      "\<forall>h' \<in> set (memory_block_history d). hr_block_id h' = r_id r \<longrightarrow> hr_version h' \<le> hr_version h"
    unfolding row_history_ok_def by blast
  from h f have "history_of_row h \<in> set (db_getBlockHistory sid l d)"
    unfolding s by auto
  moreover from h f have "h_value (history_of_row h) = b_value b
      \<and> (\<forall>h' \<in> set (db_getBlockHistory sid l d). h_version h' \<le> h_version (history_of_row h))"
    unfolding s by auto
  ultimately have 5: "\<exists>h \<in> set (db_getBlockHistory sid l d). h_value h = b_value b
            \<and> (\<forall>h' \<in> set (db_getBlockHistory sid l d). h_version h' \<le> h_version h)"
    by blast
  from bound have le: "\<forall>h \<in> set (memory_block_history d). hr_block_id h = b_id b \<longrightarrow>
      hr_version h \<le> b_version b" by simp
  have 6: "u_value u = Some x \<longrightarrow> fresh_history_id hid d \<longrightarrow>
            db_getBlockHistory sid l (snd (db_updateBlock sid l u hid now d)) =
              \<lparr>h_id = hid, h_blockId = b_id b, h_label = sqlite_text l, h_value = sqlite_text x,
                h_version = b_version b + 1, h_createdAt = now, h_createdAtBy = lit ''agent''\<rparr>
              # db_getBlockHistory sid l d
            \<and> update_skips sid l u d = []"
    using getBlockHistory_update[OF assms(2) _ le, of u hid now]
    by (simp add: update_skips_def)
  have 7: "u_value u = None \<longrightarrow>
            db_getBlockHistory sid l (snd (db_updateBlock sid l u hid now d))
              = db_getBlockHistory sid l d
            \<and> update_skips sid l u d = [(b_id b, b_version b + 1)]"
    using getBlockHistory_update[OF assms(2) _ le, of u hid now] assms(2)
    by (simp add: update_skips_def)
  have "\<forall>w \<in> set (map h_version (db_getBlockHistory sid l d)).
      count_list (map h_version (db_getBlockHistory sid l d)) w \<le> 1"
  proof
    fix w assume "w \<in> set (map h_version (db_getBlockHistory sid l d))"
    with 4 have "1 \<le> w \<and> w \<le> b_version b" by auto
    with ok f show "count_list (map h_version (db_getBlockHistory sid l d)) w \<le> 1"
      unfolding c row_history_ok_def by simp
  qed
  then have 8: "distinct (map h_version (db_getBlockHistory sid l d))"
    by (rule distinct_count_list)
  note 9 = sorted_getBlockHistory[OF assms(2)]
  from 1 2 3 4 5 6 7 8 9 show ?thesis by blast
qed

lemma ex_db_reachable: "reachable ex_db []"
  unfolding ex_db_def
  by (intro reachable.create reachable.empty) (simp add: fresh_history_id_def empty_db_def)

lemma ex_db2_reachable: "reachable ex_db2 [(lit ''b1'', 2)]"
proof -
  have f: "fresh_history_id (lit ''h2'') ex_db"
    by (simp add: fresh_history_id_def ex_db_eq lit_def)
  have s: "update_skips sessionId (lit ''project'')
             (no_updates\<lparr>u_description := Some (lit ''notes'')\<rparr>) ex_db = [(lit ''b1'', 2)]"
    by (simp add: update_skips_def no_updates_def ex_db_eq db_defs lit_def)
  from reachable.update[OF ex_db_reachable f, of sessionId "lit ''project''"
      "no_updates\<lparr>u_description := Some (lit ''notes'')\<rparr>" "lit ''t1''"]
  show ?thesis by (simp add: s ex_db2_def)
qed

lemma ex_db2_eq:
  "ex_db2 = \<lparr>memory_blocks =
     [\<lparr>r_id = lit ''b1'', r_session_id = lit ''global'', r_label = lit ''project'',
       r_value = lit ''abc'', r_description = Some (lit ''notes''), r_char_limit = 10,
       r_read_only = 0, r_hidden = 0, r_metadata = None, r_created_at = lit ''t0'',
       r_updated_at = lit ''t1'', r_version = 2\<rparr>],
     memory_block_history =
     [\<lparr>hr_id = lit ''h1'', hr_block_id = lit ''b1'', hr_label = lit ''project'',
       hr_value = lit ''abc'', hr_version = 1, hr_created_at = lit ''t0'',
       hr_created_by = lit ''agent''\<rparr>]\<rparr>"
  by (simp add: ex_db2_def ex_db_eq no_updates_def db_defs lit_def)

text \<open>
  C2 as stated fails: after the create and an update of the description alone, the example
  block has the version 2 and a single history row, of version 1.
\<close>

theorem history_gap_counterexample:
  "reachable ex_db2 [(lit ''b1'', 2)]
   \<and> u_value (no_updates\<lparr>u_description := Some (lit ''notes'')\<rparr>) = None
   \<and> map_option b_version (db_getBlockByLabel sessionId (lit ''project'') ex_db2) = Some 2
   \<and> map h_version (db_getBlockHistory sessionId (lit ''project'') ex_db2) = [1]"
  using ex_db2_reachable
  by (simp add: ex_db2_eq db_getBlockHistory_def db_defs history_of_row_def no_updates_def
        lit_def)

lemma ex_db3_eq:
  "ex_db3 = \<lparr>memory_blocks =
     [\<lparr>r_id = lit ''b1'', r_session_id = lit ''global'', r_label = lit ''project'',
       r_value = lit ''x'', r_description = Some (lit ''notes''), r_char_limit = 10,
       r_read_only = 0, r_hidden = 0, r_metadata = None, r_created_at = lit ''t0'',
       r_updated_at = lit ''t3'', r_version = 4\<rparr>],
     memory_block_history =
     [\<lparr>hr_id = lit ''h1'', hr_block_id = lit ''b1'', hr_label = lit ''project'',
       hr_value = lit ''abc'', hr_version = 1, hr_created_at = lit ''t0'',
       hr_created_by = lit ''agent''\<rparr>,
      \<lparr>hr_id = lit ''h2'', hr_block_id = lit ''b1'', hr_label = lit ''project'',
       hr_value = lit ''abcd'', hr_version = 2, hr_created_at = lit ''t1'',
       hr_created_by = lit ''agent''\<rparr>,
      \<lparr>hr_id = lit ''h4'', hr_block_id = lit ''b1'', hr_label = lit ''project'',
       hr_value = lit ''x'', hr_version = 4, hr_created_at = lit ''t3'',
       hr_created_by = lit ''agent''\<rparr>]\<rparr>"
  by (simp add: ex_db3_def ex_db_eq only_value_def no_updates_def db_defs lit_def Let_def)

lemma ex_db3_reachable: "reachable ex_db3 [(lit ''b1'', 3)]"
proof -
  let ?u1 = "only_value (lit ''abcd'')"
  let ?u2 = "no_updates\<lparr>u_description := Some (lit ''notes'')\<rparr>"
  let ?u3 = "only_value (lit ''x'')"
  let ?d1 = "snd (db_updateBlock sessionId (lit ''project'') ?u1 (lit ''h2'') (lit ''t1'') ex_db)"
  let ?d2 = "snd (db_updateBlock sessionId (lit ''project'') ?u2 (lit ''h3'') (lit ''t2'') ?d1)"
  have f1: "fresh_history_id (lit ''h2'') ex_db"
    by (simp add: fresh_history_id_def ex_db_eq lit_def)
  have s1: "update_skips sessionId (lit ''project'') ?u1 ex_db = []"
    by (simp add: update_skips_def only_value_def)
  from reachable.update[OF ex_db_reachable f1, of sessionId "lit ''project''" ?u1 "lit ''t1''"]
  have r1: "reachable ?d1 []" by (simp add: s1)
  have f2: "fresh_history_id (lit ''h3'') ?d1"
    by (simp add: fresh_history_id_def ex_db_eq only_value_def db_defs lit_def Let_def)
  have s2: "update_skips sessionId (lit ''project'') ?u2 ?d1 = [(lit ''b1'', 3)]"
    by (simp add: update_skips_def ex_db_eq only_value_def no_updates_def db_defs lit_def Let_def)
  from reachable.update[OF r1 f2, of sessionId "lit ''project''" ?u2 "lit ''t2''"]
  have r2: "reachable ?d2 [(lit ''b1'', 3)]" by (simp add: s2)
  have f3: "fresh_history_id (lit ''h4'') ?d2"
    by (simp add: fresh_history_id_def ex_db_eq only_value_def no_updates_def db_defs lit_def
          Let_def)
  have s3: "update_skips sessionId (lit ''project'') ?u3 ?d2 = []"
    by (simp add: update_skips_def only_value_def)
  from reachable.update[OF r2 f3, of sessionId "lit ''project''" ?u3 "lit ''t3''"]
  show ?thesis by (simp add: s3 ex_db3_def)
qed

text \<open>
  The example block after an update of its value, an update of its description and a second
  update of its value: it has the version 4 and history rows of the versions 4, 2 and 1, none
  of the version 3, which the update of the description wrote. A further update of the value
  writes the row of version 5 in front of them.
\<close>

theorem history_versions_witness:
  "reachable ex_db3 [(lit ''b1'', 3)]
   \<and> db_getBlockByLabel sessionId (lit ''project'') ex_db3 =
      Some (ex_block_stored\<lparr>b_value := lit ''x'', b_description := Some (lit ''notes''),
              b_updatedAt := lit ''t3'', b_version := 4\<rparr>)
   \<and> map h_version (db_getBlockHistory sessionId (lit ''project'') ex_db3) = [4, 2, 1]
   \<and> count_list (map h_version (db_getBlockHistory sessionId (lit ''project'') ex_db3)) 2 = 1
   \<and> count_list (map h_version (db_getBlockHistory sessionId (lit ''project'') ex_db3)) 3 = 0
   \<and> u_value (only_value (lit ''y'')) = Some (lit ''y'')
   \<and> fresh_history_id (lit ''h5'') ex_db3
   \<and> map h_version (db_getBlockHistory sessionId (lit ''project'')
        (snd (db_updateBlock sessionId (lit ''project'') (only_value (lit ''y'')) (lit ''h5'')
                (lit ''t4'') ex_db3))) = [5, 4, 2, 1]
   \<and> map h_value (db_getBlockHistory sessionId (lit ''project'')
        (snd (db_updateBlock sessionId (lit ''project'') (only_value (lit ''y'')) (lit ''h5'')
                (lit ''t4'') ex_db3))) = [lit ''y'', lit ''x'', lit ''abcd'', lit ''abc'']"
proof -
  let ?b = "ex_block_stored\<lparr>b_value := lit ''x'', b_description := Some (lit ''notes''),
              b_updatedAt := lit ''t3'', b_version := 4\<rparr>"
  have g: "db_getBlockByLabel sessionId (lit ''project'') ex_db3 = Some ?b"
    by (simp add: ex_db3_eq db_defs ex_block_stored_def lit_def)
  have f: "fresh_history_id (lit ''h5'') ex_db3"
    by (simp add: fresh_history_id_def ex_db3_eq lit_def)
  have uv: "u_value (only_value (lit ''y'')) = Some (lit ''y'')" by (simp add: only_value_def)
  have hv: "map h_version (db_getBlockHistory sessionId (lit ''project'') ex_db3) = [4, 2, 1]"
    and hx: "map h_value (db_getBlockHistory sessionId (lit ''project'') ex_db3)
               = [lit ''x'', lit ''abcd'', lit ''abc'']"
    by (simp_all add: ex_db3_eq db_getBlockHistory_def db_defs history_of_row_def lit_def)
  note t2 = history_versions [OF ex_db3_reachable g, where v=2 and u="only_value (lit ''y'')"
      and x="lit ''y''" and hid="lit ''h5''" and now="lit ''t4''"]
  note t3 = history_versions [OF ex_db3_reachable g, where v=3 and u="only_value (lit ''y'')"
      and x="lit ''y''" and hid="lit ''h5''" and now="lit ''t4''"]
  from t2 have c2:
    "count_list (map h_version (db_getBlockHistory sessionId (lit ''project'') ex_db3)) 2 = 1"
    by (simp add: ex_block_stored_def lit_def)
  from t3 have c3:
    "count_list (map h_version (db_getBlockHistory sessionId (lit ''project'') ex_db3)) 3 = 0"
    by (simp add: ex_block_stored_def lit_def)
  from t2 uv f have step:
    "db_getBlockHistory sessionId (lit ''project'')
        (snd (db_updateBlock sessionId (lit ''project'') (only_value (lit ''y'')) (lit ''h5'')
                (lit ''t4'') ex_db3)) =
       \<lparr>h_id = lit ''h5'', h_blockId = b_id ?b, h_label = sqlite_text (lit ''project''),
         h_value = sqlite_text (lit ''y''), h_version = b_version ?b + 1,
         h_createdAt = lit ''t4'', h_createdAtBy = lit ''agent''\<rparr>
       # db_getBlockHistory sessionId (lit ''project'') ex_db3"
    by blast
  have n: "map h_version (db_getBlockHistory sessionId (lit ''project'')
        (snd (db_updateBlock sessionId (lit ''project'') (only_value (lit ''y'')) (lit ''h5'')
                (lit ''t4'') ex_db3))) = [5, 4, 2, 1]"
    unfolding step by (simp add: hv)
  have m: "map h_value (db_getBlockHistory sessionId (lit ''project'')
        (snd (db_updateBlock sessionId (lit ''project'') (only_value (lit ''y'')) (lit ''h5'')
                (lit ''t4'') ex_db3))) = [lit ''y'', lit ''x'', lit ''abcd'', lit ''abc'']"
    unfolding step by (simp add: hx)
  from ex_db3_reachable g hv c2 c3 uv f n m show ?thesis by blast
qed

end
